theory Spec2Isabelle
  imports Main "HOL-Library.Word" "HOL-Library.AList"
begin

section \<open>Values exchanged with the two stores\<close>

text \<open>
  The service \<open>ArticlesCitationsService\<close> talks to a graph store through
  \<open>neo4jService.runQuery\<close> and to a search index through
  \<open>elasticsearchService.search\<close>. Both are collaborators of the class, so both are
  parameters of the model. This section fixes the values that cross the two interfaces.
\<close>

subsection \<open>Search-index documents\<close>

text \<open>
  A hit's \<open>_source\<close> is a JSON object: a flat property map. Reading a key that the
  object does not have gives \<open>undefined\<close>, modelled as \<open>None\<close>. JSON numbers are
  restricted to integers; a fractional number is truthy like every non-zero integer.
\<close>

datatype json =
    JNull
  | JBool bool
  | JNum int
  | JStr string
  | JArr "json list"
  | JObj "(string \<times> json) list"

type_synonym doc = "(string \<times> json) list"

text \<open>\<open>a['name']\<close>: the first entry of the key, \<open>undefined\<close> when there is none.\<close>

definition member_of :: "doc \<Rightarrow> string \<Rightarrow> json option" where
  "member_of d k = map_of d k"

text \<open>
  JavaScript truthiness, as the conditional \<open>a['name'] ? 1 : 0\<close> applies it:
  \<open>undefined\<close>, \<open>null\<close>, \<open>false\<close>, \<open>0\<close> and the empty string are falsy, every
  other value (arrays and objects included, even empty ones) is truthy.
\<close>

fun truthy :: "json option \<Rightarrow> bool" where
  "truthy None = False"
| "truthy (Some JNull) = False"
| "truthy (Some (JBool b)) = b"
| "truthy (Some (JNum n)) = (n \<noteq> 0)"
| "truthy (Some (JStr s)) = (s \<noteq> [])"
| "truthy (Some (JArr xs)) = True"
| "truthy (Some (JObj kvs)) = True"

subsection \<open>The merge step\<close>

text \<open>
  \<open>Array.prototype.sort\<close> with a comparator. ECMAScript requires the sort to be stable,
  and for a comparator that is a consistent ordering the sorted array is then unique;
  insertion from the right computes it: an element is put in front of the first later
  element that the comparator does not order before it.
\<close>

fun insert_by :: "('a \<Rightarrow> 'a \<Rightarrow> int) \<Rightarrow> 'a \<Rightarrow> 'a list \<Rightarrow> 'a list" where
  "insert_by cmp x [] = [x]"
| "insert_by cmp x (y # ys) =
     (if cmp x y \<le> 0 then x # y # ys else y # insert_by cmp x ys)"

definition Array_sort :: "('a \<Rightarrow> 'a \<Rightarrow> int) \<Rightarrow> 'a list \<Rightarrow> 'a list" where
  "Array_sort cmp xs = foldr (insert_by cmp) xs []"

text \<open>\<open>const aHasName = a[key] ? 1 : 0\<close>, with \<open>key\<close> either \<open>name\<close> or \<open>caseName\<close>.\<close>

definition hasName :: "string \<Rightarrow> doc \<Rightarrow> int" where
  "hasName key a = (if truthy (member_of a key) then 1 else 0)"

text \<open>The comparator \<open>(a, b) => bHasName - aHasName\<close>.\<close>

definition compareHasName :: "string \<Rightarrow> doc \<Rightarrow> doc \<Rightarrow> int" where
  "compareHasName key a b = hasName key b - hasName key a"

text \<open>\<open>elasticSearchResults.flat().sort(...)\<close>: one level of flattening, then the sort.\<close>

definition flattenedResults :: "string \<Rightarrow> doc list list \<Rightarrow> doc list" where
  "flattenedResults key elasticSearchResults =
     Array_sort (compareHasName key) (concat elasticSearchResults)"


subsection \<open>Graph-store records\<close>

text \<open>
  What \<open>record.get(key)\<close> of the graph driver can hand to the service: \<open>null\<close>, a
  string, the driver's two-word \<open>Integer {low, high}\<close> and a \<open>Node\<close> with its element id
  and property map. Both words of an \<open>Integer\<close> are signed 32-bit values, so \<open>.low\<close> reads
  the low word as a two's complement number.
\<close>

datatype neo4j_value =
    NNull
  | NString string
  | NInteger "32 word" "32 word"
  | NNode string "(string \<times> neo4j_value) list"

type_synonym neo4j_record = "(string \<times> neo4j_value) list"

text \<open>
  Failures. \<open>Rejected\<close> is a rejection of \<open>runQuery\<close> or \<open>search\<close> (driver, network or
  query failure) with its message; \<open>TypeError\<close> is the JavaScript error of reading a
  property of \<open>undefined\<close> or \<open>null\<close>, with the property's name; \<open>Neo4jError\<close> is what
  \<open>record.get\<close> throws for a key the record does not have.
\<close>

datatype error =
    Rejected string
  | TypeError string
  | Neo4jError string

definition andThen :: "'e + 'a \<Rightarrow> ('a \<Rightarrow> 'e + 'b) \<Rightarrow> 'e + 'b" where
  "andThen m f = (case m of Inl e \<Rightarrow> Inl e | Inr x \<Rightarrow> f x)"

definition Record_get :: "neo4j_record \<Rightarrow> string \<Rightarrow> error + neo4j_value" where
  "Record_get r key = (case map_of r key of None \<Rightarrow> Inl (Neo4jError key) | Some v \<Rightarrow> Inr v)"

text \<open>\<open>v.low\<close>: a number for an \<open>Integer\<close>, \<open>undefined\<close> (\<open>None\<close>) for a string or a node.\<close>

fun low :: "neo4j_value \<Rightarrow> error + int option" where
  "low NNull = Inl (TypeError ''low'')"
| "low (NInteger l h) = Inr (Some (sint l))"
| "low (NString s) = Inr None"
| "low (NNode i ps) = Inr None"

text \<open>\<open>v.properties\<close>.\<close>

fun properties :: "neo4j_value \<Rightarrow> error + (string \<times> neo4j_value) list option" where
  "properties NNull = Inl (TypeError ''properties'')"
| "properties (NNode i ps) = Inr (Some ps)"
| "properties (NString s) = Inr None"
| "properties (NInteger l h) = Inr None"

text \<open>Object spread \<open>{...x}\<close>: the own properties of an object, nothing for \<open>undefined\<close>.\<close>

fun spread :: "(string \<times> neo4j_value) list option \<Rightarrow> (string \<times> neo4j_value) list" where
  "spread None = []"
| "spread (Some ps) = ps"

text \<open>\<open>x || 0\<close> on a number or \<open>undefined\<close>.\<close>

fun or_zero :: "int option \<Rightarrow> int" where
  "or_zero None = 0"
| "or_zero (Some n) = (if n \<noteq> 0 then n else 0)"

text \<open>
  \<open>xs.map(f)\<close> with a callback that may throw: the first exception, in array order, ends
  the map.
\<close>

fun Array_map :: "('a \<Rightarrow> 'e + 'b) \<Rightarrow> 'a list \<Rightarrow> 'e + 'b list" where
  "Array_map f [] = Inr []"
| "Array_map f (x # xs) =
     (case f x of
        Inl e \<Rightarrow> Inl e
      | Inr y \<Rightarrow> (case Array_map f xs of Inl e \<Rightarrow> Inl e | Inr ys \<Rightarrow> Inr (y # ys)))"

text \<open>
  \<open>Promise.all\<close>: fulfilled with all values, in array order, when every promise is
  fulfilled; otherwise rejected with the reason of the promise that was rejected first.
  Which one that is depends on timing, so the position \<open>first\<close> among the rejected
  promises is an input.
\<close>

fun rejections :: "('e + 'a) list \<Rightarrow> 'e list" where
  "rejections [] = []"
| "rejections (Inl e # ps) = e # rejections ps"
| "rejections (Inr v # ps) = rejections ps"

fun fulfilments :: "('e + 'a) list \<Rightarrow> 'a list" where
  "fulfilments [] = []"
| "fulfilments (Inl e # ps) = fulfilments ps"
| "fulfilments (Inr v # ps) = v # fulfilments ps"

definition Promise_all :: "nat \<Rightarrow> ('e + 'a) list \<Rightarrow> 'e + 'a list" where
  "Promise_all first ps =
     (case rejections ps of
        [] \<Rightarrow> Inr (fulfilments ps)
      | e # es \<Rightarrow> Inl ((e # es) ! (first mod length (e # es))))"

section \<open>Queries\<close>

text \<open>
  The service builds its queries as Cypher text. The fragment of Cypher it uses is
  small, and a query is modelled as its list of clauses:

  \<^item> \<open>(v:Label {key: $articleId})\<close> is \<open>NodeP v (Some Label) (Some key)\<close>, with \<open>None\<close>
    where the label or the property map is left out;
  \<^item> \<open>MATCH (x)-[:T]->(y)\<close> and \<open>OPTIONAL MATCH (x)-[:T]->(y)\<close>;
  \<^item> \<open>WITH v, w\<close>;
  \<^item> \<open>WHERE toLower(e1) CONTAINS toLower($searchTerm) OR toLower(e2) CONTAINS ...\<close>,
    given by its operands \<open>e1, e2, ...\<close>;
  \<^item> \<open>RETURN count(v) AS alias\<close>, \<open>RETURN DISTINCT e1 AS a1, ...\<close>;
  \<^item> \<open>ORDER BY e DESC\<close> and \<open>SKIP toInteger($skip) LIMIT toInteger($limit)\<close>.
\<close>

datatype expr =
    Var string
  | Prop string string
  | ElementId string

datatype node_pattern = NodeP string "string option" "string option"

datatype clause =
    MATCH node_pattern string node_pattern
  | OPTIONAL_MATCH node_pattern string node_pattern
  | WITH "string list"
  | WHERE "expr list"
  | RETURN_count string string
  | RETURN_DISTINCT "(expr \<times> string) list"
  | ORDER_BY_DESC expr
  | SKIP_LIMIT

type_synonym query = "clause list"

text \<open>The parameter object passed with a query; a key left out is \<open>None\<close>.\<close>

record params =
  param_articleId :: string
  param_searchTerm :: "string option"
  param_skip :: "nat option"
  param_limit :: "nat option"

text \<open>
  \<open>ArticlesCitationsFilterDto\<close>, as the service destructures it. \<open>skip\<close> and \<open>limit\<close> are
  non-negative integers by the interface contract; \<open>searchTerm\<close> is optional.
\<close>

record ArticlesCitationsFilterDto =
  articleId :: string
  searchTerm :: "string option"
  skip :: nat
  limit :: nat

text \<open>\<open>!searchTerm\<close>: true for \<open>undefined\<close> and for the empty string.\<close>

fun is_falsy :: "string option \<Rightarrow> bool" where
  "is_falsy None = True"
| "is_falsy (Some s) = (s = [])"

section \<open>The two collaborators\<close>

record search_request =
  index :: string
  match_number :: "neo4j_value option"

text \<open>One element of \<open>result.hits.hits\<close>; \<open>source\<close> is its \<open>_source\<close>.\<close>

record hit =
  source :: doc

text \<open>
  \<open>runQuery\<close> and \<open>search\<close> are asynchronous; each call is modelled by its outcome,
  \<open>Inl\<close> for a rejection. \<open>settles_first\<close> is the timing input of \<open>Promise_all\<close>; one
  value serves a whole operation, since at most one of its two \<open>Promise.all\<close> rejects.
  The logger calls of the service have no effect on its results and are left out; the
  \<open>catch\<close> block of every operation logs and rethrows the same error, so a failure is
  the value \<open>Inl error\<close> unchanged.
\<close>

record services =
  runQuery :: "query \<Rightarrow> params \<Rightarrow> error + neo4j_record list"
  search :: "search_request \<Rightarrow> error + hit list"
  settles_first :: nat

record result =
  total :: int

record articles_result = result +
  articles :: "doc list"

record cases_result = result +
  cases :: "doc list"

record references_result = result +
  references :: "(string \<times> neo4j_value) list list"


section \<open>The operations of \<open>ArticlesCitationsService\<close>\<close>

text \<open>
  Each operation is written out as in the source: its search condition, its count
  query and its page query, the two concurrent \<open>runQuery\<close> calls, the extraction
  \<open>countResult[0]?.get('totalCount').low || 0\<close>, the mapping of the page records, the
  search-index lookups and the merge step. The optional chain \<open>?.\<close> skips the rest of
  the chain when \<open>countResult[0]\<close> is \<open>undefined\<close>; the count-only operations read
  \<open>result[0].get('count').low\<close> with no optional chain and no default, so they return a
  number or \<open>undefined\<close>.
\<close>

subsection \<open>\<open>getCitedByArticles\<close>\<close>

definition getCitedByArticles_getSearchCondition ::
  "ArticlesCitationsFilterDto \<Rightarrow> string \<Rightarrow> expr \<Rightarrow> clause list" where
  "getCitedByArticles_getSearchCondition filter' alias nameAlias =
     (if is_falsy (searchTerm filter') then []
      else [WHERE
           [nameAlias,
            Prop alias ''number'',
            Prop alias ''text'']])"

definition getCitedByArticles_getCountQuery :: "ArticlesCitationsFilterDto \<Rightarrow> query" where
  "getCitedByArticles_getCountQuery filter' =
     [MATCH (NodeP ''a'' (Some ''Article'') None) ''CITES''
            (NodeP ''b'' (Some ''Article'') (Some ''number'')),
      OPTIONAL_MATCH (NodeP ''a'' None None) ''IS_NAMED'' (NodeP ''n'' (Some ''Name'') None),
      WITH [''a'', ''n'']]
     @ getCitedByArticles_getSearchCondition filter' ''a'' (Prop ''n'' ''short'')
     @ [RETURN_count ''a'' ''totalCount'']"

definition getCitedByArticles_getArticlesQuery :: "ArticlesCitationsFilterDto \<Rightarrow> query" where
  "getCitedByArticles_getArticlesQuery filter' =
     [MATCH (NodeP ''a'' (Some ''Article'') None) ''CITES''
            (NodeP ''b'' (Some ''Article'') (Some ''number'')),
      OPTIONAL_MATCH (NodeP ''a'' None None) ''IS_NAMED'' (NodeP ''n'' (Some ''Name'') None),
      WITH [''a'', ''n'']]
     @ getCitedByArticles_getSearchCondition filter' ''a'' (Prop ''n'' ''short'')
     @ [RETURN_DISTINCT
          [(Var ''a'', ''a''), (Prop ''n'' ''short'', ''name''),
           (ElementId ''a'', ''elementId'')],
        ORDER_BY_DESC (Prop ''a'' ''citing_cases''),
        SKIP_LIMIT]"

text \<open>
  The callback of \<open>articlesResult.map\<close>: the object
  \<open>{ ...article, id: citedArticleId, name }\<close>.
\<close>

definition getCitedByArticles_record :: "neo4j_record \<Rightarrow> error + (string \<times> neo4j_value) list" where
  "getCitedByArticles_record record =
     andThen (Record_get record ''a'') (\<lambda>node.
     andThen (properties node) (\<lambda>article.
     andThen (Record_get record ''elementId'') (\<lambda>citedArticleId.
     andThen (Record_get record ''name'') (\<lambda>name.
     Inr (AList.update ''name'' name
            (AList.update ''id'' citedArticleId (spread article)))))))"

definition getCitedByArticles :: "services \<Rightarrow> ArticlesCitationsFilterDto \<Rightarrow> error + articles_result" where
  "getCitedByArticles sv filter' =
     andThen
       (Promise_all (settles_first sv)
          [runQuery sv (getCitedByArticles_getCountQuery filter')
             \<lparr>param_articleId = articleId filter', param_searchTerm = searchTerm filter',
              param_skip = None, param_limit = None\<rparr>,
           runQuery sv (getCitedByArticles_getArticlesQuery filter')
             \<lparr>param_articleId = articleId filter', param_searchTerm = searchTerm filter',
              param_skip = Some (skip filter'), param_limit = Some (limit filter')\<rparr>])
       (\<lambda>results.
     let countResult = results ! 0; articlesResult = results ! 1 in
     andThen
       (case countResult of
          [] \<Rightarrow> Inr None
        | record # _ \<Rightarrow> andThen (Record_get record ''totalCount'') low)
       (\<lambda>lowWord.
     let totalCount = or_zero lowWord in
     andThen (Array_map getCitedByArticles_record articlesResult) (\<lambda>articles.
     andThen
       (Promise_all (settles_first sv)
          (map (\<lambda>articleData.
                  andThen
                    (search sv \<lparr>index = ''articles'',
                                 match_number = map_of articleData ''number''\<rparr>)
                    (\<lambda>result. Inr (map source result)))
             articles))
       (\<lambda>elasticSearchResults.
     Inr \<lparr>total = totalCount,
          articles = flattenedResults ''name'' elasticSearchResults\<rparr>))))"

definition getCitedByArticlesCount_query :: query where
  "getCitedByArticlesCount_query =
        [MATCH (NodeP ''a'' (Some ''Article'') None) ''CITES''
           (NodeP ''b'' (Some ''Article'') (Some ''number''))] @
        [OPTIONAL_MATCH (NodeP ''a'' (Some ''Article'') None) ''IS_NAMED''
           (NodeP ''n'' (Some ''Name'') None)] @
        [RETURN_count ''a'' ''count'']"

definition getCitedByArticlesCount :: "services \<Rightarrow> string \<Rightarrow> error + int option" where
  "getCitedByArticlesCount sv articleId' =
     andThen
       (runQuery sv getCitedByArticlesCount_query
          \<lparr>param_articleId = articleId', param_searchTerm = None,
           param_skip = None, param_limit = None\<rparr>)
       (\<lambda>result.
     case result of
       [] \<Rightarrow> Inl (TypeError ''get'')
     | record # _ \<Rightarrow> andThen (Record_get record ''count'') low)"

subsection \<open>\<open>getArticleCitingOtherArticles\<close>\<close>

definition getArticleCitingOtherArticles_getSearchCondition ::
  "ArticlesCitationsFilterDto \<Rightarrow> string \<Rightarrow> expr \<Rightarrow> clause list" where
  "getArticleCitingOtherArticles_getSearchCondition filter' alias nameAlias =
     (if is_falsy (searchTerm filter') then []
      else [WHERE
           [nameAlias,
            Prop alias ''number'',
            Prop alias ''text'']])"

definition getArticleCitingOtherArticles_getCountQuery :: "ArticlesCitationsFilterDto \<Rightarrow> query" where
  "getArticleCitingOtherArticles_getCountQuery filter' =
     [MATCH (NodeP ''a'' (Some ''Article'') (Some ''number'')) ''CITES''
            (NodeP ''b'' (Some ''Article'') None),
      OPTIONAL_MATCH (NodeP ''b'' None None) ''IS_NAMED'' (NodeP ''n'' (Some ''Name'') None),
      WITH [''b'', ''n'']]
     @ getArticleCitingOtherArticles_getSearchCondition filter' ''b'' (Prop ''n'' ''short'')
     @ [RETURN_count ''b'' ''totalCount'']"

definition getArticleCitingOtherArticles_getArticlesQuery :: "ArticlesCitationsFilterDto \<Rightarrow> query" where
  "getArticleCitingOtherArticles_getArticlesQuery filter' =
     [MATCH (NodeP ''a'' (Some ''Article'') (Some ''number'')) ''CITES''
            (NodeP ''b'' (Some ''Article'') None),
      OPTIONAL_MATCH (NodeP ''b'' None None) ''IS_NAMED'' (NodeP ''n'' (Some ''Name'') None),
      WITH [''b'', ''n'']]
     @ getArticleCitingOtherArticles_getSearchCondition filter' ''b'' (Prop ''n'' ''short'')
     @ [RETURN_DISTINCT
          [(Var ''b'', ''b''), (Prop ''n'' ''short'', ''name''),
           (ElementId ''b'', ''elementId'')],
        ORDER_BY_DESC (Prop ''b'' ''citing_cases''),
        SKIP_LIMIT]"

text \<open>
  The callback of \<open>articlesResult.map\<close>: the object
  \<open>{ ...article, id: citedArticleId, name }\<close>.
\<close>

definition getArticleCitingOtherArticles_record :: "neo4j_record \<Rightarrow> error + (string \<times> neo4j_value) list" where
  "getArticleCitingOtherArticles_record record =
     andThen (Record_get record ''b'') (\<lambda>node.
     andThen (properties node) (\<lambda>article.
     andThen (Record_get record ''elementId'') (\<lambda>citedArticleId.
     andThen (Record_get record ''name'') (\<lambda>name.
     Inr (AList.update ''name'' name
            (AList.update ''id'' citedArticleId (spread article)))))))"

definition getArticleCitingOtherArticles :: "services \<Rightarrow> ArticlesCitationsFilterDto \<Rightarrow> error + articles_result" where
  "getArticleCitingOtherArticles sv filter' =
     andThen
       (Promise_all (settles_first sv)
          [runQuery sv (getArticleCitingOtherArticles_getCountQuery filter')
             \<lparr>param_articleId = articleId filter', param_searchTerm = searchTerm filter',
              param_skip = None, param_limit = None\<rparr>,
           runQuery sv (getArticleCitingOtherArticles_getArticlesQuery filter')
             \<lparr>param_articleId = articleId filter', param_searchTerm = searchTerm filter',
              param_skip = Some (skip filter'), param_limit = Some (limit filter')\<rparr>])
       (\<lambda>results.
     let countResult = results ! 0; articlesResult = results ! 1 in
     andThen
       (case countResult of
          [] \<Rightarrow> Inr None
        | record # _ \<Rightarrow> andThen (Record_get record ''totalCount'') low)
       (\<lambda>lowWord.
     let totalCount = or_zero lowWord in
     andThen (Array_map getArticleCitingOtherArticles_record articlesResult) (\<lambda>articles.
     andThen
       (Promise_all (settles_first sv)
          (map (\<lambda>articleData.
                  andThen
                    (search sv \<lparr>index = ''articles'',
                                 match_number = map_of articleData ''number''\<rparr>)
                    (\<lambda>result. Inr (map source result)))
             articles))
       (\<lambda>elasticSearchResults.
     Inr \<lparr>total = totalCount,
          articles = flattenedResults ''name'' elasticSearchResults\<rparr>))))"

definition getArticleCitingOtherArticlesCount_query :: query where
  "getArticleCitingOtherArticlesCount_query =
        [MATCH (NodeP ''a'' (Some ''Article'') (Some ''number'')) ''CITES''
           (NodeP ''b'' (Some ''Article'') None)] @
        [OPTIONAL_MATCH (NodeP ''b'' (Some ''Article'') None) ''IS_NAMED''
           (NodeP ''n'' (Some ''Name'') None)] @
        [RETURN_count ''b'' ''count'']"

definition getArticleCitingOtherArticlesCount :: "services \<Rightarrow> string \<Rightarrow> error + int option" where
  "getArticleCitingOtherArticlesCount sv articleId' =
     andThen
       (runQuery sv getArticleCitingOtherArticlesCount_query
          \<lparr>param_articleId = articleId', param_searchTerm = None,
           param_skip = None, param_limit = None\<rparr>)
       (\<lambda>result.
     case result of
       [] \<Rightarrow> Inl (TypeError ''get'')
     | record # _ \<Rightarrow> andThen (Record_get record ''count'') low)"

subsection \<open>\<open>getCasesCitingArticle\<close>\<close>

definition getCasesCitingArticle_getSearchCondition ::
  "ArticlesCitationsFilterDto \<Rightarrow> string \<Rightarrow> expr \<Rightarrow> clause list" where
  "getCasesCitingArticle_getSearchCondition filter' alias nameAlias =
     (if is_falsy (searchTerm filter') then []
      else [WHERE
           [nameAlias,
            Prop alias ''number'',
            Prop alias ''judgment'',
            Prop alias ''facts'',
            Prop alias ''reasoning'',
            Prop alias ''headnotes'',
            Prop alias ''year'',
            Prop alias ''decision_type'']])"

definition getCasesCitingArticle_getCountQuery :: "ArticlesCitationsFilterDto \<Rightarrow> query" where
  "getCasesCitingArticle_getCountQuery filter' =
     [MATCH (NodeP ''c'' (Some ''Case'') None) ''REFERS_TO''
            (NodeP ''a'' (Some ''Article'') (Some ''number'')),
      OPTIONAL_MATCH (NodeP ''c'' None None) ''IS_NAMED'' (NodeP ''n'' (Some ''Name'') None),
      WITH [''c'', ''n'']]
     @ getCasesCitingArticle_getSearchCondition filter' ''c'' (Prop ''n'' ''short'')
     @ [RETURN_count ''c'' ''totalCount'']"

definition getCasesCitingArticle_getCasesQuery :: "ArticlesCitationsFilterDto \<Rightarrow> query" where
  "getCasesCitingArticle_getCasesQuery filter' =
     [MATCH (NodeP ''c'' (Some ''Case'') None) ''REFERS_TO''
            (NodeP ''a'' (Some ''Article'') (Some ''number'')),
      OPTIONAL_MATCH (NodeP ''c'' None None) ''IS_NAMED'' (NodeP ''n'' (Some ''Name'') None),
      WITH [''c'', ''n'']]
     @ getCasesCitingArticle_getSearchCondition filter' ''c'' (Prop ''n'' ''short'')
     @ [RETURN_DISTINCT
          [(Var ''c'', ''c''), (Prop ''n'' ''short'', ''caseName''),
           (ElementId ''c'', ''elementId'')],
        ORDER_BY_DESC (Prop ''c'' ''citing_cases''),
        SKIP_LIMIT]"

text \<open>
  The callback of \<open>casesResult.map\<close>: the object
  \<open>{ ...caseg, id: caseId, caseName }\<close>.
\<close>

definition getCasesCitingArticle_record :: "neo4j_record \<Rightarrow> error + (string \<times> neo4j_value) list" where
  "getCasesCitingArticle_record record =
     andThen (Record_get record ''c'') (\<lambda>node.
     andThen (properties node) (\<lambda>caseg.
     andThen (Record_get record ''caseName'') (\<lambda>caseName.
     andThen (Record_get record ''elementId'') (\<lambda>caseId.
     Inr (AList.update ''caseName'' caseName
            (AList.update ''id'' caseId (spread caseg)))))))"

definition getCasesCitingArticle :: "services \<Rightarrow> ArticlesCitationsFilterDto \<Rightarrow> error + cases_result" where
  "getCasesCitingArticle sv filter' =
     andThen
       (Promise_all (settles_first sv)
          [runQuery sv (getCasesCitingArticle_getCountQuery filter')
             \<lparr>param_articleId = articleId filter', param_searchTerm = searchTerm filter',
              param_skip = None, param_limit = None\<rparr>,
           runQuery sv (getCasesCitingArticle_getCasesQuery filter')
             \<lparr>param_articleId = articleId filter', param_searchTerm = searchTerm filter',
              param_skip = Some (skip filter'), param_limit = Some (limit filter')\<rparr>])
       (\<lambda>results.
     let countResult = results ! 0; casesResult = results ! 1 in
     andThen
       (case countResult of
          [] \<Rightarrow> Inr None
        | record # _ \<Rightarrow> andThen (Record_get record ''totalCount'') low)
       (\<lambda>lowWord.
     let totalCount = or_zero lowWord in
     andThen (Array_map getCasesCitingArticle_record casesResult) (\<lambda>cases.
     andThen
       (Promise_all (settles_first sv)
          (map (\<lambda>caseData.
                  andThen
                    (search sv \<lparr>index = ''cases'',
                                 match_number = map_of caseData ''number''\<rparr>)
                    (\<lambda>result. Inr (map source result)))
             cases))
       (\<lambda>elasticSearchResults.
     Inr \<lparr>total = totalCount,
          cases = flattenedResults ''caseName'' elasticSearchResults\<rparr>))))"

definition getCasesCitingArticleCount_query :: query where
  "getCasesCitingArticleCount_query =
        [MATCH (NodeP ''c'' (Some ''Case'') None) ''REFERS_TO''
           (NodeP ''a'' (Some ''Article'') (Some ''number''))] @
        [OPTIONAL_MATCH (NodeP ''c'' (Some ''Case'') None) ''IS_NAMED''
           (NodeP ''n'' (Some ''Name'') None)] @
        [RETURN_count ''c'' ''count'']"

definition getCasesCitingArticleCount :: "services \<Rightarrow> string \<Rightarrow> error + int option" where
  "getCasesCitingArticleCount sv articleId' =
     andThen
       (runQuery sv getCasesCitingArticleCount_query
          \<lparr>param_articleId = articleId', param_searchTerm = None,
           param_skip = None, param_limit = None\<rparr>)
       (\<lambda>result.
     case result of
       [] \<Rightarrow> Inl (TypeError ''get'')
     | record # _ \<Rightarrow> andThen (Record_get record ''count'') low)"

subsection \<open>\<open>getReferencesWithArticle\<close>\<close>

definition getReferencesWithArticle_getSearchCondition ::
  "ArticlesCitationsFilterDto \<Rightarrow> string \<Rightarrow> clause list" where
  "getReferencesWithArticle_getSearchCondition filter' alias =
     (if is_falsy (searchTerm filter') then []
      else [WHERE [Prop alias ''context'', Prop alias ''text'']])"

definition getReferencesWithArticle_getCountQuery :: "ArticlesCitationsFilterDto \<Rightarrow> query" where
  "getReferencesWithArticle_getCountQuery filter' =
     [MATCH (NodeP ''r'' (Some ''Reference'') None) ''MENTIONS''
            (NodeP ''a'' (Some ''Article'') (Some ''number''))]
     @ getReferencesWithArticle_getSearchCondition filter' ''r''
     @ [RETURN_count ''r'' ''totalCount'']"

definition getReferencesWithArticle_getReferencesQuery ::
  "ArticlesCitationsFilterDto \<Rightarrow> query" where
  "getReferencesWithArticle_getReferencesQuery filter' =
     [MATCH (NodeP ''r'' (Some ''Reference'') None) ''MENTIONS''
            (NodeP ''a'' (Some ''Article'') (Some ''number''))]
     @ getReferencesWithArticle_getSearchCondition filter' ''r''
     @ [RETURN_DISTINCT [(Var ''r'', ''r'')],
        SKIP_LIMIT]"

text \<open>The callback of \<open>referencesResult.map\<close>: the object \<open>{ ...reference }\<close>.\<close>

definition getReferencesWithArticle_record ::
  "neo4j_record \<Rightarrow> error + (string \<times> neo4j_value) list" where
  "getReferencesWithArticle_record record =
     andThen (Record_get record ''r'') (\<lambda>node.
     andThen (properties node) (\<lambda>reference.
     Inr (spread reference)))"

definition getReferencesWithArticle ::
  "services \<Rightarrow> ArticlesCitationsFilterDto \<Rightarrow> error + references_result" where
  "getReferencesWithArticle sv filter' =
     andThen
       (Promise_all (settles_first sv)
          [runQuery sv (getReferencesWithArticle_getCountQuery filter')
             \<lparr>param_articleId = articleId filter', param_searchTerm = searchTerm filter',
              param_skip = None, param_limit = None\<rparr>,
           runQuery sv (getReferencesWithArticle_getReferencesQuery filter')
             \<lparr>param_articleId = articleId filter', param_searchTerm = searchTerm filter',
              param_skip = Some (skip filter'), param_limit = Some (limit filter')\<rparr>])
       (\<lambda>results.
     let countResult = results ! 0; referencesResult = results ! 1 in
     andThen
       (case countResult of
          [] \<Rightarrow> Inr None
        | record # _ \<Rightarrow> andThen (Record_get record ''totalCount'') low)
       (\<lambda>lowWord.
     let totalCount = or_zero lowWord in
     andThen (Array_map getReferencesWithArticle_record referencesResult) (\<lambda>references.
     Inr \<lparr>total = totalCount, references = references\<rparr>)))"

definition getReferencesWithArticleCount_query :: query where
  "getReferencesWithArticleCount_query =
        [MATCH (NodeP ''r'' (Some ''Reference'') None) ''MENTIONS''
           (NodeP ''a'' (Some ''Article'') (Some ''number''))] @
        [RETURN_count ''r'' ''count'']"

definition getReferencesWithArticleCount :: "services \<Rightarrow> string \<Rightarrow> error + int option" where
  "getReferencesWithArticleCount sv articleId' =
     andThen
       (runQuery sv getReferencesWithArticleCount_query
          \<lparr>param_articleId = articleId', param_searchTerm = None,
           param_skip = None, param_limit = None\<rparr>)
       (\<lambda>result.
     case result of
       [] \<Rightarrow> Inl (TypeError ''get'')
     | record # _ \<Rightarrow> andThen (Record_get record ''count'') low)"


section \<open>A property graph and the meaning of the queries on it\<close>

text \<open>
  To relate the count query and the page query to each other, the clauses above are
  given their Cypher meaning on a property graph. A node has an element id, labels and
  properties; a property is a string or an integer, and a property that a node does
  not have reads as \<open>null\<close>. Relationships are directed and typed; two nodes may be
  joined by several relationships of one type.

  The queries call Cypher's \<open>toLower\<close>, a function of the store that folds the letters
  of every script. The folding is a component of the store here, \<open>toLower g\<close>, and nothing
  is assumed about it: what is proved holds for whatever folding the store applies.
\<close>

datatype property = PString string | PInteger int

record gnode =
  node_id :: string
  node_labels :: "string list"
  node_props :: "(string \<times> property) list"

record relationship =
  rel_type :: string
  start_node :: string
  end_node :: string

record graph =
  nodes :: "gnode list"
  relationships :: "relationship list"
  toLower :: "string \<Rightarrow> string"

datatype cval =
    CNull
  | CString string
  | CInteger int
  | CNode gnode

text \<open>A row binds variables (or, after \<open>RETURN\<close>, column names) to values.\<close>

type_synonym row = "(string \<times> cval) list"

definition value_of :: "row \<Rightarrow> string \<Rightarrow> cval" where
  "value_of r v = (case map_of r v of None \<Rightarrow> CNull | Some c \<Rightarrow> c)"

fun property_value :: "property \<Rightarrow> cval" where
  "property_value (PString s) = CString s"
| "property_value (PInteger i) = CInteger i"

text \<open>
  The expressions are only applied to variables bound to a node or to \<open>null\<close>; a property
  or the element id of \<open>null\<close> is \<open>null\<close>.
\<close>

fun eval_expr :: "row \<Rightarrow> expr \<Rightarrow> cval" where
  "eval_expr r (Var v) = value_of r v"
| "eval_expr r (Prop v k) =
     (case value_of r v of
        CNode n \<Rightarrow> (case map_of (node_props n) k of None \<Rightarrow> CNull | Some p \<Rightarrow> property_value p)
      | _ \<Rightarrow> CNull)"
| "eval_expr r (ElementId v) =
     (case value_of r v of CNode n \<Rightarrow> CString (node_id n) | _ \<Rightarrow> CNull)"

subsection \<open>Pattern matching\<close>

fun pattern_var :: "node_pattern \<Rightarrow> string" where
  "pattern_var (NodeP v l k) = v"

text \<open>
  A node fits a node pattern when the pattern's variable is unbound or bound to this
  node, the node carries the label, and the property named in \<open>{key: $articleId}\<close>
  equals the parameter (a string; an absent or integer property is not equal to it).
\<close>

fun node_matches :: "params \<Rightarrow> row \<Rightarrow> node_pattern \<Rightarrow> gnode \<Rightarrow> bool" where
  "node_matches ps r (NodeP v l k) n =
     ((case map_of r v of None \<Rightarrow> True | Some c \<Rightarrow> c = CNode n) \<and>
      (case l of None \<Rightarrow> True | Some lab \<Rightarrow> lab \<in> set (node_labels n)) \<and>
      (case k of None \<Rightarrow> True
       | Some key \<Rightarrow> map_of (node_props n) key = Some (PString (param_articleId ps))))"

definition bind_var :: "string \<Rightarrow> cval \<Rightarrow> row \<Rightarrow> row" where
  "bind_var v c r = (if map_of r v = None then r @ [(v, c)] else r)"

definition node_by_id :: "graph \<Rightarrow> string \<Rightarrow> gnode option" where
  "node_by_id g i = find (\<lambda>n. node_id n = i) (nodes g)"

text \<open>
  The rows that \<open>(x)-[:T]->(y)\<close> adds to one row: one per relationship of type \<open>T\<close>
  whose ends fit the two node patterns, in the store's order of relationships.
\<close>

definition expand ::
  "graph \<Rightarrow> params \<Rightarrow> node_pattern \<Rightarrow> string \<Rightarrow> node_pattern \<Rightarrow> row \<Rightarrow> row list" where
  "expand g ps p1 t p2 r =
     concat (map (\<lambda>e.
       if rel_type e = t then
         (case node_by_id g (start_node e) of
            None \<Rightarrow> []
          | Some s \<Rightarrow>
              (case node_by_id g (end_node e) of
                 None \<Rightarrow> []
               | Some d \<Rightarrow>
                   if node_matches ps r p1 s \<and> node_matches ps r p2 d
                   then [bind_var (pattern_var p2) (CNode d)
                           (bind_var (pattern_var p1) (CNode s) r)]
                   else []))
       else []) (relationships g))"

text \<open>\<open>OPTIONAL MATCH\<close>: a row without a match is kept, its new variables \<open>null\<close>.\<close>

definition expand_optional ::
  "graph \<Rightarrow> params \<Rightarrow> node_pattern \<Rightarrow> string \<Rightarrow> node_pattern \<Rightarrow> row \<Rightarrow> row list" where
  "expand_optional g ps p1 t p2 r =
     (case expand g ps p1 t p2 r of
        [] \<Rightarrow> [bind_var (pattern_var p2) CNull (bind_var (pattern_var p1) CNull r)]
      | m # ms \<Rightarrow> m # ms)"

subsection \<open>The search predicate\<close>

fun starts_with :: "string \<Rightarrow> string \<Rightarrow> bool" where
  "starts_with s [] = True"
| "starts_with [] (c # t) = False"
| "starts_with (x # s) (c # t) = (x = c \<and> starts_with s t)"

text \<open>\<open>s CONTAINS t\<close>: \<open>t\<close> occurs in \<open>s\<close> as a substring.\<close>

fun CONTAINS :: "string \<Rightarrow> string \<Rightarrow> bool" where
  "CONTAINS [] t = (t = [])"
| "CONTAINS (x # s) t = (starts_with (x # s) t \<or> CONTAINS s t)"

text \<open>
  One operand of the search condition, \<open>toLower(x) CONTAINS toLower($searchTerm)\<close>, in
  Cypher's three-valued logic (\<open>None\<close> is \<open>null\<close>): \<open>toLower(null)\<close> is \<open>null\<close>, and
  \<open>CONTAINS\<close> with a \<open>null\<close> operand is \<open>null\<close>. \<open>toLower\<close> of a value that is not a string
  is a type error of the query.
\<close>

fun contains_term :: "graph \<Rightarrow> params \<Rightarrow> cval \<Rightarrow> error + bool option" where
  "contains_term g ps CNull = Inr None"
| "contains_term g ps (CString s) =
     (case param_searchTerm ps of
        None \<Rightarrow> Inr None
      | Some t \<Rightarrow> Inr (Some (CONTAINS (toLower g s) (toLower g t))))"
| "contains_term g ps (CInteger i) = Inl (Rejected ''Expected a string value for toLower'')"
| "contains_term g ps (CNode n) = Inl (Rejected ''Expected a string value for toLower'')"

fun or3 :: "bool option \<Rightarrow> bool option \<Rightarrow> bool option" where
  "or3 (Some True) b = Some True"
| "or3 a (Some True) = Some True"
| "or3 (Some False) (Some False) = Some False"
| "or3 a b = None"

text \<open>
  The disjunction of the operands. Here a type error in an operand fails the query
  whether or not another operand is true: Cypher does not promise to skip an operand once
  another one is true. A store may also answer \<open>true\<close> in that case; nothing below depends
  on the difference, since every result is about rows on which no operand fails, or on
  which no operand is true.
\<close>

fun any_contains :: "graph \<Rightarrow> params \<Rightarrow> row \<Rightarrow> expr list \<Rightarrow> error + bool option" where
  "any_contains g ps r [] = Inr (Some False)"
| "any_contains g ps r (d # ds) =
     (case contains_term g ps (eval_expr r d) of
        Inl e \<Rightarrow> Inl e
      | Inr b \<Rightarrow> (case any_contains g ps r ds of Inl e \<Rightarrow> Inl e | Inr b' \<Rightarrow> Inr (or3 b b')))"

text \<open>\<open>WHERE\<close> keeps the rows whose predicate is \<open>true\<close>; \<open>false\<close> and \<open>null\<close> drop the row.\<close>

fun where_rows :: "graph \<Rightarrow> params \<Rightarrow> expr list \<Rightarrow> row list \<Rightarrow> error + row list" where
  "where_rows g ps ds [] = Inr []"
| "where_rows g ps ds (r # rs) =
     (case any_contains g ps r ds of
        Inl e \<Rightarrow> Inl e
      | Inr b \<Rightarrow>
          (case where_rows g ps ds rs of
             Inl e \<Rightarrow> Inl e
           | Inr rs' \<Rightarrow> Inr (if b = Some True then r # rs' else rs')))"

subsection \<open>Ordering\<close>

fun string_less :: "string \<Rightarrow> string \<Rightarrow> bool" where
  "string_less s [] = False"
| "string_less [] (c # t) = True"
| "string_less (x # s) (c # t) =
     ((of_char x :: nat) < of_char c \<or> (x = c \<and> string_less s t))"

fun type_rank :: "cval \<Rightarrow> nat" where
  "type_rank (CNode n) = 0"
| "type_rank (CString s) = 1"
| "type_rank (CInteger i) = 2"
| "type_rank CNull = 3"

text \<open>
  Cypher's ascending order of values: within a type by value, across types by type,
  with \<open>null\<close> last. \<open>ORDER BY e DESC\<close> sorts by the reverse of it, so rows whose key is
  \<open>null\<close> come first; rows with equal keys stay in the store's order.
\<close>

fun cval_less :: "cval \<Rightarrow> cval \<Rightarrow> bool" where
  "cval_less (CInteger i) (CInteger j) = (i < j)"
| "cval_less (CString s) (CString t) = string_less s t"
| "cval_less (CNode m) (CNode n) = string_less (node_id m) (node_id n)"
| "cval_less a b = (type_rank a < type_rank b)"

definition compare_desc :: "expr \<Rightarrow> row \<Rightarrow> row \<Rightarrow> int" where
  "compare_desc e a b =
     (if cval_less (eval_expr b e) (eval_expr a e) then - 1
      else if cval_less (eval_expr a e) (eval_expr b e) then 1
      else 0)"

subsection \<open>Clauses and queries\<close>

fun run_clause :: "graph \<Rightarrow> params \<Rightarrow> clause \<Rightarrow> row list \<Rightarrow> error + row list" where
  "run_clause g ps (MATCH p1 t p2) rows = Inr (concat (map (expand g ps p1 t p2) rows))"
| "run_clause g ps (OPTIONAL_MATCH p1 t p2) rows =
     Inr (concat (map (expand_optional g ps p1 t p2) rows))"
| "run_clause g ps (WITH vs) rows = Inr (map (\<lambda>r. map (\<lambda>v. (v, value_of r v)) vs) rows)"
| "run_clause g ps (WHERE ds) rows = where_rows g ps ds rows"
| "run_clause g ps (RETURN_count v alias) rows =
     Inr [[(alias, CInteger (int (length (filter (\<lambda>r. value_of r v \<noteq> CNull) rows))))]]"
| "run_clause g ps (RETURN_DISTINCT items) rows =
     Inr (remdups (map (\<lambda>r. map (\<lambda>(e, alias). (alias, eval_expr r e)) items) rows))"
| "run_clause g ps (ORDER_BY_DESC e) rows = Inr (foldr (insert_by (compare_desc e)) rows [])"
| "run_clause g ps SKIP_LIMIT rows =
     (case param_skip ps of
        None \<Rightarrow> Inl (Rejected ''Expected parameter(s): skip'')
      | Some s \<Rightarrow>
          (case param_limit ps of
             None \<Rightarrow> Inl (Rejected ''Expected parameter(s): limit'')
           | Some l \<Rightarrow> Inr (take l (drop s rows))))"

fun run_clauses :: "graph \<Rightarrow> params \<Rightarrow> clause list \<Rightarrow> row list \<Rightarrow> error + row list" where
  "run_clauses g ps [] rows = Inr rows"
| "run_clauses g ps (c # cs) rows =
     (case run_clause g ps c rows of
        Inl e \<Rightarrow> Inl e
      | Inr rows' \<Rightarrow> run_clauses g ps cs rows')"

text \<open>A query starts from the single empty row.\<close>

definition run_query :: "graph \<Rightarrow> params \<Rightarrow> query \<Rightarrow> error + row list" where
  "run_query g ps q = run_clauses g ps q [[]]"

subsection \<open>The graph store behind \<open>runQuery\<close>\<close>

text \<open>
  The driver hands an integer \<open>c\<close> of the store to JavaScript as \<open>Integer {low, high}\<close>
  with \<open>c = high * 2^32 + (low as unsigned)\<close>.
\<close>

definition Integer_fromInt :: "int \<Rightarrow> neo4j_value" where
  "Integer_fromInt c = NInteger (word_of_int c) (word_of_int (c div 2 ^ 32))"

fun to_driver :: "cval \<Rightarrow> neo4j_value" where
  "to_driver CNull = NNull"
| "to_driver (CString s) = NString s"
| "to_driver (CInteger i) = Integer_fromInt i"
| "to_driver (CNode n) =
     NNode (node_id n)
       (map (\<lambda>(k, p). (k, case p of PString s \<Rightarrow> NString s | PInteger i \<Rightarrow> Integer_fromInt i))
          (node_props n))"

definition graph_runQuery :: "graph \<Rightarrow> query \<Rightarrow> params \<Rightarrow> error + neo4j_record list" where
  "graph_runQuery g q ps =
     (case run_query g ps q of
        Inl e \<Rightarrow> Inl e
      | Inr rows \<Rightarrow> Inr (map (map (\<lambda>(k, c). (k, to_driver c))) rows))"

section \<open>The common shape of the operations\<close>

text \<open>
  The four page operations differ in their queries, in the callback applied to the page
  records and, for the three that consult the search index, in the index and the name
  key. What they share is named here, so that every property is proved once and then
  carried over to each operation by unfolding it.
\<close>

text \<open>The parameter objects \<open>{ articleId, searchTerm }\<close> and
  \<open>{ articleId, searchTerm, skip, limit }\<close>.\<close>

definition count_params :: "ArticlesCitationsFilterDto \<Rightarrow> params" where
  "count_params filter' =
     \<lparr>param_articleId = articleId filter', param_searchTerm = searchTerm filter',
      param_skip = None, param_limit = None\<rparr>"

definition page_params :: "ArticlesCitationsFilterDto \<Rightarrow> params" where
  "page_params filter' =
     \<lparr>param_articleId = articleId filter', param_searchTerm = searchTerm filter',
      param_skip = Some (skip filter'), param_limit = Some (limit filter')\<rparr>"

text \<open>The parameter object \<open>{ articleId }\<close> of the count-only operations.\<close>

definition only_articleId :: "string \<Rightarrow> params" where
  "only_articleId a =
     \<lparr>param_articleId = a, param_searchTerm = None, param_skip = None, param_limit = None\<rparr>"

text \<open>\<open>countResult[0]?.get('totalCount').low || 0\<close>.\<close>

definition totalCount_of :: "neo4j_record list \<Rightarrow> error + int" where
  "totalCount_of countResult =
     andThen
       (case countResult of
          [] \<Rightarrow> Inr None
        | record # _ \<Rightarrow> andThen (Record_get record ''totalCount'') low)
       (\<lambda>lowWord. Inr (or_zero lowWord))"

text \<open>\<open>result[0].get('count').low\<close>.\<close>

definition count_of :: "neo4j_record list \<Rightarrow> error + int option" where
  "count_of result =
     (case result of
        [] \<Rightarrow> Inl (TypeError ''get'')
      | record # _ \<Rightarrow> andThen (Record_get record ''count'') low)"

text \<open>One search-index lookup, for one object built from a page record.\<close>

definition lookup :: "services \<Rightarrow> string \<Rightarrow> (string \<times> neo4j_value) list \<Rightarrow> error + doc list" where
  "lookup sv idx data =
     andThen (search sv \<lparr>index = idx, match_number = map_of data ''number''\<rparr>)
       (\<lambda>result. Inr (map source result))"

text \<open>The two concurrent queries, the total and the objects of the page records.\<close>

definition graph_stage ::
  "services \<Rightarrow> query \<Rightarrow> query \<Rightarrow> ArticlesCitationsFilterDto \<Rightarrow>
   (neo4j_record \<Rightarrow> error + (string \<times> neo4j_value) list) \<Rightarrow>
   error + int \<times> (string \<times> neo4j_value) list list" where
  "graph_stage sv countQuery pageQuery filter' callback =
     andThen
       (Promise_all (settles_first sv)
          [runQuery sv countQuery (count_params filter'),
           runQuery sv pageQuery (page_params filter')])
       (\<lambda>results.
     andThen (totalCount_of (results ! 0)) (\<lambda>totalCount.
     andThen (Array_map callback (results ! 1)) (\<lambda>items.
     Inr (totalCount, items))))"

text \<open>The lookups for all objects, and the merge step.\<close>

definition enrich :: "services \<Rightarrow> string \<Rightarrow> string \<Rightarrow> (string \<times> neo4j_value) list list \<Rightarrow> error + doc list" where
  "enrich sv idx key items =
     andThen (Promise_all (settles_first sv) (map (lookup sv idx) items))
       (\<lambda>elasticSearchResults. Inr (flattenedResults key elasticSearchResults))"

text \<open>
  A store for examples: it answers every count query (the queries sent without \<open>skip\<close>)
  with \<open>counts\<close> and every page query with \<open>page\<close>; the search index answers every lookup
  with \<open>found\<close>.
\<close>

definition answering :: "neo4j_record list \<Rightarrow> neo4j_record list \<Rightarrow> hit list \<Rightarrow> services" where
  "answering counts page found =
     \<lparr>runQuery = (\<lambda>q ps. if param_skip ps = None then Inr counts else Inr page),
      search = (\<lambda>request. Inr found),
      settles_first = 0\<rparr>"

section \<open>What the queries are meant to compute\<close>

text \<open>
  The specification describes the two plans of a relation query in words: both match
  the relation pattern, optionally resolve the Name and apply the predicate; the count
  plan returns the number of rows, the page plan the distinct projected rows, ordered
  and sliced. The definitions of this section follow those words, so that the queries
  the service builds can be compared with them.
\<close>

text \<open>The clauses that make up a match pattern.\<close>

fun is_pattern_clause :: "clause \<Rightarrow> bool" where
  "is_pattern_clause (MATCH p1 t p2) = True"
| "is_pattern_clause (OPTIONAL_MATCH p1 t p2) = True"
| "is_pattern_clause (WITH vs) = True"
| "is_pattern_clause c = False"


text \<open>
  A field matches a term when it is a string that, case-folded by \<open>lower\<close>, contains the
  case-folded term; \<open>null\<close> does not match. With no term, or an empty one, every row is accepted;
  otherwise a row is accepted when any declared field matches.
\<close>

fun is_text_or_null :: "cval \<Rightarrow> bool" where
  "is_text_or_null CNull = True"
| "is_text_or_null (CString s) = True"
| "is_text_or_null (CInteger i) = False"
| "is_text_or_null (CNode n) = False"

fun field_matches :: "(string \<Rightarrow> string) \<Rightarrow> string \<Rightarrow> cval \<Rightarrow> bool" where
  "field_matches lower t (CString s) = CONTAINS (lower s) (lower t)"
| "field_matches lower t CNull = False"
| "field_matches lower t (CInteger i) = False"
| "field_matches lower t (CNode n) = False"

fun accepts :: "(string \<Rightarrow> string) \<Rightarrow> string option \<Rightarrow> expr list \<Rightarrow> row \<Rightarrow> bool" where
  "accepts lower None flds r = True"
| "accepts lower (Some t) flds r =
     (if t = [] then True else list_ex (\<lambda>d. field_matches lower t (eval_expr r d)) flds)"

text \<open>The rows that a match pattern yields for an article id.\<close>

definition pattern_rows :: "graph \<Rightarrow> string \<Rightarrow> query \<Rightarrow> row list" where
  "pattern_rows g a pat =
     (case run_clauses g (only_articleId a) pat [[]] of Inl e \<Rightarrow> [] | Inr rows \<Rightarrow> rows)"

definition project :: "(expr \<times> string) list \<Rightarrow> row \<Rightarrow> row" where
  "project items r = map (\<lambda>(e, alias). (alias, eval_expr r e)) items"

definition count_plan :: "graph \<Rightarrow> string \<Rightarrow> query \<Rightarrow> string option \<Rightarrow> expr list \<Rightarrow> int" where
  "count_plan g a pat term flds =
     int (length (filter (accepts (toLower g) term flds) (pattern_rows g a pat)))"

definition distinct_rows ::
  "graph \<Rightarrow> string \<Rightarrow> query \<Rightarrow> string option \<Rightarrow> expr list \<Rightarrow> (expr \<times> string) list \<Rightarrow> row list" where
  "distinct_rows g a pat term flds items =
     remdups (map (project items) (filter (accepts (toLower g) term flds) (pattern_rows g a pat)))"


text \<open>The fields of a row are text when each is a string or \<open>null\<close>.\<close>

definition text_fields :: "row list \<Rightarrow> expr list \<Rightarrow> bool" where
  "text_fields rows flds =
     list_all (\<lambda>r. list_all (\<lambda>d. is_text_or_null (eval_expr r d)) flds) rows"


text \<open>
  The match pattern, the searchable fields and the returned columns of each of the four
  relation queries.
\<close>
definition getCitedByArticles_pattern :: query where
  "getCitedByArticles_pattern =
     [MATCH (NodeP ''a'' (Some ''Article'') None) ''CITES''
        (NodeP ''b'' (Some ''Article'') (Some ''number'')),
      OPTIONAL_MATCH (NodeP ''a'' None None) ''IS_NAMED'' (NodeP ''n'' (Some ''Name'') None),
      WITH [''a'', ''n'']]"

definition getCitedByArticles_fields :: "expr list" where
  "getCitedByArticles_fields =
     [Prop ''n'' ''short'',
      Prop ''a'' ''number'',
      Prop ''a'' ''text'']"

definition getCitedByArticles_columns :: "(expr \<times> string) list" where
  "getCitedByArticles_columns =
     [(Var ''a'', ''a''), (Prop ''n'' ''short'', ''name''),
      (ElementId ''a'', ''elementId'')]"

definition getArticleCitingOtherArticles_pattern :: query where
  "getArticleCitingOtherArticles_pattern =
     [MATCH (NodeP ''a'' (Some ''Article'') (Some ''number'')) ''CITES''
        (NodeP ''b'' (Some ''Article'') None),
      OPTIONAL_MATCH (NodeP ''b'' None None) ''IS_NAMED'' (NodeP ''n'' (Some ''Name'') None),
      WITH [''b'', ''n'']]"

definition getArticleCitingOtherArticles_fields :: "expr list" where
  "getArticleCitingOtherArticles_fields =
     [Prop ''n'' ''short'',
      Prop ''b'' ''number'',
      Prop ''b'' ''text'']"

definition getArticleCitingOtherArticles_columns :: "(expr \<times> string) list" where
  "getArticleCitingOtherArticles_columns =
     [(Var ''b'', ''b''), (Prop ''n'' ''short'', ''name''),
      (ElementId ''b'', ''elementId'')]"

definition getCasesCitingArticle_pattern :: query where
  "getCasesCitingArticle_pattern =
     [MATCH (NodeP ''c'' (Some ''Case'') None) ''REFERS_TO''
        (NodeP ''a'' (Some ''Article'') (Some ''number'')),
      OPTIONAL_MATCH (NodeP ''c'' None None) ''IS_NAMED'' (NodeP ''n'' (Some ''Name'') None),
      WITH [''c'', ''n'']]"

definition getCasesCitingArticle_fields :: "expr list" where
  "getCasesCitingArticle_fields =
     [Prop ''n'' ''short'',
      Prop ''c'' ''number'',
      Prop ''c'' ''judgment'',
      Prop ''c'' ''facts'',
      Prop ''c'' ''reasoning'',
      Prop ''c'' ''headnotes'',
      Prop ''c'' ''year'',
      Prop ''c'' ''decision_type'']"

definition getCasesCitingArticle_columns :: "(expr \<times> string) list" where
  "getCasesCitingArticle_columns =
     [(Var ''c'', ''c''), (Prop ''n'' ''short'', ''caseName''),
      (ElementId ''c'', ''elementId'')]"

definition getReferencesWithArticle_pattern :: query where
  "getReferencesWithArticle_pattern =
     [MATCH (NodeP ''r'' (Some ''Reference'') None) ''MENTIONS''
        (NodeP ''a'' (Some ''Article'') (Some ''number''))]"

definition getReferencesWithArticle_fields :: "expr list" where
  "getReferencesWithArticle_fields =
     [Prop ''r'' ''context'',
      Prop ''r'' ''text'']"

definition getReferencesWithArticle_columns :: "(expr \<times> string) list" where
  "getReferencesWithArticle_columns =
     [(Var ''r'', ''r'')]"


subsection \<open>Example graphs\<close>

text \<open>
  The text of the example graphs is ASCII, where every case folding maps \<open>A\<close> to \<open>Z\<close> to
  \<open>a\<close> to \<open>z\<close> and leaves the other characters; the example stores fold so.
\<close>

definition ascii_toLower :: "string \<Rightarrow> string" where
  "ascii_toLower s =
     map (\<lambda>c. case map_of (zip ''ABCDEFGHIJKLMNOPQRSTUVWXYZ'' ''abcdefghijklmnopqrstuvwxyz'') c of
                None \<Rightarrow> c
              | Some l \<Rightarrow> l) s"

text \<open>
  Article 5 is cited by articles 1 and 2; article 1 is named Alpha, article 2 has no
  Name.
\<close>

definition scenario_graph :: graph where
  "scenario_graph =
     \<lparr>nodes =
        [\<lparr>node_id = ''n1'', node_labels = [''Article''],
          node_props = [(''number'', PString ''1''), (''text'', PString ''Freedom of expression''),
                        (''citing_cases'', PInteger 3)]\<rparr>,
         \<lparr>node_id = ''n2'', node_labels = [''Article''],
          node_props = [(''number'', PString ''2''), (''text'', PString ''Right to a fair trial'')]\<rparr>,
         \<lparr>node_id = ''n5'', node_labels = [''Article''],
          node_props = [(''number'', PString ''5'')]\<rparr>,
         \<lparr>node_id = ''m1'', node_labels = [''Name''],
          node_props = [(''short'', PString ''Alpha'')]\<rparr>],
      relationships =
        [\<lparr>rel_type = ''CITES'', start_node = ''n1'', end_node = ''n5''\<rparr>,
         \<lparr>rel_type = ''CITES'', start_node = ''n2'', end_node = ''n5''\<rparr>,
         \<lparr>rel_type = ''IS_NAMED'', start_node = ''n1'', end_node = ''m1''\<rparr>],
      toLower = ascii_toLower\<rparr>"

text \<open>
  Article 1 cites article 5 through two \<open>CITES\<close> relationships, and case C-1/20 refers to
  it through two \<open>REFERS_TO\<close> relationships.
\<close>

definition twice_cited_graph :: graph where
  "twice_cited_graph =
     \<lparr>nodes =
        [\<lparr>node_id = ''n1'', node_labels = [''Article''],
          node_props = [(''number'', PString ''1'')]\<rparr>,
         \<lparr>node_id = ''n5'', node_labels = [''Article''],
          node_props = [(''number'', PString ''5'')]\<rparr>,
         \<lparr>node_id = ''c1'', node_labels = [''Case''],
          node_props = [(''number'', PString ''C-1/20'')]\<rparr>],
      relationships =
        [\<lparr>rel_type = ''CITES'', start_node = ''n1'', end_node = ''n5''\<rparr>,
         \<lparr>rel_type = ''CITES'', start_node = ''n1'', end_node = ''n5''\<rparr>,
         \<lparr>rel_type = ''REFERS_TO'', start_node = ''c1'', end_node = ''n5''\<rparr>,
         \<lparr>rel_type = ''REFERS_TO'', start_node = ''c1'', end_node = ''n5''\<rparr>],
      toLower = ascii_toLower\<rparr>"

text \<open>
  Reference 7 mentions article 5 through two \<open>MENTIONS\<close> relationships.
\<close>

definition twice_mentioned_graph :: graph where
  "twice_mentioned_graph =
     \<lparr>nodes =
        [\<lparr>node_id = ''n5'', node_labels = [''Article''],
          node_props = [(''number'', PString ''5'')]\<rparr>,
         \<lparr>node_id = ''r7'', node_labels = [''Reference''],
          node_props = [(''text'', PString ''see Article 5'')]\<rparr>],
      relationships =
        [\<lparr>rel_type = ''MENTIONS'', start_node = ''r7'', end_node = ''n5''\<rparr>,
         \<lparr>rel_type = ''MENTIONS'', start_node = ''r7'', end_node = ''n5''\<rparr>],
      toLower = ascii_toLower\<rparr>"

text \<open>
  Cases C-1/20 and C-2/20 refer to article 5. The \<open>judgment\<close> of the first speaks of a fair
  trial; the second stores its \<open>year\<close> as an integer.
\<close>

definition integer_year_graph :: graph where
  "integer_year_graph =
     \<lparr>nodes =
        [\<lparr>node_id = ''n5'', node_labels = [''Article''],
          node_props = [(''number'', PString ''5'')]\<rparr>,
         \<lparr>node_id = ''c1'', node_labels = [''Case''],
          node_props = [(''number'', PString ''C-1/20''),
                        (''judgment'', PString ''Right to a fair trial'')]\<rparr>,
         \<lparr>node_id = ''c2'', node_labels = [''Case''],
          node_props = [(''number'', PString ''C-2/20''),
                        (''judgment'', PString ''Appeal dismissed''),
                        (''year'', PInteger 2020)]\<rparr>],
      relationships =
        [\<lparr>rel_type = ''REFERS_TO'', start_node = ''c1'', end_node = ''n5''\<rparr>,
         \<lparr>rel_type = ''REFERS_TO'', start_node = ''c2'', end_node = ''n5''\<rparr>],
      toLower = ascii_toLower\<rparr>"


section \<open>Failure and success of the building blocks\<close>

lemma andThen_Inl [simp]: "andThen (Inl e) f = Inl e"
  by (simp add: andThen_def)

lemma andThen_Inr [simp]: "andThen (Inr x) f = f x"
  by (simp add: andThen_def)

lemma andThen_eq_Inr: "andThen m f = Inr y \<longleftrightarrow> (\<exists>x. m = Inr x \<and> f x = Inr y)"
  by (cases m) simp_all

lemma andThen_eq_Inl: "andThen m f = Inl e \<longleftrightarrow> m = Inl e \<or> (\<exists>x. m = Inr x \<and> f x = Inl e)"
  by (cases m) simp_all

lemma rejections_set: "set (rejections ps) = {e. Inl e \<in> set ps}"
  by (induction ps rule: rejections.induct) auto

lemma rejections_map_Inr: "rejections (map Inr vs) = []"
  by (induction vs) simp_all

lemma fulfilments_map_Inr: "fulfilments (map Inr vs) = vs"
  by (induction vs) simp_all

lemma no_rejections: "rejections ps = [] \<Longrightarrow> ps = map Inr (fulfilments ps)"
  by (induction ps rule: rejections.induct) simp_all

lemma Promise_all_Inr: "Promise_all k ps = Inr vs \<longleftrightarrow> ps = map Inr vs"
proof
  assume a: "Promise_all k ps = Inr vs"
  then have "rejections ps = []" and "vs = fulfilments ps"
    by (auto simp: Promise_all_def split: list.splits)
  then show "ps = map Inr vs" using no_rejections by blast
next
  assume "ps = map Inr vs"
  then show "Promise_all k ps = Inr vs"
    by (simp add: Promise_all_def rejections_map_Inr fulfilments_map_Inr)
qed

lemma Promise_all_Inl: "Promise_all k ps = Inl e \<Longrightarrow> Inl e \<in> set ps"
proof -
  assume a: "Promise_all k ps = Inl e"
  then obtain x xs where l: "rejections ps = x # xs" and e: "e = (x # xs) ! (k mod length (x # xs))"
    by (auto simp: Promise_all_def split: list.splits)
  have "k mod length (x # xs) < length (x # xs)" by simp
  then have "e \<in> set (x # xs)" unfolding e by (rule nth_mem)
  then have "e \<in> set (rejections ps)" using l by simp
  then show ?thesis by (simp add: rejections_set)
qed

lemma Promise_all_rejects: "Inl e \<in> set ps \<Longrightarrow> \<exists>e'. Promise_all k ps = Inl e'"
proof -
  assume "Inl e \<in> set ps"
  then have "e \<in> set (rejections ps)" by (simp add: rejections_set)
  then obtain x xs where "rejections ps = x # xs" by (cases "rejections ps") auto
  then show ?thesis by (simp add: Promise_all_def)
qed

lemma Promise_all_cases:
  "(\<exists>vs. Promise_all k ps = Inr vs \<and> ps = map Inr vs) \<or> (\<exists>e. Promise_all k ps = Inl e \<and> Inl e \<in> set ps)"
proof (cases "Promise_all k ps")
  case (Inl e)
  then have "Inl e \<in> set ps" by (rule Promise_all_Inl)
  with Inl show ?thesis by simp
next
  case (Inr vs)
  then have "ps = map Inr vs" by (simp only: Promise_all_Inr)
  with Inr show ?thesis by simp
qed

subsection \<open>The two concurrent queries\<close>

lemma graph_stage_Inr:
  "graph_stage sv cq pq f cb = Inr (t, items) \<longleftrightarrow>
     (\<exists>cr pr. runQuery sv cq (count_params f) = Inr cr \<and> runQuery sv pq (page_params f) = Inr pr \<and>
        totalCount_of cr = Inr t \<and> Array_map cb pr = Inr items)"
proof
  assume a: "graph_stage sv cq pq f cb = Inr (t, items)"
  then obtain rs where p: "Promise_all (settles_first sv) [runQuery sv cq (count_params f), runQuery sv pq (page_params f)] = Inr rs"
    and r: "andThen (totalCount_of (rs ! 0)) (\<lambda>totalCount. andThen (Array_map cb (rs ! 1)) (\<lambda>items. Inr (totalCount, items))) = Inr (t, items)"
    unfolding graph_stage_def andThen_eq_Inr by blast
  from p have e: "[runQuery sv cq (count_params f), runQuery sv pq (page_params f)] = map Inr rs"
    by (simp only: Promise_all_Inr)
  then obtain cr pr where rs: "rs = [cr, pr]" by (cases rs; cases "tl rs"; auto)
  with e have c: "runQuery sv cq (count_params f) = Inr cr" "runQuery sv pq (page_params f) = Inr pr" by simp_all
  from r rs have "totalCount_of cr = Inr t \<and> Array_map cb pr = Inr items"
    by (auto simp: andThen_eq_Inr)
  with c show "\<exists>cr pr. runQuery sv cq (count_params f) = Inr cr \<and> runQuery sv pq (page_params f) = Inr pr \<and>
        totalCount_of cr = Inr t \<and> Array_map cb pr = Inr items" by blast
next
  assume "\<exists>cr pr. runQuery sv cq (count_params f) = Inr cr \<and> runQuery sv pq (page_params f) = Inr pr \<and>
        totalCount_of cr = Inr t \<and> Array_map cb pr = Inr items"
  then obtain cr pr where c: "runQuery sv cq (count_params f) = Inr cr" "runQuery sv pq (page_params f) = Inr pr"
       "totalCount_of cr = Inr t" "Array_map cb pr = Inr items" by blast
  have "Promise_all (settles_first sv) [Inr cr, Inr pr] = (Inr [cr, pr] :: error + neo4j_record list list)"
    by (simp add: Promise_all_def)
  then show "graph_stage sv cq pq f cb = Inr (t, items)"
    using c by (simp add: graph_stage_def)
qed

lemma graph_stage_rejected:
  assumes "runQuery sv cq (count_params f) = Inl e \<or> runQuery sv pq (page_params f) = Inl e"
  shows "\<exists>e'. graph_stage sv cq pq f cb = Inl e' \<and>
     (runQuery sv cq (count_params f) = Inl e' \<or> runQuery sv pq (page_params f) = Inl e')"
proof -
  let ?ps = "[runQuery sv cq (count_params f), runQuery sv pq (page_params f)]"
  from assms have "Inl e \<in> set ?ps" by auto
  then have "\<exists>e'. Promise_all (settles_first sv) ?ps = Inl e'"
    by (rule Promise_all_rejects)
  then obtain e' where p: "Promise_all (settles_first sv) ?ps = Inl e'" ..
  then have "Inl e' \<in> set ?ps" by (rule Promise_all_Inl)
  then have "runQuery sv cq (count_params f) = Inl e' \<or> runQuery sv pq (page_params f) = Inl e'" by auto
  moreover have "graph_stage sv cq pq f cb = Inl e'"
    using p by (simp add: graph_stage_def)
  ultimately show ?thesis by blast
qed

subsection \<open>The lookups\<close>

lemma lookup_Inl: "lookup sv idx a = Inl e \<longleftrightarrow> search sv \<lparr>index = idx, match_number = map_of a ''number''\<rparr> = Inl e"
  by (simp add: lookup_def andThen_eq_Inl)

lemma enrich_Inr:
  "enrich sv idx key items = Inr xs \<longleftrightarrow>
     (\<exists>ess. map (lookup sv idx) items = map Inr ess \<and> xs = flattenedResults key ess)"
  by (auto simp: enrich_def andThen_eq_Inr Promise_all_Inr)

lemma enrich_rejected:
  assumes "a \<in> set items" "lookup sv idx a = Inl e"
  shows "\<exists>e' a'. enrich sv idx key items = Inl e' \<and> a' \<in> set items \<and> lookup sv idx a' = Inl e'"
proof -
  from assms have "Inl e \<in> set (map (lookup sv idx) items)" by force
  then have "\<exists>e'. Promise_all (settles_first sv) (map (lookup sv idx) items) = Inl e'"
    by (rule Promise_all_rejects)
  then obtain e' where p: "Promise_all (settles_first sv) (map (lookup sv idx) items) = Inl e'" ..
  then have "Inl e' \<in> set (map (lookup sv idx) items)" by (rule Promise_all_Inl)
  then obtain a' where "a' \<in> set items" "lookup sv idx a' = Inl e'" by auto
  moreover have "enrich sv idx key items = Inl e'" using p by (simp add: enrich_def)
  ultimately show ?thesis by blast
qed

lemma andThen_assoc: "andThen (andThen m f) g = andThen m (\<lambda>x. andThen (f x) g)"
  by (cases m) simp_all

subsection \<open>Every operation has the common shape\<close>

lemma getCitedByArticles_shape:
  "getCitedByArticles sv f =
     andThen (graph_stage sv (getCitedByArticles_getCountQuery f) (getCitedByArticles_getArticlesQuery f) f
                getCitedByArticles_record)
       (\<lambda>(t, items). andThen (enrich sv ''articles'' ''name'' items)
          (\<lambda>xs. Inr \<lparr>total = t, articles = xs\<rparr>))"
  unfolding getCitedByArticles_def graph_stage_def enrich_def count_params_def page_params_def
    totalCount_of_def lookup_def Let_def
  by (simp add: andThen_assoc)

lemma getArticleCitingOtherArticles_shape:
  "getArticleCitingOtherArticles sv f =
     andThen (graph_stage sv (getArticleCitingOtherArticles_getCountQuery f)
                (getArticleCitingOtherArticles_getArticlesQuery f) f
                getArticleCitingOtherArticles_record)
       (\<lambda>(t, items). andThen (enrich sv ''articles'' ''name'' items)
          (\<lambda>xs. Inr \<lparr>total = t, articles = xs\<rparr>))"
  unfolding getArticleCitingOtherArticles_def graph_stage_def enrich_def count_params_def page_params_def
    totalCount_of_def lookup_def Let_def
  by (simp add: andThen_assoc)

lemma getCasesCitingArticle_shape:
  "getCasesCitingArticle sv f =
     andThen (graph_stage sv (getCasesCitingArticle_getCountQuery f)
                (getCasesCitingArticle_getCasesQuery f) f
                getCasesCitingArticle_record)
       (\<lambda>(t, items). andThen (enrich sv ''cases'' ''caseName'' items)
          (\<lambda>xs. Inr \<lparr>total = t, cases = xs\<rparr>))"
  unfolding getCasesCitingArticle_def graph_stage_def enrich_def count_params_def page_params_def
    totalCount_of_def lookup_def Let_def
  by (simp add: andThen_assoc)

lemma getReferencesWithArticle_shape:
  "getReferencesWithArticle sv f =
     andThen (graph_stage sv (getReferencesWithArticle_getCountQuery f)
                (getReferencesWithArticle_getReferencesQuery f) f
                getReferencesWithArticle_record)
       (\<lambda>(t, items). Inr \<lparr>total = t, references = items\<rparr>)"
  unfolding getReferencesWithArticle_def graph_stage_def count_params_def page_params_def
    totalCount_of_def Let_def
  by (simp add: andThen_assoc)

lemma count_only_shapes:
  "getCitedByArticlesCount sv a =
     andThen (runQuery sv getCitedByArticlesCount_query (only_articleId a)) count_of"
  "getArticleCitingOtherArticlesCount sv a =
     andThen (runQuery sv getArticleCitingOtherArticlesCount_query (only_articleId a)) count_of"
  "getCasesCitingArticleCount sv a =
     andThen (runQuery sv getCasesCitingArticleCount_query (only_articleId a)) count_of"
  "getReferencesWithArticleCount sv a =
     andThen (runQuery sv getReferencesWithArticleCount_query (only_articleId a)) count_of"
  unfolding getCitedByArticlesCount_def getArticleCitingOtherArticlesCount_def
    getCasesCitingArticleCount_def getReferencesWithArticleCount_def only_articleId_def count_of_def
  by simp_all

section \<open>Properties of the merge step\<close>






section \<open>The total\<close>

lemma totalCount_of_Nil: "totalCount_of [] = Inr 0"
  by (simp add: totalCount_of_def)

lemma totalCount_of_Integer:
  "Record_get record ''totalCount'' = Inr (NInteger l h) \<Longrightarrow>
   totalCount_of (record # others) = Inr (sint l)"
  by (simp add: totalCount_of_def)

lemma count_of_Nil: "count_of [] = Inl (TypeError ''get'')"
  by (simp add: count_of_def)

lemma count_of_Integer:
  "Record_get record ''count'' = Inr (NInteger l h) \<Longrightarrow>
   count_of (record # others) = Inr (Some (sint l))"
  by (simp add: count_of_def)

lemma sint_low_word: "sint (word_of_int c :: 32 word) = (c + 2 ^ 31) mod 2 ^ 32 - 2 ^ 31"
  using int_word_sint [of c, where 'a = 32] by simp

lemma low_Integer_fromInt: "low (Integer_fromInt c) = Inr (Some ((c + 2 ^ 31) mod 2 ^ 32 - 2 ^ 31))"
  by (simp add: Integer_fromInt_def sint_low_word)

text \<open>The total of a page operation is read off the answer to its count query.\<close>

lemma graph_stage_total:
  "graph_stage sv cq pq f cb = Inr (t, items) \<Longrightarrow>
   runQuery sv cq (count_params f) = Inr cr \<Longrightarrow> totalCount_of cr = Inr t"
  by (auto simp: graph_stage_Inr)

lemma getCitedByArticles_Inr:
  "getCitedByArticles sv f = Inr r \<longleftrightarrow>
   (\<exists>items xs. graph_stage sv (getCitedByArticles_getCountQuery f) (getCitedByArticles_getArticlesQuery f) f
        getCitedByArticles_record = Inr (total r, items) \<and>
      enrich sv ''articles'' ''name'' items = Inr xs \<and> r = \<lparr>total = total r, articles = xs\<rparr>)"
  by (auto simp: getCitedByArticles_shape andThen_eq_Inr)

lemma getArticleCitingOtherArticles_Inr:
  "getArticleCitingOtherArticles sv f = Inr r \<longleftrightarrow>
   (\<exists>items xs. graph_stage sv (getArticleCitingOtherArticles_getCountQuery f)
        (getArticleCitingOtherArticles_getArticlesQuery f) f
        getArticleCitingOtherArticles_record = Inr (total r, items) \<and>
      enrich sv ''articles'' ''name'' items = Inr xs \<and> r = \<lparr>total = total r, articles = xs\<rparr>)"
  by (auto simp: getArticleCitingOtherArticles_shape andThen_eq_Inr)

lemma getCasesCitingArticle_Inr:
  "getCasesCitingArticle sv f = Inr r \<longleftrightarrow>
   (\<exists>items xs. graph_stage sv (getCasesCitingArticle_getCountQuery f)
        (getCasesCitingArticle_getCasesQuery f) f
        getCasesCitingArticle_record = Inr (total r, items) \<and>
      enrich sv ''cases'' ''caseName'' items = Inr xs \<and> r = \<lparr>total = total r, cases = xs\<rparr>)"
  by (auto simp: getCasesCitingArticle_shape andThen_eq_Inr)

lemma getReferencesWithArticle_Inr:
  "getReferencesWithArticle sv f = Inr r \<longleftrightarrow>
   (\<exists>items. graph_stage sv (getReferencesWithArticle_getCountQuery f)
        (getReferencesWithArticle_getReferencesQuery f) f
        getReferencesWithArticle_record = Inr (total r, items) \<and>
      r = \<lparr>total = total r, references = items\<rparr>)"
  by (auto simp: getReferencesWithArticle_shape andThen_eq_Inr)

lemma page_totals:
  "getCitedByArticles sv f = Inr r1 \<Longrightarrow>
     runQuery sv (getCitedByArticles_getCountQuery f) (count_params f) = Inr cr1 \<Longrightarrow>
     totalCount_of cr1 = Inr (total r1)"
  "getArticleCitingOtherArticles sv f = Inr r2 \<Longrightarrow>
     runQuery sv (getArticleCitingOtherArticles_getCountQuery f) (count_params f) = Inr cr2 \<Longrightarrow>
     totalCount_of cr2 = Inr (total r2)"
  "getCasesCitingArticle sv f = Inr r3 \<Longrightarrow>
     runQuery sv (getCasesCitingArticle_getCountQuery f) (count_params f) = Inr cr3 \<Longrightarrow>
     totalCount_of cr3 = Inr (total r3)"
  "getReferencesWithArticle sv f = Inr r4 \<Longrightarrow>
     runQuery sv (getReferencesWithArticle_getCountQuery f) (count_params f) = Inr cr4 \<Longrightarrow>
     totalCount_of cr4 = Inr (total r4)"
  using graph_stage_total
  by (auto simp: getCitedByArticles_Inr getArticleCitingOtherArticles_Inr getCasesCitingArticle_Inr
      getReferencesWithArticle_Inr)

text \<open>
  Claim C2 says that all eight operations return a total of 0 when the store answers the
  count query with no rows. The four page operations do (\<open>countResult[0]?.\<close> and
  \<open>|| 0\<close>); the four count-only operations read \<open>result[0].get('count')\<close> without the
  optional chain, so on an empty answer they throw a \<open>TypeError\<close>, which their \<open>catch\<close>
  rethrows. Evaluated on a store that answers every query with no rows:
\<close>

theorem C2_count_only_operations_throw_on_no_rows:
  "getCitedByArticlesCount (answering [] [] []) ''5'' = Inl (TypeError ''get'') \<and>
   getArticleCitingOtherArticlesCount (answering [] [] []) ''5'' = Inl (TypeError ''get'') \<and>
   getCasesCitingArticleCount (answering [] [] []) ''5'' = Inl (TypeError ''get'') \<and>
   getReferencesWithArticleCount (answering [] [] []) ''5'' = Inl (TypeError ''get'') \<and>
   getCitedByArticles (answering [] [] [])
       \<lparr>articleId = ''5'', searchTerm = None, skip = 0, limit = 10\<rparr> =
     Inr \<lparr>total = 0, articles = []\<rparr>"
  by (simp add: count_only_shapes answering_def only_articleId_def count_of_def
      getCitedByArticles_shape graph_stage_def count_params_def page_params_def Promise_all_def
      totalCount_of_def enrich_def flattenedResults_def Array_sort_def)

lemma page_operations_default_to_zero:
  "runQuery sv (getCitedByArticles_getCountQuery f) (count_params f) = Inr [] \<Longrightarrow>
     getCitedByArticles sv f = Inr r1 \<Longrightarrow> total r1 = 0"
  "runQuery sv (getArticleCitingOtherArticles_getCountQuery f) (count_params f) = Inr [] \<Longrightarrow>
     getArticleCitingOtherArticles sv f = Inr r2 \<Longrightarrow> total r2 = 0"
  "runQuery sv (getCasesCitingArticle_getCountQuery f) (count_params f) = Inr [] \<Longrightarrow>
     getCasesCitingArticle sv f = Inr r3 \<Longrightarrow> total r3 = 0"
  "runQuery sv (getReferencesWithArticle_getCountQuery f) (count_params f) = Inr [] \<Longrightarrow>
     getReferencesWithArticle sv f = Inr r4 \<Longrightarrow> total r4 = 0"
  using page_totals [of sv f _ "[]"] by (simp_all add: totalCount_of_Nil)

lemma count_only_operations_throw_on_no_rows:
  "runQuery sv getCitedByArticlesCount_query (only_articleId a) = Inr [] \<Longrightarrow>
     getCitedByArticlesCount sv a = Inl (TypeError ''get'')"
  "runQuery sv getArticleCitingOtherArticlesCount_query (only_articleId a) = Inr [] \<Longrightarrow>
     getArticleCitingOtherArticlesCount sv a = Inl (TypeError ''get'')"
  "runQuery sv getCasesCitingArticleCount_query (only_articleId a) = Inr [] \<Longrightarrow>
     getCasesCitingArticleCount sv a = Inl (TypeError ''get'')"
  "runQuery sv getReferencesWithArticleCount_query (only_articleId a) = Inr [] \<Longrightarrow>
     getReferencesWithArticleCount sv a = Inl (TypeError ''get'')"
  by (simp_all add: count_only_shapes count_of_Nil)

text \<open>
  Claim C10 as stated, that the total is the store's count \<open>c\<close> reduced modulo \<open>2^32\<close>,
  fails for \<open>c = 2^31\<close>: the low word is read as a signed number, so the total is
  \<open>-2147483648\<close>, while \<open>c mod 2^32\<close> is \<open>2147483648\<close>.
\<close>

theorem C10_counterexample:
  "getCitedByArticles (answering [[(''totalCount'', Integer_fromInt 2147483648)]] [] [])
       \<lparr>articleId = ''5'', searchTerm = None, skip = 0, limit = 10\<rparr> =
     Inr \<lparr>total = - 2147483648, articles = []\<rparr> \<and>
   getCitedByArticlesCount (answering [[(''count'', Integer_fromInt 2147483648)]] [] []) ''5'' =
     Inr (Some (- 2147483648)) \<and>
   (2147483648 :: int) mod 2 ^ 32 = 2147483648"
  by (simp add: count_only_shapes answering_def only_articleId_def count_of_def
      getCitedByArticles_shape graph_stage_def count_params_def page_params_def Promise_all_def
      totalCount_of_def enrich_def flattenedResults_def Array_sort_def Record_get_def Integer_fromInt_def)

lemma signed_low_eq_mod:
  "((c + 2 ^ 31) mod 2 ^ 32 - 2 ^ 31 = c mod 2 ^ 32) = (c mod 2 ^ 32 < (2 ^ 31 :: int))"
proof -
  define m where "m = c mod 4294967296"
  have m: "0 \<le> m" "m < 4294967296" by (simp_all add: m_def)
  have e: "(c + 2147483648) mod 4294967296 = (m + 2147483648) mod 4294967296"
    unfolding m_def by (simp add: mod_add_left_eq)
  show ?thesis
  proof (cases "m < 2147483648")
    case True
    then have "(m + 2147483648) mod 4294967296 = m + 2147483648"
      using m by (simp add: mod_pos_pos_trivial)
    with True e show ?thesis by (simp add: m_def)
  next
    case False
    have "(m + 2147483648) mod 4294967296 = (m + 2147483648 - 4294967296) mod 4294967296"
      by (simp only: minus_mod_self2)
    also have "\<dots> = m - 2147483648"
      using m False by (simp add: mod_pos_pos_trivial)
    finally show ?thesis using False e by (simp add: m_def)
  qed
qed

text \<open>
  Claim C10, amended. Every operation whose count query is answered by an
  \<open>Integer {low, high}\<close> returns \<open>low\<close> read as a signed 32-bit number, whatever \<open>high\<close>
  is. For a store count \<open>c\<close> that is \<open>(c + 2^31) mod 2^32 - 2^31\<close>: congruent to \<open>c\<close> modulo
  \<open>2^32\<close>, and equal to \<open>c mod 2^32\<close> exactly when \<open>c mod 2^32 < 2^31\<close>. A low word of 0
  gives 0.
\<close>

theorem C10_total_is_signed_low_word:
  "(runQuery sv (getCitedByArticles_getCountQuery f) (count_params f) = Inr (rec1 # more1) \<longrightarrow>
      Record_get rec1 ''totalCount'' = Inr (NInteger l h) \<longrightarrow>
      getCitedByArticles sv f = Inr r1 \<longrightarrow> total r1 = sint l) \<and>
   (runQuery sv (getArticleCitingOtherArticles_getCountQuery f) (count_params f) = Inr (rec2 # more2) \<longrightarrow>
      Record_get rec2 ''totalCount'' = Inr (NInteger l h) \<longrightarrow>
      getArticleCitingOtherArticles sv f = Inr r2 \<longrightarrow> total r2 = sint l) \<and>
   (runQuery sv (getCasesCitingArticle_getCountQuery f) (count_params f) = Inr (rec3 # more3) \<longrightarrow>
      Record_get rec3 ''totalCount'' = Inr (NInteger l h) \<longrightarrow>
      getCasesCitingArticle sv f = Inr r3 \<longrightarrow> total r3 = sint l) \<and>
   (runQuery sv (getReferencesWithArticle_getCountQuery f) (count_params f) = Inr (rec4 # more4) \<longrightarrow>
      Record_get rec4 ''totalCount'' = Inr (NInteger l h) \<longrightarrow>
      getReferencesWithArticle sv f = Inr r4 \<longrightarrow> total r4 = sint l) \<and>
   (runQuery sv getCitedByArticlesCount_query (only_articleId a) = Inr (rec5 # more5) \<longrightarrow>
      Record_get rec5 ''count'' = Inr (NInteger l h) \<longrightarrow>
      getCitedByArticlesCount sv a = Inr (Some (sint l))) \<and>
   (runQuery sv getArticleCitingOtherArticlesCount_query (only_articleId a) = Inr (rec6 # more6) \<longrightarrow>
      Record_get rec6 ''count'' = Inr (NInteger l h) \<longrightarrow>
      getArticleCitingOtherArticlesCount sv a = Inr (Some (sint l))) \<and>
   (runQuery sv getCasesCitingArticleCount_query (only_articleId a) = Inr (rec7 # more7) \<longrightarrow>
      Record_get rec7 ''count'' = Inr (NInteger l h) \<longrightarrow>
      getCasesCitingArticleCount sv a = Inr (Some (sint l))) \<and>
   (runQuery sv getReferencesWithArticleCount_query (only_articleId a) = Inr (rec8 # more8) \<longrightarrow>
      Record_get rec8 ''count'' = Inr (NInteger l h) \<longrightarrow>
      getReferencesWithArticleCount sv a = Inr (Some (sint l))) \<and>
   Integer_fromInt c = NInteger (word_of_int c) (word_of_int (c div 2 ^ 32)) \<and>
   sint (word_of_int c :: 32 word) = (c + 2 ^ 31) mod 2 ^ 32 - 2 ^ 31 \<and>
   ((c + 2 ^ 31) mod 2 ^ 32 - 2 ^ 31 = c mod 2 ^ 32 \<longleftrightarrow> c mod 2 ^ 32 < 2 ^ 31) \<and>
   sint (0 :: 32 word) = 0"
proof -
  have p1: "runQuery sv (getCitedByArticles_getCountQuery f) (count_params f) = Inr (rec1 # more1) \<longrightarrow>
      Record_get rec1 ''totalCount'' = Inr (NInteger l h) \<longrightarrow>
      getCitedByArticles sv f = Inr r1 \<longrightarrow> total r1 = sint l"
    using page_totals(1) [of sv f r1 "rec1 # more1"] totalCount_of_Integer [of rec1 l h more1] by auto
  have p2: "runQuery sv (getArticleCitingOtherArticles_getCountQuery f) (count_params f) = Inr (rec2 # more2) \<longrightarrow>
      Record_get rec2 ''totalCount'' = Inr (NInteger l h) \<longrightarrow>
      getArticleCitingOtherArticles sv f = Inr r2 \<longrightarrow> total r2 = sint l"
    using page_totals(2) [of sv f r2 "rec2 # more2"] totalCount_of_Integer [of rec2 l h more2] by auto
  have p3: "runQuery sv (getCasesCitingArticle_getCountQuery f) (count_params f) = Inr (rec3 # more3) \<longrightarrow>
      Record_get rec3 ''totalCount'' = Inr (NInteger l h) \<longrightarrow>
      getCasesCitingArticle sv f = Inr r3 \<longrightarrow> total r3 = sint l"
    using page_totals(3) [of sv f r3 "rec3 # more3"] totalCount_of_Integer [of rec3 l h more3] by auto
  have p4: "runQuery sv (getReferencesWithArticle_getCountQuery f) (count_params f) = Inr (rec4 # more4) \<longrightarrow>
      Record_get rec4 ''totalCount'' = Inr (NInteger l h) \<longrightarrow>
      getReferencesWithArticle sv f = Inr r4 \<longrightarrow> total r4 = sint l"
    using page_totals(4) [of sv f r4 "rec4 # more4"] totalCount_of_Integer [of rec4 l h more4] by auto
  have c: "\<And>q rec others opr. opr = andThen (runQuery sv q (only_articleId a)) count_of \<Longrightarrow>
      runQuery sv q (only_articleId a) = Inr (rec # others) \<longrightarrow>
      Record_get rec ''count'' = Inr (NInteger l h) \<longrightarrow> opr = Inr (Some (sint l))"
    by (simp add: count_of_Integer)
  have ar: "((c + 2 ^ 31) mod 2 ^ 32 - 2 ^ 31 = c mod 2 ^ 32) = (c mod 2 ^ 32 < (2 ^ 31 :: int))"
    by (rule signed_low_eq_mod)
  have i: "Integer_fromInt c = NInteger (word_of_int c) (word_of_int (c div 2 ^ 32))"
    by (simp add: Integer_fromInt_def)
  have z: "sint (0 :: 32 word) = 0" by simp
  note c5 = c [OF count_only_shapes(1), of rec5 more5]
  note c6 = c [OF count_only_shapes(2), of rec6 more6]
  note c7 = c [OF count_only_shapes(3), of rec7 more7]
  note c8 = c [OF count_only_shapes(4), of rec8 more8]
  show ?thesis
    by (intro conjI) (fact p1 p2 p3 p4 c5 c6 c7 c8 i sint_low_word ar z)+
qed

theorem C10_witness:
  "runQuery (answering [[(''totalCount'', NInteger 7 3)]] [] [])
       (getCitedByArticles_getCountQuery
          \<lparr>articleId = ''5'', searchTerm = None, skip = 0, limit = 10\<rparr>)
       (count_params \<lparr>articleId = ''5'', searchTerm = None, skip = 0, limit = 10\<rparr>) =
     Inr [[(''totalCount'', NInteger 7 3)]] \<and>
   Record_get [(''totalCount'', NInteger 7 3)] ''totalCount'' = Inr (NInteger 7 3) \<and>
   getCitedByArticles (answering [[(''totalCount'', NInteger 7 3)]] [] [])
       \<lparr>articleId = ''5'', searchTerm = None, skip = 0, limit = 10\<rparr> =
     Inr \<lparr>total = 7, articles = []\<rparr> \<and>
   total \<lparr>total = 7, articles = [] :: doc list\<rparr> = sint (7 :: 32 word) \<and>
   runQuery (answering [[(''count'', NInteger 7 3)]] [] []) getCitedByArticlesCount_query
       (only_articleId ''5'') =
     Inr [[(''count'', NInteger 7 3)]] \<and>
   Record_get [(''count'', NInteger 7 3)] ''count'' = Inr (NInteger 7 3) \<and>
   getCitedByArticlesCount (answering [[(''count'', NInteger 7 3)]] [] []) ''5'' =
     Inr (Some (sint (7 :: 32 word)))"
proof -
  let ?sv = "answering [[(''totalCount'', NInteger 7 3)]] [] []"
  let ?f = "\<lparr>articleId = ''5'', searchTerm = None, skip = 0, limit = 10\<rparr>"
  have h1: "runQuery ?sv (getCitedByArticles_getCountQuery ?f) (count_params ?f) =
      Inr ([(''totalCount'', NInteger 7 3)] # [])"
    by (simp add: answering_def count_params_def)
  have h2: "Record_get [(''totalCount'', NInteger 7 3)] ''totalCount'' = Inr (NInteger 7 3)"
    by (simp add: Record_get_def)
  have h3: "getCitedByArticles ?sv ?f = Inr \<lparr>total = 7, articles = []\<rparr>"
    by (simp add: answering_def getCitedByArticles_shape graph_stage_def count_params_def
        page_params_def Promise_all_def totalCount_of_def enrich_def flattenedResults_def
        Array_sort_def Record_get_def)
  have k1: "runQuery (answering [[(''count'', NInteger 7 3)]] [] []) getCitedByArticlesCount_query
       (only_articleId ''5'') = Inr ([(''count'', NInteger 7 3)] # [])"
    by (simp add: answering_def only_articleId_def)
  have k2: "Record_get [(''count'', NInteger 7 3)] ''count'' = Inr (NInteger 7 3)"
    by (simp add: Record_get_def)
  note page = C10_total_is_signed_low_word [THEN conjunct1, rule_format, OF h1 h2 h3]
  note count = C10_total_is_signed_low_word [THEN conjunct2, THEN conjunct2, THEN conjunct2,
      THEN conjunct2, THEN conjunct1, rule_format, OF k1 k2]
  from page count h1 h2 h3 k1 k2 show ?thesis by simp
qed

section \<open>Results and failures of the page operations\<close>

lemma Array_map_Cons_Inr:
  "Array_map f (x # xs) = Inr ys \<longleftrightarrow>
     (\<exists>y zs. f x = Inr y \<and> Array_map f xs = Inr zs \<and> ys = y # zs)"
  by (auto split: sum.splits)

lemma Array_map_Inr: "Array_map f xs = Inr ys \<longleftrightarrow> map f xs = map Inr ys"
proof (induction xs arbitrary: ys)
  case Nil
  then show ?case by auto
next
  case (Cons x xs)
  have "Array_map f (x # xs) = Inr ys \<longleftrightarrow>
      (\<exists>y zs. f x = Inr y \<and> map f xs = map Inr zs \<and> ys = y # zs)"
    by (simp only: Array_map_Cons_Inr Cons.IH)
  also have "\<dots> \<longleftrightarrow> map f (x # xs) = map Inr ys"
    by (cases ys) auto
  finally show ?case .
qed

lemma map_Inr_nth:
  assumes a: "map f xs = map Inr ys"
  shows "length ys = length xs \<and> (\<forall>i<length xs. f (xs ! i) = Inr (ys ! i))"
proof -
  have l: "length xs = length ys" using a by (metis length_map)
  have "f (xs ! i) = Inr (ys ! i)" if i: "i < length xs" for i
    using arg_cong [OF a, of "\<lambda>zs. zs ! i"] i l by simp
  with l show ?thesis by simp
qed


lemma enriched_rejected_by_graph:
  assumes shape: "\<And>sv f. opr sv f = andThen (graph_stage sv (cq f) (pq f) f cb) (k sv)"
    and "runQuery sv (cq f) (count_params f) = Inl e \<or> runQuery sv (pq f) (page_params f) = Inl e"
  shows "\<exists>e'. opr sv f = Inl e' \<and>
     (runQuery sv (cq f) (count_params f) = Inl e' \<or> runQuery sv (pq f) (page_params f) = Inl e')"
  using graph_stage_rejected [OF assms(2), of cb] by (auto simp: shape)

lemma enriched_rejected_by_lookup:
  assumes shape: "\<And>sv f. opr sv f = andThen (graph_stage sv (cq f) (pq f) f cb)
        (\<lambda>(t, items). andThen (enrich sv idx key items) (mk t))"
    and c: "runQuery sv (cq f) (count_params f) = Inr cr" "runQuery sv (pq f) (page_params f) = Inr pr"
      "totalCount_of cr = Inr t" "Array_map cb pr = Inr items"
    and a: "a \<in> set items" "search sv \<lparr>index = idx, match_number = map_of a ''number''\<rparr> = Inl e"
  shows "\<exists>e' a'. opr sv f = Inl e' \<and> a' \<in> set items \<and>
     search sv \<lparr>index = idx, match_number = map_of a' ''number''\<rparr> = Inl e'"
proof -
  have g: "graph_stage sv (cq f) (pq f) f cb = Inr (t, items)"
    unfolding graph_stage_Inr using c by blast
  from a have "lookup sv idx a = Inl e" by (simp add: lookup_Inl)
  from enrich_rejected [OF a(1) this, of key]
  obtain e' a' where "enrich sv idx key items = Inl e'" "a' \<in> set items" "lookup sv idx a' = Inl e'"
    by blast
  then show ?thesis using g by (auto simp: shape lookup_Inl)
qed

lemma enriched_success:
  assumes shape: "\<And>sv f. opr sv f = andThen (graph_stage sv (cq f) (pq f) f cb)
        (\<lambda>(t, items). andThen (enrich sv idx key items) (mk t))"
    and r: "opr sv f = Inr r"
  shows "\<exists>cr pr items ess.
     runQuery sv (cq f) (count_params f) = Inr cr \<and> runQuery sv (pq f) (page_params f) = Inr pr \<and>
     Array_map cb pr = Inr items \<and> map (lookup sv idx) items = map Inr ess"
proof -
  from r obtain p where "graph_stage sv (cq f) (pq f) f cb = Inr p"
    and "(case p of (t, items) \<Rightarrow> andThen (enrich sv idx key items) (mk t)) = Inr r"
    unfolding shape andThen_eq_Inr by blast
  then obtain t items where g: "graph_stage sv (cq f) (pq f) f cb = Inr (t, items)"
    and "andThen (enrich sv idx key items) (mk t) = Inr r"
    by (cases p) auto
  then obtain xs where "enrich sv idx key items = Inr xs" unfolding andThen_eq_Inr by blast
  then obtain ess where "map (lookup sv idx) items = map Inr ess" unfolding enrich_Inr by blast
  with g show ?thesis unfolding graph_stage_Inr by blast
qed










text \<open>
  The items of a successful enriched operation are the merge of what the lookups
  returned for the objects of the page records.
\<close>

lemma enriched_items:
  "getCitedByArticles sv f = Inr r1 \<Longrightarrow>
     \<exists>t items ess.
       graph_stage sv (getCitedByArticles_getCountQuery f) (getCitedByArticles_getArticlesQuery f) f
         getCitedByArticles_record = Inr (t, items) \<and>
       map (lookup sv ''articles'') items = map Inr ess \<and>
       articles r1 = flattenedResults ''name'' ess"
  "getArticleCitingOtherArticles sv f = Inr r2 \<Longrightarrow>
     \<exists>t items ess.
       graph_stage sv (getArticleCitingOtherArticles_getCountQuery f)
         (getArticleCitingOtherArticles_getArticlesQuery f) f
         getArticleCitingOtherArticles_record = Inr (t, items) \<and>
       map (lookup sv ''articles'') items = map Inr ess \<and>
       articles r2 = flattenedResults ''name'' ess"
  "getCasesCitingArticle sv f = Inr r3 \<Longrightarrow>
     \<exists>t items ess.
       graph_stage sv (getCasesCitingArticle_getCountQuery f) (getCasesCitingArticle_getCasesQuery f) f
         getCasesCitingArticle_record = Inr (t, items) \<and>
       map (lookup sv ''cases'') items = map Inr ess \<and>
       cases r3 = flattenedResults ''caseName'' ess"
proof -
  show "getCitedByArticles sv f = Inr r1 \<Longrightarrow>
     \<exists>t items ess.
       graph_stage sv (getCitedByArticles_getCountQuery f) (getCitedByArticles_getArticlesQuery f) f
         getCitedByArticles_record = Inr (t, items) \<and>
       map (lookup sv ''articles'') items = map Inr ess \<and>
       articles r1 = flattenedResults ''name'' ess"
    unfolding getCitedByArticles_Inr enrich_Inr
    by (metis articles_result.select_convs(1))
  show "getArticleCitingOtherArticles sv f = Inr r2 \<Longrightarrow>
     \<exists>t items ess.
       graph_stage sv (getArticleCitingOtherArticles_getCountQuery f)
         (getArticleCitingOtherArticles_getArticlesQuery f) f
         getArticleCitingOtherArticles_record = Inr (t, items) \<and>
       map (lookup sv ''articles'') items = map Inr ess \<and>
       articles r2 = flattenedResults ''name'' ess"
    unfolding getArticleCitingOtherArticles_Inr enrich_Inr
    by (metis articles_result.select_convs(1))
  show "getCasesCitingArticle sv f = Inr r3 \<Longrightarrow>
     \<exists>t items ess.
       graph_stage sv (getCasesCitingArticle_getCountQuery f) (getCasesCitingArticle_getCasesQuery f) f
         getCasesCitingArticle_record = Inr (t, items) \<and>
       map (lookup sv ''cases'') items = map Inr ess \<and>
       cases r3 = flattenedResults ''caseName'' ess"
    unfolding getCasesCitingArticle_Inr enrich_Inr
    by (metis cases_result.select_convs(1))
qed

text \<open>
  \<open>getReferencesWithArticle\<close> consults no search index and has no merge step: when it
  succeeds, both queries succeeded, its \<open>references\<close> are as many as the page rows and the
  \<open>i\<close>-th one is the copy \<open>{ ...reference }\<close> of the property map of the \<open>i\<close>-th row's \<open>r\<close>
  (for a row that binds \<open>r\<close> to a node, exactly that node's property map), in the order of
  the page rows; its \<open>total\<close> is read off the answer to the count query; and the result
  does not depend on the search index at all.
\<close>

lemma getReferencesWithArticle_items:
  "(getReferencesWithArticle sv f = Inr r \<longrightarrow>
      (\<exists>countResult referencesResult.
         runQuery sv (getReferencesWithArticle_getCountQuery f) (count_params f) = Inr countResult \<and>
         runQuery sv (getReferencesWithArticle_getReferencesQuery f) (page_params f) =
           Inr referencesResult \<and>
         totalCount_of countResult = Inr (total r) \<and>
         length (references r) = length referencesResult \<and>
         (\<forall>i<length referencesResult.
            getReferencesWithArticle_record (referencesResult ! i) = Inr (references r ! i)))) \<and>
   (Record_get record ''r'' = Inr (NNode i ps) \<longrightarrow>
      getReferencesWithArticle_record record = Inr ps) \<and>
   getReferencesWithArticle (sv\<lparr>search := s\<rparr>) f = getReferencesWithArticle sv f"
proof (intro conjI impI)
  assume a: "getReferencesWithArticle sv f = Inr r"
  then obtain items where g: "graph_stage sv (getReferencesWithArticle_getCountQuery f)
        (getReferencesWithArticle_getReferencesQuery f) f
        getReferencesWithArticle_record = Inr (total r, items)"
      and r: "r = \<lparr>total = total r, references = items\<rparr>"
    unfolding getReferencesWithArticle_Inr by blast
  from r have i: "references r = items" by (metis references_result.select_convs(1))
  from g obtain cr pr where c: "runQuery sv (getReferencesWithArticle_getCountQuery f) (count_params f) = Inr cr"
    "runQuery sv (getReferencesWithArticle_getReferencesQuery f) (page_params f) = Inr pr"
    "totalCount_of cr = Inr (total r)" "Array_map getReferencesWithArticle_record pr = Inr items"
    unfolding graph_stage_Inr by blast
  from c(4) have "map getReferencesWithArticle_record pr = map Inr items"
    by (simp only: Array_map_Inr)
  then have "length items = length pr \<and>
      (\<forall>i<length pr. getReferencesWithArticle_record (pr ! i) = Inr (items ! i))"
    by (rule map_Inr_nth)
  with c i show "\<exists>countResult referencesResult.
         runQuery sv (getReferencesWithArticle_getCountQuery f) (count_params f) = Inr countResult \<and>
         runQuery sv (getReferencesWithArticle_getReferencesQuery f) (page_params f) =
           Inr referencesResult \<and>
         totalCount_of countResult = Inr (total r) \<and>
         length (references r) = length referencesResult \<and>
         (\<forall>i<length referencesResult.
            getReferencesWithArticle_record (referencesResult ! i) = Inr (references r ! i))"
    by auto
next
  assume "Record_get record ''r'' = Inr (NNode i ps)"
  then show "getReferencesWithArticle_record record = Inr ps"
    by (simp add: getReferencesWithArticle_record_def)
next
  show "getReferencesWithArticle (sv\<lparr>search := s\<rparr>) f = getReferencesWithArticle sv f"
    by (simp add: getReferencesWithArticle_def)
qed

lemma getReferencesWithArticle_items_example:
  "getReferencesWithArticle
     (answering [[(''totalCount'', NInteger 2 0)]]
        [[(''r'', NNode ''r1'' [(''text'', NString ''see art. 5'')])],
         [(''r'', NNode ''r2'' [(''context'', NString ''art. 5 applies'')])]] [])
     \<lparr>articleId = ''5'', searchTerm = None, skip = 0, limit = 10\<rparr> =
     Inr \<lparr>total = 2,
          references = [[(''text'', NString ''see art. 5'')],
                        [(''context'', NString ''art. 5 applies'')]]\<rparr> \<and>
   (\<exists>countResult referencesResult.
      runQuery
        (answering [[(''totalCount'', NInteger 2 0)]]
           [[(''r'', NNode ''r1'' [(''text'', NString ''see art. 5'')])],
            [(''r'', NNode ''r2'' [(''context'', NString ''art. 5 applies'')])]] [])
        (getReferencesWithArticle_getReferencesQuery
           \<lparr>articleId = ''5'', searchTerm = None, skip = 0, limit = 10\<rparr>)
        (page_params \<lparr>articleId = ''5'', searchTerm = None, skip = 0, limit = 10\<rparr>) =
        Inr referencesResult \<and>
      totalCount_of countResult = Inr 2 \<and>
      length referencesResult = 2)"
proof -
  let ?sv = "answering [[(''totalCount'', NInteger 2 0)]]
        [[(''r'', NNode ''r1'' [(''text'', NString ''see art. 5'')])],
         [(''r'', NNode ''r2'' [(''context'', NString ''art. 5 applies'')])]] []"
  let ?f = "\<lparr>articleId = ''5'', searchTerm = None, skip = 0, limit = 10\<rparr>"
  have h: "getReferencesWithArticle ?sv ?f =
     Inr \<lparr>total = 2,
          references = [[(''text'', NString ''see art. 5'')],
                        [(''context'', NString ''art. 5 applies'')]]\<rparr>"
    by code_simp
  from getReferencesWithArticle_items [THEN conjunct1, THEN mp, OF h]
  obtain countResult referencesResult where
    "runQuery ?sv (getReferencesWithArticle_getReferencesQuery ?f) (page_params ?f) =
        Inr referencesResult"
    "totalCount_of countResult = Inr 2" "2 = length referencesResult"
    by auto
  with h show ?thesis by auto
qed



text \<open>
  Claim C6. For each page operation: (1) if the count query or the page query is
  rejected, the operation fails with the very error of one of the rejected queries;
  (2) if both succeed and the page records are mapped but some lookup is rejected, the
  operation fails with the very error of one of the rejected lookups; (3) if the
  operation succeeds, then both queries and every lookup succeeded, so no result is
  returned when any of them failed. \<open>getReferencesWithArticle\<close> makes no lookups, so only
  (1) and (3) apply to it.
\<close>

theorem C6_failures_propagate:
  "((runQuery sv (getCitedByArticles_getCountQuery f) (count_params f) = Inl e \<or>
     runQuery sv (getCitedByArticles_getArticlesQuery f) (page_params f) = Inl e) \<longrightarrow>
    (\<exists>e'. getCitedByArticles sv f = Inl e' \<and>
       (runQuery sv (getCitedByArticles_getCountQuery f) (count_params f) = Inl e' \<or>
        runQuery sv (getCitedByArticles_getArticlesQuery f) (page_params f) = Inl e'))) \<and>
   (runQuery sv (getCitedByArticles_getCountQuery f) (count_params f) = Inr cr \<longrightarrow>
    runQuery sv (getCitedByArticles_getArticlesQuery f) (page_params f) = Inr pr \<longrightarrow>
    totalCount_of cr = Inr t \<longrightarrow> Array_map getCitedByArticles_record pr = Inr items \<longrightarrow>
    a \<in> set items \<longrightarrow>
    search sv \<lparr>index = ''articles'', match_number = map_of a ''number''\<rparr> = Inl e \<longrightarrow>
    (\<exists>e' a'. getCitedByArticles sv f = Inl e' \<and> a' \<in> set items \<and>
       search sv \<lparr>index = ''articles'', match_number = map_of a' ''number''\<rparr> = Inl e')) \<and>
   (getCitedByArticles sv f = Inr r1 \<longrightarrow>
    (\<exists>cr pr items ess.
       runQuery sv (getCitedByArticles_getCountQuery f) (count_params f) = Inr cr \<and>
       runQuery sv (getCitedByArticles_getArticlesQuery f) (page_params f) = Inr pr \<and>
       Array_map getCitedByArticles_record pr = Inr items \<and>
       map (lookup sv ''articles'') items = map Inr ess)) \<and>
   ((runQuery sv (getArticleCitingOtherArticles_getCountQuery f) (count_params f) = Inl e \<or>
     runQuery sv (getArticleCitingOtherArticles_getArticlesQuery f) (page_params f) = Inl e) \<longrightarrow>
    (\<exists>e'. getArticleCitingOtherArticles sv f = Inl e' \<and>
       (runQuery sv (getArticleCitingOtherArticles_getCountQuery f) (count_params f) = Inl e' \<or>
        runQuery sv (getArticleCitingOtherArticles_getArticlesQuery f) (page_params f) = Inl e'))) \<and>
   (runQuery sv (getArticleCitingOtherArticles_getCountQuery f) (count_params f) = Inr cr \<longrightarrow>
    runQuery sv (getArticleCitingOtherArticles_getArticlesQuery f) (page_params f) = Inr pr \<longrightarrow>
    totalCount_of cr = Inr t \<longrightarrow>
    Array_map getArticleCitingOtherArticles_record pr = Inr items \<longrightarrow>
    a \<in> set items \<longrightarrow>
    search sv \<lparr>index = ''articles'', match_number = map_of a ''number''\<rparr> = Inl e \<longrightarrow>
    (\<exists>e' a'. getArticleCitingOtherArticles sv f = Inl e' \<and> a' \<in> set items \<and>
       search sv \<lparr>index = ''articles'', match_number = map_of a' ''number''\<rparr> = Inl e')) \<and>
   (getArticleCitingOtherArticles sv f = Inr r2 \<longrightarrow>
    (\<exists>cr pr items ess.
       runQuery sv (getArticleCitingOtherArticles_getCountQuery f) (count_params f) = Inr cr \<and>
       runQuery sv (getArticleCitingOtherArticles_getArticlesQuery f) (page_params f) = Inr pr \<and>
       Array_map getArticleCitingOtherArticles_record pr = Inr items \<and>
       map (lookup sv ''articles'') items = map Inr ess)) \<and>
   ((runQuery sv (getCasesCitingArticle_getCountQuery f) (count_params f) = Inl e \<or>
     runQuery sv (getCasesCitingArticle_getCasesQuery f) (page_params f) = Inl e) \<longrightarrow>
    (\<exists>e'. getCasesCitingArticle sv f = Inl e' \<and>
       (runQuery sv (getCasesCitingArticle_getCountQuery f) (count_params f) = Inl e' \<or>
        runQuery sv (getCasesCitingArticle_getCasesQuery f) (page_params f) = Inl e'))) \<and>
   (runQuery sv (getCasesCitingArticle_getCountQuery f) (count_params f) = Inr cr \<longrightarrow>
    runQuery sv (getCasesCitingArticle_getCasesQuery f) (page_params f) = Inr pr \<longrightarrow>
    totalCount_of cr = Inr t \<longrightarrow> Array_map getCasesCitingArticle_record pr = Inr items \<longrightarrow>
    a \<in> set items \<longrightarrow>
    search sv \<lparr>index = ''cases'', match_number = map_of a ''number''\<rparr> = Inl e \<longrightarrow>
    (\<exists>e' a'. getCasesCitingArticle sv f = Inl e' \<and> a' \<in> set items \<and>
       search sv \<lparr>index = ''cases'', match_number = map_of a' ''number''\<rparr> = Inl e')) \<and>
   (getCasesCitingArticle sv f = Inr r3 \<longrightarrow>
    (\<exists>cr pr items ess.
       runQuery sv (getCasesCitingArticle_getCountQuery f) (count_params f) = Inr cr \<and>
       runQuery sv (getCasesCitingArticle_getCasesQuery f) (page_params f) = Inr pr \<and>
       Array_map getCasesCitingArticle_record pr = Inr items \<and>
       map (lookup sv ''cases'') items = map Inr ess)) \<and>
   ((runQuery sv (getReferencesWithArticle_getCountQuery f) (count_params f) = Inl e \<or>
     runQuery sv (getReferencesWithArticle_getReferencesQuery f) (page_params f) = Inl e) \<longrightarrow>
    (\<exists>e'. getReferencesWithArticle sv f = Inl e' \<and>
       (runQuery sv (getReferencesWithArticle_getCountQuery f) (count_params f) = Inl e' \<or>
        runQuery sv (getReferencesWithArticle_getReferencesQuery f) (page_params f) = Inl e'))) \<and>
   (getReferencesWithArticle sv f = Inr r4 \<longrightarrow>
    (\<exists>cr pr.
       runQuery sv (getReferencesWithArticle_getCountQuery f) (count_params f) = Inr cr \<and>
       runQuery sv (getReferencesWithArticle_getReferencesQuery f) (page_params f) = Inr pr))"
proof -
  note g1 = enriched_rejected_by_graph [of getCitedByArticles, OF getCitedByArticles_shape]
  note g2 = enriched_rejected_by_graph [of getArticleCitingOtherArticles,
      OF getArticleCitingOtherArticles_shape]
  note g3 = enriched_rejected_by_graph [of getCasesCitingArticle, OF getCasesCitingArticle_shape]
  note g4 = enriched_rejected_by_graph [of getReferencesWithArticle,
      OF getReferencesWithArticle_shape]
  note l1 = enriched_rejected_by_lookup [of getCitedByArticles, OF getCitedByArticles_shape]
  note l2 = enriched_rejected_by_lookup [of getArticleCitingOtherArticles,
      OF getArticleCitingOtherArticles_shape]
  note l3 = enriched_rejected_by_lookup [of getCasesCitingArticle, OF getCasesCitingArticle_shape]
  note s1 = enriched_success [of getCitedByArticles, OF getCitedByArticles_shape]
  note s2 = enriched_success [of getArticleCitingOtherArticles,
      OF getArticleCitingOtherArticles_shape]
  note s3 = enriched_success [of getCasesCitingArticle, OF getCasesCitingArticle_shape]
  have s4: "getReferencesWithArticle sv f = Inr r4 \<Longrightarrow>
    (\<exists>cr pr.
       runQuery sv (getReferencesWithArticle_getCountQuery f) (count_params f) = Inr cr \<and>
       runQuery sv (getReferencesWithArticle_getReferencesQuery f) (page_params f) = Inr pr)"
    unfolding getReferencesWithArticle_Inr graph_stage_Inr by blast
  show ?thesis
    apply (intro conjI impI)
    subgoal by (rule g1)
    subgoal by (rule l1)
    subgoal by (rule s1)
    subgoal by (rule g2)
    subgoal by (rule l2)
    subgoal by (rule s2)
    subgoal by (rule g3)
    subgoal by (rule l3)
    subgoal by (rule s3)
    subgoal by (rule g4)
    subgoal by (rule s4)
    done
qed

theorem C6_witness:
  "runQuery
     \<lparr>runQuery = (\<lambda>q ps. if param_skip ps = None then Inl (Rejected ''connection lost'')
                           else Inr []),
      search = (\<lambda>request. Inr []), settles_first = 0\<rparr>
     (getCitedByArticles_getCountQuery
        \<lparr>articleId = ''5'', searchTerm = None, skip = 0, limit = 10\<rparr>)
     (count_params \<lparr>articleId = ''5'', searchTerm = None, skip = 0, limit = 10\<rparr>) =
     Inl (Rejected ''connection lost'') \<and>
   getCitedByArticles
     \<lparr>runQuery = (\<lambda>q ps. if param_skip ps = None then Inl (Rejected ''connection lost'')
                           else Inr []),
      search = (\<lambda>request. Inr []), settles_first = 0\<rparr>
     \<lparr>articleId = ''5'', searchTerm = None, skip = 0, limit = 10\<rparr> =
     Inl (Rejected ''connection lost'') \<and>
   search
     \<lparr>runQuery = (\<lambda>q ps. if param_skip ps = None then Inr [[(''totalCount'', NInteger 1 0)]]
                           else Inr [[(''a'', NNode ''n1'' [(''number'', NString ''1'')]),
                                      (''name'', NNull), (''elementId'', NString ''n1'')]]),
      search = (\<lambda>request. Inl (Rejected ''index unavailable'')), settles_first = 0\<rparr>
     \<lparr>index = ''articles'', match_number = Some (NString ''1'')\<rparr> =
     Inl (Rejected ''index unavailable'') \<and>
   getCitedByArticles
     \<lparr>runQuery = (\<lambda>q ps. if param_skip ps = None then Inr [[(''totalCount'', NInteger 1 0)]]
                           else Inr [[(''a'', NNode ''n1'' [(''number'', NString ''1'')]),
                                      (''name'', NNull), (''elementId'', NString ''n1'')]]),
      search = (\<lambda>request. Inl (Rejected ''index unavailable'')), settles_first = 0\<rparr>
     \<lparr>articleId = ''5'', searchTerm = None, skip = 0, limit = 10\<rparr> =
     Inl (Rejected ''index unavailable'') \<and>
   getCitedByArticles
     (answering [[(''totalCount'', NInteger 1 0)]]
        [[(''a'', NNode ''n1'' [(''number'', NString ''1'')]), (''name'', NNull),
          (''elementId'', NString ''n1'')]] [])
     \<lparr>articleId = ''5'', searchTerm = None, skip = 0, limit = 10\<rparr> =
     Inr \<lparr>total = 1, articles = []\<rparr> \<and>
   (\<exists>cr pr items ess.
      runQuery
        (answering [[(''totalCount'', NInteger 1 0)]]
           [[(''a'', NNode ''n1'' [(''number'', NString ''1'')]), (''name'', NNull),
             (''elementId'', NString ''n1'')]] [])
        (getCitedByArticles_getCountQuery
           \<lparr>articleId = ''5'', searchTerm = None, skip = 0, limit = 10\<rparr>)
        (count_params \<lparr>articleId = ''5'', searchTerm = None, skip = 0, limit = 10\<rparr>) = Inr cr \<and>
      runQuery
        (answering [[(''totalCount'', NInteger 1 0)]]
           [[(''a'', NNode ''n1'' [(''number'', NString ''1'')]), (''name'', NNull),
             (''elementId'', NString ''n1'')]] [])
        (getCitedByArticles_getArticlesQuery
           \<lparr>articleId = ''5'', searchTerm = None, skip = 0, limit = 10\<rparr>)
        (page_params \<lparr>articleId = ''5'', searchTerm = None, skip = 0, limit = 10\<rparr>) = Inr pr \<and>
      Array_map getCitedByArticles_record pr = Inr items \<and>
      map (lookup
             (answering [[(''totalCount'', NInteger 1 0)]]
                [[(''a'', NNode ''n1'' [(''number'', NString ''1'')]), (''name'', NNull),
                  (''elementId'', NString ''n1'')]] [])
             ''articles'') items = map Inr ess)"
proof -
  let ?f = "\<lparr>articleId = ''5'', searchTerm = None, skip = 0, limit = 10\<rparr>"
  let ?down = "\<lparr>runQuery = (\<lambda>q ps. if param_skip ps = None then Inl (Rejected ''connection lost'')
                           else Inr []),
      search = (\<lambda>request. Inr []), settles_first = 0\<rparr>"
  let ?row = "[(''a'', NNode ''n1'' [(''number'', NString ''1'')]), (''name'', NNull),
      (''elementId'', NString ''n1'')]"
  let ?noindex = "\<lparr>runQuery = (\<lambda>q ps. if param_skip ps = None then Inr [[(''totalCount'', NInteger 1 0)]]
                           else Inr [?row]),
      search = (\<lambda>request. Inl (Rejected ''index unavailable'')), settles_first = 0\<rparr>"
  let ?ok = "answering [[(''totalCount'', NInteger 1 0)]] [?row] []"
  have c: "runQuery ?down (getCitedByArticles_getCountQuery ?f) (count_params ?f) =
      Inl (Rejected ''connection lost'')"
    by (simp add: count_params_def)
  have p: "runQuery ?down (getCitedByArticles_getArticlesQuery ?f) (page_params ?f) = Inr []"
    by (simp add: page_params_def)
  from c have h: "runQuery ?down (getCitedByArticles_getCountQuery ?f) (count_params ?f) =
      Inl (Rejected ''connection lost'') \<or>
    runQuery ?down (getCitedByArticles_getArticlesQuery ?f) (page_params ?f) =
      Inl (Rejected ''connection lost'')" ..
  from C6_failures_propagate [THEN conjunct1, THEN mp, OF h]
  obtain e' where "getCitedByArticles ?down ?f = Inl e'"
    and "runQuery ?down (getCitedByArticles_getCountQuery ?f) (count_params ?f) = Inl e' \<or>
         runQuery ?down (getCitedByArticles_getArticlesQuery ?f) (page_params ?f) = Inl e'"
    by blast
  with c p have 1: "getCitedByArticles ?down ?f = Inl (Rejected ''connection lost'')" by simp
  let ?data = "[(''number'', NString ''1''), (''id'', NString ''n1''), (''name'', NNull)]"
  have q1: "runQuery ?noindex (getCitedByArticles_getCountQuery ?f) (count_params ?f) =
      Inr [[(''totalCount'', NInteger 1 0)]]"
    by (simp add: count_params_def)
  have q2: "runQuery ?noindex (getCitedByArticles_getArticlesQuery ?f) (page_params ?f) = Inr [?row]"
    by (simp add: page_params_def)
  have q3: "totalCount_of [[(''totalCount'', NInteger 1 0)]] = Inr 1"
    by (simp add: totalCount_of_def Record_get_def)
  have q4: "Array_map getCitedByArticles_record [?row] = Inr [?data]"
    by (simp add: getCitedByArticles_record_def Record_get_def)
  have q5: "?data \<in> set [?data]" by simp
  have q6: "search ?noindex \<lparr>index = ''articles'', match_number = map_of ?data ''number''\<rparr> =
      Inl (Rejected ''index unavailable'')" by simp
  from C6_failures_propagate [THEN conjunct2, THEN conjunct1, THEN mp, THEN mp, THEN mp, THEN mp,
      THEN mp, THEN mp, OF q1 q2 q3 q4 q5 q6]
  obtain e2 a' where "getCitedByArticles ?noindex ?f = Inl e2"
    "search ?noindex \<lparr>index = ''articles'', match_number = map_of a' ''number''\<rparr> = Inl e2"
    by blast
  then have 2: "getCitedByArticles ?noindex ?f = Inl (Rejected ''index unavailable'')" by simp
  have s: "getCitedByArticles ?ok ?f = Inr \<lparr>total = 1, articles = []\<rparr>"
    by code_simp
  note 3 = C6_failures_propagate [THEN conjunct2, THEN conjunct2, THEN conjunct1, THEN mp, OF s]
  show ?thesis
    using c 1 2 s 3 by simp
qed



section \<open>The queries on a graph\<close>

lemma run_clauses_append:
  "run_clauses g ps (cs @ ds) rows =
     (case run_clauses g ps cs rows of Inl e \<Rightarrow> Inl e | Inr rows' \<Rightarrow> run_clauses g ps ds rows')"
  by (induction cs arbitrary: rows) (auto split: sum.splits)

lemma value_of_node: "value_of r x = CNode n \<longleftrightarrow> map_of r x = Some (CNode n)"
  by (auto simp: value_of_def split: option.splits)

lemma bind_var_keeps: "map_of r x = Some c \<Longrightarrow> map_of (bind_var v c' r) x = Some c"
  by (simp add: bind_var_def)

lemma bind_var_binds: "map_of r v = None \<Longrightarrow> map_of (bind_var v c r) v = Some c"
  unfolding bind_var_def by (induction r) auto

text \<open>The rows of a pattern keep what is bound and bind the pattern's variables to nodes.\<close>

lemma expand_rows:
  "r \<in> set (expand g ps p1 t p2 r0) \<Longrightarrow>
   \<exists>s d. node_matches ps r0 p1 s \<and> node_matches ps r0 p2 d \<and>
      r = bind_var (pattern_var p2) (CNode d) (bind_var (pattern_var p1) (CNode s) r0)"
  by (auto simp: expand_def split: if_splits option.splits)

lemma expand_binds_first:
  assumes "r \<in> set (expand g ps p1 t p2 r0)"
  shows "\<exists>n. value_of r (pattern_var p1) = CNode n"
proof -
  obtain v1 l1 k1 where p1: "p1 = NodeP v1 l1 k1" by (cases p1)
  from expand_rows [OF assms] obtain s d where
    m: "node_matches ps r0 p1 s"
    and r: "r = bind_var (pattern_var p2) (CNode d) (bind_var (pattern_var p1) (CNode s) r0)"
    by blast
  have "map_of (bind_var v1 (CNode s) r0) v1 = Some (CNode s)"
  proof (cases "map_of r0 v1")
    case None
    then show ?thesis by (rule bind_var_binds)
  next
    case (Some c)
    with m p1 have "c = CNode s" by simp
    with Some show ?thesis by (simp add: bind_var_def)
  qed
  then have "map_of r v1 = Some (CNode s)" unfolding r p1 by (simp add: bind_var_keeps)
  then show ?thesis by (auto simp: p1 value_of_node)
qed

lemma expand_keeps:
  assumes "r \<in> set (expand g ps p1 t p2 r0)" "map_of r0 x = Some c"
  shows "map_of r x = Some c"
  using expand_rows [OF assms(1)] assms(2) by (auto simp: bind_var_keeps)

lemma expand_optional_keeps:
  assumes "r \<in> set (expand_optional g ps p1 t p2 r0)" "map_of r0 x = Some c"
  shows "map_of r x = Some c"
proof (cases "expand g ps p1 t p2 r0")
  case Nil
  with assms show ?thesis by (simp add: expand_optional_def bind_var_keeps)
next
  case (Cons m ms)
  with assms(1) have "r \<in> set (expand g ps p1 t p2 r0)" by (simp add: expand_optional_def)
  then show ?thesis using assms(2) by (rule expand_keeps)
qed

lemma expand_optional_nonempty: "expand_optional g ps p1 t p2 r0 \<noteq> []"
  by (simp add: expand_optional_def split: list.splits)

lemma with_value: "x \<in> set vs \<Longrightarrow> value_of (map (\<lambda>v. (v, value_of r v)) vs) x = value_of r x"
  by (induction vs) (auto simp: value_of_def)

text \<open>Sorting keeps the elements.\<close>

lemma set_insert_by: "set (insert_by cmp x ys) = insert x (set ys)"
  by (induction ys) auto

lemma length_insert_by: "length (insert_by cmp x ys) = Suc (length ys)"
  by (induction ys) auto

lemma set_sorted_by: "set (foldr (insert_by cmp) xs []) = set xs"
  by (induction xs) (simp_all add: set_insert_by)

lemma length_sorted_by: "length (foldr (insert_by cmp) xs []) = length xs"
  by (induction xs) (simp_all add: length_insert_by)

subsection \<open>Substrings\<close>

lemma starts_with_iff: "starts_with s t \<longleftrightarrow> (\<exists>v. s = t @ v)"
  by (induction s t rule: starts_with.induct) auto

lemma CONTAINS_iff: "CONTAINS s t \<longleftrightarrow> (\<exists>u v. s = u @ t @ v)"
proof (induction s)
  case Nil
  then show ?case by auto
next
  case (Cons x s)
  show ?case
  proof
    assume "CONTAINS (x # s) t"
    then consider "starts_with (x # s) t" | "CONTAINS s t" by auto
    then show "\<exists>u v. x # s = u @ t @ v"
    proof cases
      case 1
      then obtain v where "x # s = t @ v" unfolding starts_with_iff by blast
      then have "x # s = [] @ t @ v" by simp
      then show ?thesis by blast
    next
      case 2
      then obtain u v where "s = u @ t @ v" using Cons.IH by blast
      then have "x # s = (x # u) @ t @ v" by simp
      then show ?thesis by blast
    qed
  next
    assume "\<exists>u v. x # s = u @ t @ v"
    then obtain u v where e: "x # s = u @ t @ v" by blast
    show "CONTAINS (x # s) t"
    proof (cases u)
      case Nil
      with e have "starts_with (x # s) t" unfolding starts_with_iff by auto
      then show ?thesis by simp
    next
      case (Cons y u')
      with e have "s = u' @ t @ v" by simp
      then have "CONTAINS s t" using Cons.IH by blast
      then show ?thesis by simp
    qed
  qed
qed

subsection \<open>The search predicate on text flds\<close>

lemma or3_True: "or3 a b = Some True \<longleftrightarrow> a = Some True \<or> b = Some True"
  by (cases "(a, b)" rule: or3.cases) auto

lemma contains_term_text:
  "is_text_or_null c \<Longrightarrow> param_searchTerm ps = Some t \<Longrightarrow>
   \<exists>b. contains_term g ps c = Inr b \<and> (b = Some True \<longleftrightarrow> field_matches (toLower g) t c)"
  by (cases c) auto

lemma any_contains_text:
  assumes "param_searchTerm ps = Some t"
  shows "list_all (\<lambda>d. is_text_or_null (eval_expr r d)) ds \<Longrightarrow>
   \<exists>b. any_contains g ps r ds = Inr b \<and>
       (b = Some True \<longleftrightarrow> list_ex (\<lambda>d. field_matches (toLower g) t (eval_expr r d)) ds)"
proof (induction ds)
  case Nil
  then show ?case by simp
next
  case (Cons d ds)
  then obtain b' where b': "any_contains g ps r ds = Inr b'"
    "b' = Some True \<longleftrightarrow> list_ex (\<lambda>d. field_matches (toLower g) t (eval_expr r d)) ds" by auto
  from Cons.prems have "is_text_or_null (eval_expr r d)" by simp
  from contains_term_text [OF this assms]
  obtain b where b: "contains_term g ps (eval_expr r d) = Inr b"
    "b = Some True \<longleftrightarrow> field_matches (toLower g) t (eval_expr r d)" by blast
  have "any_contains g ps r (d # ds) = Inr (or3 b b')" using b(1) b'(1) by simp
  moreover have "or3 b b' = Some True \<longleftrightarrow>
      list_ex (\<lambda>d. field_matches (toLower g) t (eval_expr r d)) (d # ds)"
    using b(2) b'(2) by (simp add: or3_True)
  ultimately show ?case by blast
qed

lemma where_rows_text:
  assumes "param_searchTerm ps = Some t"
  shows "list_all (\<lambda>r. list_all (\<lambda>d. is_text_or_null (eval_expr r d)) ds) rows \<Longrightarrow>
   where_rows g ps ds rows = Inr (filter (\<lambda>r. list_ex (\<lambda>d. field_matches (toLower g) t (eval_expr r d)) ds) rows)"
proof (induction rows)
  case Nil
  then show ?case by simp
next
  case (Cons r rows)
  then have ih: "where_rows g ps ds rows =
      Inr (filter (\<lambda>r. list_ex (\<lambda>d. field_matches (toLower g) t (eval_expr r d)) ds) rows)" by simp
  from Cons.prems have "list_all (\<lambda>d. is_text_or_null (eval_expr r d)) ds" by simp
  from any_contains_text [OF assms this]
  obtain b where "any_contains g ps r ds = Inr b"
    "b = Some True \<longleftrightarrow> list_ex (\<lambda>d. field_matches (toLower g) t (eval_expr r d)) ds" by blast
  then show ?case using ih by simp
qed

lemma node_matches_articleId:
  assumes "param_articleId ps = param_articleId ps'"
  shows "node_matches ps r p n = node_matches ps' r p n"
proof (cases p)
  case (NodeP v l k)
  show ?thesis unfolding NodeP node_matches.simps assms ..
qed

lemma expand_articleId:
  "param_articleId ps = param_articleId ps' \<Longrightarrow> expand g ps p1 t p2 r = expand g ps' p1 t p2 r"
  unfolding expand_def
  by (simp only: node_matches_articleId [of ps ps'])

lemma expand_optional_articleId:
  "param_articleId ps = param_articleId ps' \<Longrightarrow>
   expand_optional g ps p1 t p2 r = expand_optional g ps' p1 t p2 r"
  unfolding expand_optional_def by (simp only: expand_articleId [of ps ps'])

lemma pattern_clause_articleId:
  assumes "is_pattern_clause c" "param_articleId ps = param_articleId ps'"
  shows "run_clause g ps c rows = run_clause g ps' c rows"
proof -
  have 1: "expand g ps = expand g ps'"
    by (intro ext) (rule expand_articleId [OF assms(2)])
  have 2: "expand_optional g ps = expand_optional g ps'"
    by (intro ext) (rule expand_optional_articleId [OF assms(2)])
  show ?thesis using assms(1) by (cases c) (simp_all add: 1 2)
qed

lemma pattern_clause_succeeds:
  "is_pattern_clause c \<Longrightarrow> \<exists>rows'. run_clause g ps c rows = Inr rows'"
  by (cases c) simp_all

lemma pattern_succeeds:
  "list_all is_pattern_clause pat \<Longrightarrow> \<exists>rows'. run_clauses g ps pat rows = Inr rows'"
proof (induction pat arbitrary: rows)
  case Nil
  then show ?case by simp
next
  case (Cons c pat)
  from Cons.prems have c: "is_pattern_clause c" and p: "list_all is_pattern_clause pat" by simp_all
  from pattern_clause_succeeds [OF c]
  obtain rows1 where "run_clause g ps c rows = Inr rows1" by blast
  with Cons.IH [OF p] show ?case by simp
qed

lemma pattern_articleId:
  "list_all is_pattern_clause pat \<Longrightarrow> param_articleId ps = param_articleId ps' \<Longrightarrow>
   run_clauses g ps pat rows = run_clauses g ps' pat rows"
proof (induction pat arbitrary: rows)
  case Nil
  then show ?case by simp
next
  case (Cons c pat)
  from Cons.prems have c: "is_pattern_clause c" and p: "list_all is_pattern_clause pat" by simp_all
  have "run_clause g ps c rows = run_clause g ps' c rows"
    using c Cons.prems(2) by (rule pattern_clause_articleId)
  with Cons.IH [OF p Cons.prems(2)] show ?case by (simp split: sum.splits)
qed

lemma run_pattern:
  assumes "list_all is_pattern_clause pat" "param_articleId ps = a"
  shows "run_clauses g ps pat [[]] = Inr (pattern_rows g a pat)"
proof -
  have "run_clauses g ps pat [[]] = run_clauses g (only_articleId a) pat [[]]"
    using assms by (intro pattern_articleId) (simp_all add: only_articleId_def)
  moreover obtain rows where "run_clauses g (only_articleId a) pat [[]] = Inr rows"
    using pattern_succeeds [OF assms(1)] by blast
  ultimately show ?thesis by (simp add: pattern_rows_def)
qed

subsection \<open>The search condition\<close>

lemma run_condition:
  assumes "cond = (if is_falsy tm then [] else [WHERE ds])"
    and "param_searchTerm ps = tm"
    and "\<not> is_falsy tm \<Longrightarrow> list_all (\<lambda>r. list_all (\<lambda>d. is_text_or_null (eval_expr r d)) ds) rows"
  shows "run_clauses g ps cond rows = Inr (filter (accepts (toLower g) tm ds) rows)"
proof (cases "is_falsy tm")
  case True
  then have "accepts (toLower g) tm ds = (\<lambda>r. True)" by (cases tm) (auto intro!: ext)
  with True assms(1) show ?thesis by simp
next
  case False
  then obtain t where t: "tm = Some t" "t \<noteq> []" by (cases tm) auto
  then have "accepts (toLower g) tm ds = (\<lambda>r. list_ex (\<lambda>d. field_matches (toLower g) t (eval_expr r d)) ds)"
    by (auto intro!: ext)
  moreover have "where_rows g ps ds rows =
      Inr (filter (\<lambda>r. list_ex (\<lambda>d. field_matches (toLower g) t (eval_expr r d)) ds) rows)"
    using where_rows_text [where ps = ps and t = t and g = g and ds = ds and rows = rows]
      assms(2,3) False t by simp
  ultimately show ?thesis using False assms(1) by simp
qed

subsection \<open>Whole queries\<close>

lemma project_fun: "(\<lambda>r. map (\<lambda>(e, alias). (alias, eval_expr r e)) items) = project items"
  by (rule ext) (simp add: project_def)

lemma run_count_query:
  assumes pat: "list_all is_pattern_clause pat" "param_articleId ps = a"
    and cond: "cond = (if is_falsy tm then [] else [WHERE ds])" "param_searchTerm ps = tm"
    and typed: "\<not> is_falsy tm \<Longrightarrow>
        list_all (\<lambda>r. list_all (\<lambda>d. is_text_or_null (eval_expr r d)) ds) (pattern_rows g a pat)"
    and bound: "\<forall>r \<in> set (pattern_rows g a pat). value_of r subj \<noteq> CNull"
  shows "run_query g ps (pat @ cond @ [RETURN_count subj alias]) =
     Inr [[(alias, CInteger (count_plan g a pat tm ds))]]"
proof -
  have 1: "run_clauses g ps pat [[]] = Inr (pattern_rows g a pat)"
    using pat by (rule run_pattern)
  have 2: "run_clauses g ps cond (pattern_rows g a pat) =
      Inr (filter (accepts (toLower g) tm ds) (pattern_rows g a pat))"
    using cond typed by (rule run_condition)
  have 3: "filter (\<lambda>r. value_of r subj \<noteq> CNull) (filter (accepts (toLower g) tm ds) (pattern_rows g a pat)) =
      filter (accepts (toLower g) tm ds) (pattern_rows g a pat)"
    by (rule filter_True) (use bound in auto)
  show ?thesis
    by (simp add: run_query_def run_clauses_append 1 2 count_plan_def 3 del: filter_filter)
qed

lemma run_page_query_ordered:
  assumes pat: "list_all is_pattern_clause pat" "param_articleId ps = a"
    and cond: "cond = (if is_falsy tm then [] else [WHERE ds])" "param_searchTerm ps = tm"
    and typed: "\<not> is_falsy tm \<Longrightarrow>
        list_all (\<lambda>r. list_all (\<lambda>d. is_text_or_null (eval_expr r d)) ds) (pattern_rows g a pat)"
    and window: "param_skip ps = Some s" "param_limit ps = Some l"
  shows "run_query g ps (pat @ cond @ [RETURN_DISTINCT items, ORDER_BY_DESC e, SKIP_LIMIT]) =
     Inr (take l (drop s (foldr (insert_by (compare_desc e))
            (distinct_rows g a pat tm ds items) [])))"
proof -
  have 1: "run_clauses g ps pat [[]] = Inr (pattern_rows g a pat)"
    using pat by (rule run_pattern)
  have 2: "run_clauses g ps cond (pattern_rows g a pat) =
      Inr (filter (accepts (toLower g) tm ds) (pattern_rows g a pat))"
    using cond typed by (rule run_condition)
  show ?thesis
    by (simp add: run_query_def run_clauses_append 1 2 distinct_rows_def project_fun window)
qed

lemma run_page_query_unordered:
  assumes pat: "list_all is_pattern_clause pat" "param_articleId ps = a"
    and cond: "cond = (if is_falsy tm then [] else [WHERE ds])" "param_searchTerm ps = tm"
    and typed: "\<not> is_falsy tm \<Longrightarrow>
        list_all (\<lambda>r. list_all (\<lambda>d. is_text_or_null (eval_expr r d)) ds) (pattern_rows g a pat)"
    and window: "param_skip ps = Some s" "param_limit ps = Some l"
  shows "run_query g ps (pat @ cond @ [RETURN_DISTINCT items, SKIP_LIMIT]) =
     Inr (take l (drop s (distinct_rows g a pat tm ds items)))"
proof -
  have 1: "run_clauses g ps pat [[]] = Inr (pattern_rows g a pat)"
    using pat by (rule run_pattern)
  have 2: "run_clauses g ps cond (pattern_rows g a pat) =
      Inr (filter (accepts (toLower g) tm ds) (pattern_rows g a pat))"
    using cond typed by (rule run_condition)
  show ?thesis
    by (simp add: run_query_def run_clauses_append 1 2 distinct_rows_def project_fun window)
qed

lemma getCitedByArticles_queries:
  "getCitedByArticles_getSearchCondition f ''a'' (Prop ''n'' ''short'') =
     (if is_falsy (searchTerm f) then [] else [WHERE getCitedByArticles_fields])"
  "getCitedByArticles_getCountQuery f =
     getCitedByArticles_pattern @ getCitedByArticles_getSearchCondition f ''a'' (Prop ''n'' ''short'') @
     [RETURN_count ''a'' ''totalCount'']"
  "getCitedByArticles_getArticlesQuery f =
     getCitedByArticles_pattern @ getCitedByArticles_getSearchCondition f ''a'' (Prop ''n'' ''short'') @
     [RETURN_DISTINCT getCitedByArticles_columns, ORDER_BY_DESC (Prop ''a'' ''citing_cases''), SKIP_LIMIT]"
  "list_all is_pattern_clause getCitedByArticles_pattern"
  by (simp_all add: getCitedByArticles_getSearchCondition_def getCitedByArticles_getCountQuery_def
      getCitedByArticles_getArticlesQuery_def getCitedByArticles_pattern_def getCitedByArticles_fields_def
      getCitedByArticles_columns_def)

lemma getArticleCitingOtherArticles_queries:
  "getArticleCitingOtherArticles_getSearchCondition f ''b'' (Prop ''n'' ''short'') =
     (if is_falsy (searchTerm f) then [] else [WHERE getArticleCitingOtherArticles_fields])"
  "getArticleCitingOtherArticles_getCountQuery f =
     getArticleCitingOtherArticles_pattern @ getArticleCitingOtherArticles_getSearchCondition f ''b'' (Prop ''n'' ''short'') @
     [RETURN_count ''b'' ''totalCount'']"
  "getArticleCitingOtherArticles_getArticlesQuery f =
     getArticleCitingOtherArticles_pattern @ getArticleCitingOtherArticles_getSearchCondition f ''b'' (Prop ''n'' ''short'') @
     [RETURN_DISTINCT getArticleCitingOtherArticles_columns, ORDER_BY_DESC (Prop ''b'' ''citing_cases''), SKIP_LIMIT]"
  "list_all is_pattern_clause getArticleCitingOtherArticles_pattern"
  by (simp_all add: getArticleCitingOtherArticles_getSearchCondition_def getArticleCitingOtherArticles_getCountQuery_def
      getArticleCitingOtherArticles_getArticlesQuery_def getArticleCitingOtherArticles_pattern_def getArticleCitingOtherArticles_fields_def
      getArticleCitingOtherArticles_columns_def)

lemma getCasesCitingArticle_queries:
  "getCasesCitingArticle_getSearchCondition f ''c'' (Prop ''n'' ''short'') =
     (if is_falsy (searchTerm f) then [] else [WHERE getCasesCitingArticle_fields])"
  "getCasesCitingArticle_getCountQuery f =
     getCasesCitingArticle_pattern @ getCasesCitingArticle_getSearchCondition f ''c'' (Prop ''n'' ''short'') @
     [RETURN_count ''c'' ''totalCount'']"
  "getCasesCitingArticle_getCasesQuery f =
     getCasesCitingArticle_pattern @ getCasesCitingArticle_getSearchCondition f ''c'' (Prop ''n'' ''short'') @
     [RETURN_DISTINCT getCasesCitingArticle_columns, ORDER_BY_DESC (Prop ''c'' ''citing_cases''), SKIP_LIMIT]"
  "list_all is_pattern_clause getCasesCitingArticle_pattern"
  by (simp_all add: getCasesCitingArticle_getSearchCondition_def getCasesCitingArticle_getCountQuery_def
      getCasesCitingArticle_getCasesQuery_def getCasesCitingArticle_pattern_def getCasesCitingArticle_fields_def
      getCasesCitingArticle_columns_def)

lemma getReferencesWithArticle_queries:
  "getReferencesWithArticle_getSearchCondition f ''r'' =
     (if is_falsy (searchTerm f) then [] else [WHERE getReferencesWithArticle_fields])"
  "getReferencesWithArticle_getCountQuery f =
     getReferencesWithArticle_pattern @ getReferencesWithArticle_getSearchCondition f ''r'' @
     [RETURN_count ''r'' ''totalCount'']"
  "getReferencesWithArticle_getReferencesQuery f =
     getReferencesWithArticle_pattern @ getReferencesWithArticle_getSearchCondition f ''r'' @
     [RETURN_DISTINCT getReferencesWithArticle_columns, SKIP_LIMIT]"
  "list_all is_pattern_clause getReferencesWithArticle_pattern"
  by (simp_all add: getReferencesWithArticle_getSearchCondition_def getReferencesWithArticle_getCountQuery_def
      getReferencesWithArticle_getReferencesQuery_def getReferencesWithArticle_pattern_def getReferencesWithArticle_fields_def
      getReferencesWithArticle_columns_def)

lemma bind_var_other: "x \<noteq> v \<Longrightarrow> map_of (bind_var v c r) x = map_of r x"
  unfolding bind_var_def by (induction r) auto

lemma expand_binds_second:
  assumes "r \<in> set (expand g ps p1 t p2 r0)"
  shows "\<exists>n. value_of r (pattern_var p2) = CNode n"
proof -
  obtain v1 l1 k1 where p1: "p1 = NodeP v1 l1 k1" by (cases p1)
  obtain v2 l2 k2 where p2: "p2 = NodeP v2 l2 k2" by (cases p2)
  from expand_rows [OF assms] obtain s d where
    m1: "node_matches ps r0 p1 s" and m2: "node_matches ps r0 p2 d"
    and r: "r = bind_var v2 (CNode d) (bind_var v1 (CNode s) r0)"
    unfolding p1 p2 by auto
  let ?r1 = "bind_var v1 (CNode s) r0"
  show ?thesis
  proof (cases "map_of ?r1 v2")
    case None
    then have "map_of r v2 = Some (CNode d)" unfolding r by (rule bind_var_binds)
    then show ?thesis by (auto simp: p2 value_of_node)
  next
    case (Some c)
    then have rv: "map_of r v2 = Some c" unfolding r by (simp add: bind_var_def)
    have "\<exists>n. c = CNode n"
    proof (cases "v2 = v1")
      case True
      from expand_binds_first [OF assms] obtain n where "map_of r v1 = Some (CNode n)"
        by (auto simp: p1 value_of_node)
      with rv True show ?thesis by auto
    next
      case False
      then have "map_of r0 v2 = Some c" using Some by (simp add: bind_var_other)
      with m2 show ?thesis unfolding p2 by simp
    qed
    with rv show ?thesis by (auto simp: p2 value_of_node)
  qed
qed

lemma match_rows: "pattern_rows g a [MATCH p1 t p2] = expand g (only_articleId a) p1 t p2 []"
  by (simp add: pattern_rows_def)

lemma named_rows:
  "pattern_rows g a [MATCH p1 t p2, OPTIONAL_MATCH q1 u q2, WITH vs] =
     map (\<lambda>r. map (\<lambda>v. (v, value_of r v)) vs)
       (concat (map (expand_optional g (only_articleId a) q1 u q2)
          (expand g (only_articleId a) p1 t p2 [])))"
  by (simp add: pattern_rows_def)

lemma named_rows_subject:
  assumes "x \<in> set vs" "x = pattern_var p1 \<or> x = pattern_var p2"
  shows "(\<lambda>r. value_of r x) ` set (pattern_rows g a [MATCH p1 t p2, OPTIONAL_MATCH q1 u q2, WITH vs]) =
         (\<lambda>r. value_of r x) ` set (pattern_rows g a [MATCH p1 t p2])"
    and "\<forall>r \<in> set (pattern_rows g a [MATCH p1 t p2, OPTIONAL_MATCH q1 u q2, WITH vs]).
           \<exists>n. value_of r x = CNode n"
proof -
  let ?ps = "only_articleId a"
  let ?M = "expand g ?ps p1 t p2 []"
  let ?O = "concat (map (expand_optional g ?ps q1 u q2) ?M)"
  have node: "\<exists>n. value_of m x = CNode n" if "m \<in> set ?M" for m
    using assms(2) expand_binds_first [OF that] expand_binds_second [OF that] by auto
  have keep: "value_of r x = value_of m x"
    if "m \<in> set ?M" "r \<in> set (expand_optional g ?ps q1 u q2 m)" for m r
  proof -
    from node [OF that(1)] obtain n where n: "map_of m x = Some (CNode n)"
      by (auto simp: value_of_node)
    from expand_optional_keeps [OF that(2) n] n show ?thesis by (simp add: value_of_def)
  qed
  have O: "(\<lambda>r. value_of r x) ` set ?O = (\<lambda>r. value_of r x) ` set ?M"
  proof (intro set_eqI iffI)
    fix c assume "c \<in> (\<lambda>r. value_of r x) ` set ?O"
    then obtain m r where "m \<in> set ?M" "r \<in> set (expand_optional g ?ps q1 u q2 m)" "c = value_of r x"
      by auto
    then show "c \<in> (\<lambda>r. value_of r x) ` set ?M" using keep by force
  next
    fix c assume "c \<in> (\<lambda>r. value_of r x) ` set ?M"
    then obtain m where m: "m \<in> set ?M" "c = value_of m x" by auto
    obtain r where r: "r \<in> set (expand_optional g ?ps q1 u q2 m)"
      using expand_optional_nonempty [of g ?ps q1 u q2 m]
      by (cases "expand_optional g ?ps q1 u q2 m") auto
    with m keep have "c = value_of r x" by simp
    moreover have "r \<in> set ?O" using m(1) r by auto
    ultimately show "c \<in> (\<lambda>r. value_of r x) ` set ?O" by blast
  qed
  have W: "(\<lambda>r. value_of r x) ` set (map (\<lambda>r. map (\<lambda>v. (v, value_of r v)) vs) ?O) =
      (\<lambda>r. value_of r x) ` set ?O"
    using assms(1) by (simp add: image_image with_value)
  show "(\<lambda>r. value_of r x) ` set (pattern_rows g a [MATCH p1 t p2, OPTIONAL_MATCH q1 u q2, WITH vs]) =
         (\<lambda>r. value_of r x) ` set (pattern_rows g a [MATCH p1 t p2])"
    unfolding named_rows match_rows W O ..
  have "\<forall>c \<in> (\<lambda>r. value_of r x) ` set ?M. \<exists>n. c = CNode n" using node by auto
  then have "\<forall>c \<in> (\<lambda>r. value_of r x) ` set (map (\<lambda>r. map (\<lambda>v. (v, value_of r v)) vs) ?O). \<exists>n. c = CNode n"
    unfolding W O .
  then show "\<forall>r \<in> set (pattern_rows g a [MATCH p1 t p2, OPTIONAL_MATCH q1 u q2, WITH vs]).
           \<exists>n. value_of r x = CNode n"
    unfolding named_rows by auto
qed

lemma match_rows_subject:
  "\<forall>r \<in> set (pattern_rows g a [MATCH p1 t p2]). \<exists>n. value_of r (pattern_var p1) = CNode n"
  unfolding match_rows using expand_binds_first by blast

lemma field_matches_iff:
  "field_matches (toLower g) t c \<longleftrightarrow> (\<exists>s. c = CString s \<and> CONTAINS (toLower g s) (toLower g t))"
  by (cases c) auto

lemma getCitedByArticles_bound:
  "\<forall>r \<in> set (pattern_rows g a getCitedByArticles_pattern). \<exists>n. value_of r ''a'' = CNode n"
  unfolding getCitedByArticles_pattern_def by (rule named_rows_subject(2)) simp_all

lemma getCitedByArticles_count_result:
  assumes "\<not> is_falsy (searchTerm f) \<Longrightarrow>
     text_fields (pattern_rows g (articleId f) getCitedByArticles_pattern) getCitedByArticles_fields"
  shows "run_query g (count_params f) (getCitedByArticles_getCountQuery f) =
     Inr [[(''totalCount'',
            CInteger (count_plan g (articleId f) getCitedByArticles_pattern (searchTerm f)
              getCitedByArticles_fields))]]"
  unfolding getCitedByArticles_queries(2)
proof (rule run_count_query)
  show "list_all is_pattern_clause getCitedByArticles_pattern" by (rule getCitedByArticles_queries(4))
  show "param_articleId (count_params f) = articleId f" by (simp add: count_params_def)
  show "getCitedByArticles_getSearchCondition f ''a'' (Prop ''n'' ''short'') =
      (if is_falsy (searchTerm f) then [] else [WHERE getCitedByArticles_fields])"
    by (rule getCitedByArticles_queries(1))
  show "param_searchTerm (count_params f) = searchTerm f" by (simp add: count_params_def)
  show "list_all (\<lambda>r. list_all (\<lambda>d. is_text_or_null (eval_expr r d)) getCitedByArticles_fields)
      (pattern_rows g (articleId f) getCitedByArticles_pattern)" if "\<not> is_falsy (searchTerm f)"
    using assms [OF that] by (simp add: text_fields_def)
  show "\<forall>r \<in> set (pattern_rows g (articleId f) getCitedByArticles_pattern). value_of r ''a'' \<noteq> CNull"
    using getCitedByArticles_bound [of g "articleId f"] by auto
qed

lemma getCitedByArticles_page_result:
  assumes "\<not> is_falsy (searchTerm f) \<Longrightarrow>
     text_fields (pattern_rows g (articleId f) getCitedByArticles_pattern) getCitedByArticles_fields"
  shows "run_query g (page_params f) (getCitedByArticles_getArticlesQuery f) =
     Inr (take (limit f) (drop (skip f)
          (foldr (insert_by (compare_desc (Prop ''a'' ''citing_cases'')))
           (distinct_rows g (articleId f) getCitedByArticles_pattern (searchTerm f) getCitedByArticles_fields
              getCitedByArticles_columns) [])))"
  unfolding getCitedByArticles_queries(3)
proof (rule run_page_query_ordered)
  show "list_all is_pattern_clause getCitedByArticles_pattern" by (rule getCitedByArticles_queries(4))
  show "param_articleId (page_params f) = articleId f" by (simp add: page_params_def)
  show "getCitedByArticles_getSearchCondition f ''a'' (Prop ''n'' ''short'') =
      (if is_falsy (searchTerm f) then [] else [WHERE getCitedByArticles_fields])"
    by (rule getCitedByArticles_queries(1))
  show "param_searchTerm (page_params f) = searchTerm f" by (simp add: page_params_def)
  show "list_all (\<lambda>r. list_all (\<lambda>d. is_text_or_null (eval_expr r d)) getCitedByArticles_fields)
      (pattern_rows g (articleId f) getCitedByArticles_pattern)" if "\<not> is_falsy (searchTerm f)"
    using assms [OF that] by (simp add: text_fields_def)
  show "param_skip (page_params f) = Some (skip f)" by (simp add: page_params_def)
  show "param_limit (page_params f) = Some (limit f)" by (simp add: page_params_def)
qed

lemma getArticleCitingOtherArticles_bound:
  "\<forall>r \<in> set (pattern_rows g a getArticleCitingOtherArticles_pattern). \<exists>n. value_of r ''b'' = CNode n"
  unfolding getArticleCitingOtherArticles_pattern_def by (rule named_rows_subject(2)) simp_all

lemma getArticleCitingOtherArticles_count_result:
  assumes "\<not> is_falsy (searchTerm f) \<Longrightarrow>
     text_fields (pattern_rows g (articleId f) getArticleCitingOtherArticles_pattern) getArticleCitingOtherArticles_fields"
  shows "run_query g (count_params f) (getArticleCitingOtherArticles_getCountQuery f) =
     Inr [[(''totalCount'',
            CInteger (count_plan g (articleId f) getArticleCitingOtherArticles_pattern (searchTerm f)
              getArticleCitingOtherArticles_fields))]]"
  unfolding getArticleCitingOtherArticles_queries(2)
proof (rule run_count_query)
  show "list_all is_pattern_clause getArticleCitingOtherArticles_pattern" by (rule getArticleCitingOtherArticles_queries(4))
  show "param_articleId (count_params f) = articleId f" by (simp add: count_params_def)
  show "getArticleCitingOtherArticles_getSearchCondition f ''b'' (Prop ''n'' ''short'') =
      (if is_falsy (searchTerm f) then [] else [WHERE getArticleCitingOtherArticles_fields])"
    by (rule getArticleCitingOtherArticles_queries(1))
  show "param_searchTerm (count_params f) = searchTerm f" by (simp add: count_params_def)
  show "list_all (\<lambda>r. list_all (\<lambda>d. is_text_or_null (eval_expr r d)) getArticleCitingOtherArticles_fields)
      (pattern_rows g (articleId f) getArticleCitingOtherArticles_pattern)" if "\<not> is_falsy (searchTerm f)"
    using assms [OF that] by (simp add: text_fields_def)
  show "\<forall>r \<in> set (pattern_rows g (articleId f) getArticleCitingOtherArticles_pattern). value_of r ''b'' \<noteq> CNull"
    using getArticleCitingOtherArticles_bound [of g "articleId f"] by auto
qed

lemma getArticleCitingOtherArticles_page_result:
  assumes "\<not> is_falsy (searchTerm f) \<Longrightarrow>
     text_fields (pattern_rows g (articleId f) getArticleCitingOtherArticles_pattern) getArticleCitingOtherArticles_fields"
  shows "run_query g (page_params f) (getArticleCitingOtherArticles_getArticlesQuery f) =
     Inr (take (limit f) (drop (skip f)
          (foldr (insert_by (compare_desc (Prop ''b'' ''citing_cases'')))
           (distinct_rows g (articleId f) getArticleCitingOtherArticles_pattern (searchTerm f) getArticleCitingOtherArticles_fields
              getArticleCitingOtherArticles_columns) [])))"
  unfolding getArticleCitingOtherArticles_queries(3)
proof (rule run_page_query_ordered)
  show "list_all is_pattern_clause getArticleCitingOtherArticles_pattern" by (rule getArticleCitingOtherArticles_queries(4))
  show "param_articleId (page_params f) = articleId f" by (simp add: page_params_def)
  show "getArticleCitingOtherArticles_getSearchCondition f ''b'' (Prop ''n'' ''short'') =
      (if is_falsy (searchTerm f) then [] else [WHERE getArticleCitingOtherArticles_fields])"
    by (rule getArticleCitingOtherArticles_queries(1))
  show "param_searchTerm (page_params f) = searchTerm f" by (simp add: page_params_def)
  show "list_all (\<lambda>r. list_all (\<lambda>d. is_text_or_null (eval_expr r d)) getArticleCitingOtherArticles_fields)
      (pattern_rows g (articleId f) getArticleCitingOtherArticles_pattern)" if "\<not> is_falsy (searchTerm f)"
    using assms [OF that] by (simp add: text_fields_def)
  show "param_skip (page_params f) = Some (skip f)" by (simp add: page_params_def)
  show "param_limit (page_params f) = Some (limit f)" by (simp add: page_params_def)
qed

lemma getCasesCitingArticle_bound:
  "\<forall>r \<in> set (pattern_rows g a getCasesCitingArticle_pattern). \<exists>n. value_of r ''c'' = CNode n"
  unfolding getCasesCitingArticle_pattern_def by (rule named_rows_subject(2)) simp_all

lemma getCasesCitingArticle_count_result:
  assumes "\<not> is_falsy (searchTerm f) \<Longrightarrow>
     text_fields (pattern_rows g (articleId f) getCasesCitingArticle_pattern) getCasesCitingArticle_fields"
  shows "run_query g (count_params f) (getCasesCitingArticle_getCountQuery f) =
     Inr [[(''totalCount'',
            CInteger (count_plan g (articleId f) getCasesCitingArticle_pattern (searchTerm f)
              getCasesCitingArticle_fields))]]"
  unfolding getCasesCitingArticle_queries(2)
proof (rule run_count_query)
  show "list_all is_pattern_clause getCasesCitingArticle_pattern" by (rule getCasesCitingArticle_queries(4))
  show "param_articleId (count_params f) = articleId f" by (simp add: count_params_def)
  show "getCasesCitingArticle_getSearchCondition f ''c'' (Prop ''n'' ''short'') =
      (if is_falsy (searchTerm f) then [] else [WHERE getCasesCitingArticle_fields])"
    by (rule getCasesCitingArticle_queries(1))
  show "param_searchTerm (count_params f) = searchTerm f" by (simp add: count_params_def)
  show "list_all (\<lambda>r. list_all (\<lambda>d. is_text_or_null (eval_expr r d)) getCasesCitingArticle_fields)
      (pattern_rows g (articleId f) getCasesCitingArticle_pattern)" if "\<not> is_falsy (searchTerm f)"
    using assms [OF that] by (simp add: text_fields_def)
  show "\<forall>r \<in> set (pattern_rows g (articleId f) getCasesCitingArticle_pattern). value_of r ''c'' \<noteq> CNull"
    using getCasesCitingArticle_bound [of g "articleId f"] by auto
qed

lemma getCasesCitingArticle_page_result:
  assumes "\<not> is_falsy (searchTerm f) \<Longrightarrow>
     text_fields (pattern_rows g (articleId f) getCasesCitingArticle_pattern) getCasesCitingArticle_fields"
  shows "run_query g (page_params f) (getCasesCitingArticle_getCasesQuery f) =
     Inr (take (limit f) (drop (skip f)
          (foldr (insert_by (compare_desc (Prop ''c'' ''citing_cases'')))
           (distinct_rows g (articleId f) getCasesCitingArticle_pattern (searchTerm f) getCasesCitingArticle_fields
              getCasesCitingArticle_columns) [])))"
  unfolding getCasesCitingArticle_queries(3)
proof (rule run_page_query_ordered)
  show "list_all is_pattern_clause getCasesCitingArticle_pattern" by (rule getCasesCitingArticle_queries(4))
  show "param_articleId (page_params f) = articleId f" by (simp add: page_params_def)
  show "getCasesCitingArticle_getSearchCondition f ''c'' (Prop ''n'' ''short'') =
      (if is_falsy (searchTerm f) then [] else [WHERE getCasesCitingArticle_fields])"
    by (rule getCasesCitingArticle_queries(1))
  show "param_searchTerm (page_params f) = searchTerm f" by (simp add: page_params_def)
  show "list_all (\<lambda>r. list_all (\<lambda>d. is_text_or_null (eval_expr r d)) getCasesCitingArticle_fields)
      (pattern_rows g (articleId f) getCasesCitingArticle_pattern)" if "\<not> is_falsy (searchTerm f)"
    using assms [OF that] by (simp add: text_fields_def)
  show "param_skip (page_params f) = Some (skip f)" by (simp add: page_params_def)
  show "param_limit (page_params f) = Some (limit f)" by (simp add: page_params_def)
qed

lemma getReferencesWithArticle_bound:
  "\<forall>r \<in> set (pattern_rows g a getReferencesWithArticle_pattern). \<exists>n. value_of r ''r'' = CNode n"
  using match_rows_subject [of g a "NodeP ''r'' (Some ''Reference'') None"] by (simp add: getReferencesWithArticle_pattern_def)

lemma getReferencesWithArticle_count_result:
  assumes "\<not> is_falsy (searchTerm f) \<Longrightarrow>
     text_fields (pattern_rows g (articleId f) getReferencesWithArticle_pattern) getReferencesWithArticle_fields"
  shows "run_query g (count_params f) (getReferencesWithArticle_getCountQuery f) =
     Inr [[(''totalCount'',
            CInteger (count_plan g (articleId f) getReferencesWithArticle_pattern (searchTerm f)
              getReferencesWithArticle_fields))]]"
  unfolding getReferencesWithArticle_queries(2)
proof (rule run_count_query)
  show "list_all is_pattern_clause getReferencesWithArticle_pattern" by (rule getReferencesWithArticle_queries(4))
  show "param_articleId (count_params f) = articleId f" by (simp add: count_params_def)
  show "getReferencesWithArticle_getSearchCondition f ''r'' =
      (if is_falsy (searchTerm f) then [] else [WHERE getReferencesWithArticle_fields])"
    by (rule getReferencesWithArticle_queries(1))
  show "param_searchTerm (count_params f) = searchTerm f" by (simp add: count_params_def)
  show "list_all (\<lambda>r. list_all (\<lambda>d. is_text_or_null (eval_expr r d)) getReferencesWithArticle_fields)
      (pattern_rows g (articleId f) getReferencesWithArticle_pattern)" if "\<not> is_falsy (searchTerm f)"
    using assms [OF that] by (simp add: text_fields_def)
  show "\<forall>r \<in> set (pattern_rows g (articleId f) getReferencesWithArticle_pattern). value_of r ''r'' \<noteq> CNull"
    using getReferencesWithArticle_bound [of g "articleId f"] by auto
qed

lemma getReferencesWithArticle_page_result:
  assumes "\<not> is_falsy (searchTerm f) \<Longrightarrow>
     text_fields (pattern_rows g (articleId f) getReferencesWithArticle_pattern) getReferencesWithArticle_fields"
  shows "run_query g (page_params f) (getReferencesWithArticle_getReferencesQuery f) =
     Inr (take (limit f) (drop (skip f)
          (distinct_rows g (articleId f) getReferencesWithArticle_pattern (searchTerm f) getReferencesWithArticle_fields
              getReferencesWithArticle_columns)))"
  unfolding getReferencesWithArticle_queries(3)
proof (rule run_page_query_unordered)
  show "list_all is_pattern_clause getReferencesWithArticle_pattern" by (rule getReferencesWithArticle_queries(4))
  show "param_articleId (page_params f) = articleId f" by (simp add: page_params_def)
  show "getReferencesWithArticle_getSearchCondition f ''r'' =
      (if is_falsy (searchTerm f) then [] else [WHERE getReferencesWithArticle_fields])"
    by (rule getReferencesWithArticle_queries(1))
  show "param_searchTerm (page_params f) = searchTerm f" by (simp add: page_params_def)
  show "list_all (\<lambda>r. list_all (\<lambda>d. is_text_or_null (eval_expr r d)) getReferencesWithArticle_fields)
      (pattern_rows g (articleId f) getReferencesWithArticle_pattern)" if "\<not> is_falsy (searchTerm f)"
    using assms [OF that] by (simp add: text_fields_def)
  show "param_skip (page_params f) = Some (skip f)" by (simp add: page_params_def)
  show "param_limit (page_params f) = Some (limit f)" by (simp add: page_params_def)
qed

text \<open>
  Claim C4 as stated, for every graph, fails where a declared field holds a value that is
  not a string. In \<open>integer_year_graph\<close> the \<open>judgment\<close> of case C-1/20 contains the term
  \<open>fair\<close>, so the predicate of the claim accepts one row. Case C-2/20 matches in no field
  and its \<open>year\<close> is the integer 2020: \<open>toLower(c.year)\<close> is a type error, in whatever order
  the store evaluates the operands of the \<open>OR\<close>. The count query and the page query are
  both rejected and the operation fails: the row whose \<open>judgment\<close> matches is not returned.
\<close>

theorem C4_counterexample:
  "count_plan integer_year_graph ''5'' getCasesCitingArticle_pattern (Some ''fair'')
     getCasesCitingArticle_fields = 1 \<and>
   run_query integer_year_graph
     (count_params \<lparr>articleId = ''5'', searchTerm = Some ''fair'', skip = 0, limit = 10\<rparr>)
     (getCasesCitingArticle_getCountQuery
        \<lparr>articleId = ''5'', searchTerm = Some ''fair'', skip = 0, limit = 10\<rparr>) =
     Inl (Rejected ''Expected a string value for toLower'') \<and>
   run_query integer_year_graph
     (page_params \<lparr>articleId = ''5'', searchTerm = Some ''fair'', skip = 0, limit = 10\<rparr>)
     (getCasesCitingArticle_getCasesQuery
        \<lparr>articleId = ''5'', searchTerm = Some ''fair'', skip = 0, limit = 10\<rparr>) =
     Inl (Rejected ''Expected a string value for toLower'') \<and>
   getCasesCitingArticle
     \<lparr>runQuery = graph_runQuery integer_year_graph,
      search = (\<lambda>request. Inr []),
      settles_first = 0\<rparr>
     \<lparr>articleId = ''5'', searchTerm = Some ''fair'', skip = 0, limit = 10\<rparr> =
     Inl (Rejected ''Expected a string value for toLower'')"
  by code_simp

text \<open>
  Claim C4, amended. Cypher's \<open>toLower\<close> is the store's, \<open>toLower g\<close>, whatever letters it
  folds. For a non-empty search term, a row is accepted exactly when some declared field
  (the resolved Name's \<open>short\<close> among them) is a string whose case-folded value contains
  the case-folded term as a substring; a \<open>null\<close> field does not match and does not stop
  another field from matching. On a graph where the declared fields of the matched rows
  are strings or absent, the count query and the page query of each operation succeed
  and compute the count and the page of the same accepted rows of the same match pattern.
\<close>

theorem C4_search_predicate:
  assumes "searchTerm f = Some t" and "t \<noteq> []"
  shows
  "(accepts (toLower g) (Some t) flds r \<longleftrightarrow>
      (\<exists>d \<in> set flds. \<exists>s. eval_expr r d = CString s \<and>
         (\<exists>u v. toLower g s = u @ toLower g t @ v))) \<and>
   (text_fields (pattern_rows g (articleId f) getCitedByArticles_pattern) getCitedByArticles_fields \<longrightarrow>
      run_query g (count_params f) (getCitedByArticles_getCountQuery f) =
        Inr [[(''totalCount'',
               CInteger (count_plan g (articleId f) getCitedByArticles_pattern (Some t)
                 getCitedByArticles_fields))]] \<and>
      run_query g (page_params f) (getCitedByArticles_getArticlesQuery f) =
        Inr (take (limit f) (drop (skip f)
          (foldr (insert_by (compare_desc (Prop ''a'' ''citing_cases'')))
           (distinct_rows g (articleId f) getCitedByArticles_pattern (Some t) getCitedByArticles_fields
              getCitedByArticles_columns) [])))) \<and>
   (text_fields (pattern_rows g (articleId f) getArticleCitingOtherArticles_pattern) getArticleCitingOtherArticles_fields \<longrightarrow>
      run_query g (count_params f) (getArticleCitingOtherArticles_getCountQuery f) =
        Inr [[(''totalCount'',
               CInteger (count_plan g (articleId f) getArticleCitingOtherArticles_pattern (Some t)
                 getArticleCitingOtherArticles_fields))]] \<and>
      run_query g (page_params f) (getArticleCitingOtherArticles_getArticlesQuery f) =
        Inr (take (limit f) (drop (skip f)
          (foldr (insert_by (compare_desc (Prop ''b'' ''citing_cases'')))
           (distinct_rows g (articleId f) getArticleCitingOtherArticles_pattern (Some t) getArticleCitingOtherArticles_fields
              getArticleCitingOtherArticles_columns) [])))) \<and>
   (text_fields (pattern_rows g (articleId f) getCasesCitingArticle_pattern) getCasesCitingArticle_fields \<longrightarrow>
      run_query g (count_params f) (getCasesCitingArticle_getCountQuery f) =
        Inr [[(''totalCount'',
               CInteger (count_plan g (articleId f) getCasesCitingArticle_pattern (Some t)
                 getCasesCitingArticle_fields))]] \<and>
      run_query g (page_params f) (getCasesCitingArticle_getCasesQuery f) =
        Inr (take (limit f) (drop (skip f)
          (foldr (insert_by (compare_desc (Prop ''c'' ''citing_cases'')))
           (distinct_rows g (articleId f) getCasesCitingArticle_pattern (Some t) getCasesCitingArticle_fields
              getCasesCitingArticle_columns) [])))) \<and>
   (text_fields (pattern_rows g (articleId f) getReferencesWithArticle_pattern) getReferencesWithArticle_fields \<longrightarrow>
      run_query g (count_params f) (getReferencesWithArticle_getCountQuery f) =
        Inr [[(''totalCount'',
               CInteger (count_plan g (articleId f) getReferencesWithArticle_pattern (Some t)
                 getReferencesWithArticle_fields))]] \<and>
      run_query g (page_params f) (getReferencesWithArticle_getReferencesQuery f) =
        Inr (take (limit f) (drop (skip f)
          (distinct_rows g (articleId f) getReferencesWithArticle_pattern (Some t) getReferencesWithArticle_fields
              getReferencesWithArticle_columns))))"
proof -
  have a: "accepts (toLower g) (Some t) flds r \<longleftrightarrow>
      (\<exists>d \<in> set flds. \<exists>s. eval_expr r d = CString s \<and>
         (\<exists>u v. toLower g s = u @ toLower g t @ v))"
    using assms(2) by (simp add: list_ex_iff field_matches_iff CONTAINS_iff)
  have q0: "text_fields (pattern_rows g (articleId f) getCitedByArticles_pattern) getCitedByArticles_fields \<longrightarrow>
      run_query g (count_params f) (getCitedByArticles_getCountQuery f) =
        Inr [[(''totalCount'',
               CInteger (count_plan g (articleId f) getCitedByArticles_pattern (Some t)
                 getCitedByArticles_fields))]] \<and>
      run_query g (page_params f) (getCitedByArticles_getArticlesQuery f) =
        Inr (take (limit f) (drop (skip f)
          (foldr (insert_by (compare_desc (Prop ''a'' ''citing_cases'')))
           (distinct_rows g (articleId f) getCitedByArticles_pattern (Some t) getCitedByArticles_fields
              getCitedByArticles_columns) [])))"
    using getCitedByArticles_count_result [of f g] getCitedByArticles_page_result [of f g]
    by (simp add: assms(1))
  have q1: "text_fields (pattern_rows g (articleId f) getArticleCitingOtherArticles_pattern) getArticleCitingOtherArticles_fields \<longrightarrow>
      run_query g (count_params f) (getArticleCitingOtherArticles_getCountQuery f) =
        Inr [[(''totalCount'',
               CInteger (count_plan g (articleId f) getArticleCitingOtherArticles_pattern (Some t)
                 getArticleCitingOtherArticles_fields))]] \<and>
      run_query g (page_params f) (getArticleCitingOtherArticles_getArticlesQuery f) =
        Inr (take (limit f) (drop (skip f)
          (foldr (insert_by (compare_desc (Prop ''b'' ''citing_cases'')))
           (distinct_rows g (articleId f) getArticleCitingOtherArticles_pattern (Some t) getArticleCitingOtherArticles_fields
              getArticleCitingOtherArticles_columns) [])))"
    using getArticleCitingOtherArticles_count_result [of f g] getArticleCitingOtherArticles_page_result [of f g]
    by (simp add: assms(1))
  have q2: "text_fields (pattern_rows g (articleId f) getCasesCitingArticle_pattern) getCasesCitingArticle_fields \<longrightarrow>
      run_query g (count_params f) (getCasesCitingArticle_getCountQuery f) =
        Inr [[(''totalCount'',
               CInteger (count_plan g (articleId f) getCasesCitingArticle_pattern (Some t)
                 getCasesCitingArticle_fields))]] \<and>
      run_query g (page_params f) (getCasesCitingArticle_getCasesQuery f) =
        Inr (take (limit f) (drop (skip f)
          (foldr (insert_by (compare_desc (Prop ''c'' ''citing_cases'')))
           (distinct_rows g (articleId f) getCasesCitingArticle_pattern (Some t) getCasesCitingArticle_fields
              getCasesCitingArticle_columns) [])))"
    using getCasesCitingArticle_count_result [of f g] getCasesCitingArticle_page_result [of f g]
    by (simp add: assms(1))
  have q3: "text_fields (pattern_rows g (articleId f) getReferencesWithArticle_pattern) getReferencesWithArticle_fields \<longrightarrow>
      run_query g (count_params f) (getReferencesWithArticle_getCountQuery f) =
        Inr [[(''totalCount'',
               CInteger (count_plan g (articleId f) getReferencesWithArticle_pattern (Some t)
                 getReferencesWithArticle_fields))]] \<and>
      run_query g (page_params f) (getReferencesWithArticle_getReferencesQuery f) =
        Inr (take (limit f) (drop (skip f)
          (distinct_rows g (articleId f) getReferencesWithArticle_pattern (Some t) getReferencesWithArticle_fields
              getReferencesWithArticle_columns)))"
    using getReferencesWithArticle_count_result [of f g] getReferencesWithArticle_page_result [of f g]
    by (simp add: assms(1))
  show ?thesis
    by (intro conjI) (fact a q0 q1 q2 q3)+
qed

theorem C4_witness:
  "searchTerm \<lparr>articleId = ''5'', searchTerm = Some ''FAIR'', skip = 0, limit = 10\<rparr> =
     Some ''FAIR'' \<and>
   ''FAIR'' \<noteq> [] \<and>
   text_fields (pattern_rows scenario_graph ''5'' getCitedByArticles_pattern)
     getCitedByArticles_fields \<and>
   run_query scenario_graph
     (count_params \<lparr>articleId = ''5'', searchTerm = Some ''FAIR'', skip = 0, limit = 10\<rparr>)
     (getCitedByArticles_getCountQuery
        \<lparr>articleId = ''5'', searchTerm = Some ''FAIR'', skip = 0, limit = 10\<rparr>) =
     Inr [[(''totalCount'', CInteger 1)]]"
proof -
  let ?f = "\<lparr>articleId = ''5'', searchTerm = Some ''FAIR'', skip = 0, limit = 10\<rparr>"
  have h1: "searchTerm ?f = Some ''FAIR''" by simp
  have h2: "''FAIR'' \<noteq> []" by simp
  have h3: "text_fields (pattern_rows scenario_graph (articleId ?f) getCitedByArticles_pattern)
     getCitedByArticles_fields"
    by code_simp
  have e: "count_plan scenario_graph (articleId ?f) getCitedByArticles_pattern (Some ''FAIR'')
      getCitedByArticles_fields = 1"
    by code_simp
  from C4_search_predicate [OF h1 h2, THEN conjunct2, THEN conjunct1, THEN mp, OF h3,
      THEN conjunct1] e h1 h2 h3
  show ?thesis by simp
qed

lemma accepts_falsy: "is_falsy tm \<Longrightarrow> accepts lower tm flds = (\<lambda>r. True)"
  by (cases tm) (auto intro!: ext)

lemma total_source:
  "getCitedByArticles sv f = Inr r1 \<Longrightarrow>
     \<exists>cr. runQuery sv (getCitedByArticles_getCountQuery f) (count_params f) = Inr cr \<and>
       totalCount_of cr = Inr (total r1)"
  "getArticleCitingOtherArticles sv f = Inr r2 \<Longrightarrow>
     \<exists>cr. runQuery sv (getArticleCitingOtherArticles_getCountQuery f) (count_params f) = Inr cr \<and>
       totalCount_of cr = Inr (total r2)"
  "getCasesCitingArticle sv f = Inr r3 \<Longrightarrow>
     \<exists>cr. runQuery sv (getCasesCitingArticle_getCountQuery f) (count_params f) = Inr cr \<and>
       totalCount_of cr = Inr (total r3)"
  "getReferencesWithArticle sv f = Inr r4 \<Longrightarrow>
     \<exists>cr. runQuery sv (getReferencesWithArticle_getCountQuery f) (count_params f) = Inr cr \<and>
       totalCount_of cr = Inr (total r4)"
  unfolding getCitedByArticles_Inr getArticleCitingOtherArticles_Inr getCasesCitingArticle_Inr
    getReferencesWithArticle_Inr graph_stage_Inr
  by blast+

lemma getCitedByArticles_without_term:
  assumes "is_falsy (searchTerm f)"
  shows "(getCitedByArticles_getSearchCondition f alias nameAlias = [] \<and>
    run_query g (count_params f) (getCitedByArticles_getCountQuery f) =
      Inr [[(''totalCount'',
             CInteger (int (length (pattern_rows g (articleId f) getCitedByArticles_pattern))))]] \<and>
    (\<exists>page.
       run_query g (page_params f) (getCitedByArticles_getArticlesQuery f) = Inr page \<and>
       length page \<le> length (pattern_rows g (articleId f) getCitedByArticles_pattern) \<and>
       (skip f = 0 \<longrightarrow>
        length (pattern_rows g (articleId f) getCitedByArticles_pattern) \<le> limit f \<longrightarrow>
        (\<lambda>r. value_of r ''a'') ` set page =
        (\<lambda>r. value_of r ''a'') ` set (pattern_rows g (articleId f)
           (take 1 getCitedByArticles_pattern)))) \<and>
    (getCitedByArticles sv (f\<lparr>skip := s1, limit := l1\<rparr>) = Inr r1 \<longrightarrow>
     getCitedByArticles sv (f\<lparr>skip := s2, limit := l2\<rparr>) = Inr r1' \<longrightarrow>
     total r1' = total r1))"
proof (intro conjI impI)
  let ?rows = "pattern_rows g (articleId f) getCitedByArticles_pattern"
  have all: "filter (accepts (toLower g) (searchTerm f) getCitedByArticles_fields) ?rows = ?rows"
    using assms by (simp add: accepts_falsy)
  show "getCitedByArticles_getSearchCondition f alias nameAlias = []"
    using assms by (simp add: getCitedByArticles_getSearchCondition_def)
  show "run_query g (count_params f) (getCitedByArticles_getCountQuery f) =
      Inr [[(''totalCount'', CInteger (int (length ?rows)))]]"
    using getCitedByArticles_count_result [of f g] assms by (simp add: count_plan_def all)
  let ?d = "distinct_rows g (articleId f) getCitedByArticles_pattern (searchTerm f) getCitedByArticles_fields
      getCitedByArticles_columns"
  let ?sorted = "foldr (insert_by (compare_desc (Prop ''a'' ''citing_cases''))) ?d []"
  let ?page = "take (limit f) (drop (skip f) ?sorted)"
  have p: "run_query g (page_params f) (getCitedByArticles_getArticlesQuery f) = Inr ?page"
    using getCitedByArticles_page_result [of f g] assms by simp
  have d: "?d = remdups (map (project getCitedByArticles_columns) ?rows)"
    by (simp add: distinct_rows_def all)
  have ld: "length ?sorted \<le> length ?rows"
    unfolding d using length_remdups_leq [of "map (project getCitedByArticles_columns) ?rows"]
    by (simp add: length_sorted_by)
  have l: "length ?page \<le> length ?rows" using ld by simp
  have sub: "(\<lambda>r. value_of r ''a'') ` set ?sorted = (\<lambda>r. value_of r ''a'') ` set ?rows"
    unfolding d by (simp add: set_sorted_by image_image getCitedByArticles_columns_def project_def value_of_def)
  have m: "(\<lambda>r. value_of r ''a'') ` set ?rows =
      (\<lambda>r. value_of r ''a'') ` set (pattern_rows g (articleId f) (take 1 getCitedByArticles_pattern))"
    unfolding getCitedByArticles_pattern_def by (simp add: named_rows_subject(1))
  have w: "(\<lambda>r. value_of r ''a'') ` set ?page =
        (\<lambda>r. value_of r ''a'') ` set (pattern_rows g (articleId f) (take 1 getCitedByArticles_pattern))"
    if "skip f = 0" "length ?rows \<le> limit f"
  proof -
    have "?page = ?sorted" using that ld by simp
    then show ?thesis using sub m by simp
  qed
  show "\<exists>page.
       run_query g (page_params f) (getCitedByArticles_getArticlesQuery f) = Inr page \<and>
       length page \<le> length (pattern_rows g (articleId f) getCitedByArticles_pattern) \<and>
       (skip f = 0 \<longrightarrow>
        length (pattern_rows g (articleId f) getCitedByArticles_pattern) \<le> limit f \<longrightarrow>
        (\<lambda>r. value_of r ''a'') ` set page =
        (\<lambda>r. value_of r ''a'') ` set (pattern_rows g (articleId f)
           (take 1 getCitedByArticles_pattern)))"
  proof (intro exI [of _ ?page] conjI impI)
    show "run_query g (page_params f) (getCitedByArticles_getArticlesQuery f) = Inr ?page" by (rule p)
    show "length ?page \<le> length ?rows" by (rule l)
    assume "skip f = 0" "length ?rows \<le> limit f"
    then show "(\<lambda>r. value_of r ''a'') ` set ?page =
        (\<lambda>r. value_of r ''a'') ` set (pattern_rows g (articleId f) (take 1 getCitedByArticles_pattern))"
      by (rule w)
  qed
next
  assume a: "getCitedByArticles sv (f\<lparr>skip := s1, limit := l1\<rparr>) = Inr r1"
    and b: "getCitedByArticles sv (f\<lparr>skip := s2, limit := l2\<rparr>) = Inr r1'"
  have q: "getCitedByArticles_getCountQuery (f\<lparr>skip := s, limit := l\<rparr>) = getCitedByArticles_getCountQuery f"
      "count_params (f\<lparr>skip := s, limit := l\<rparr>) = count_params f" for s l
    by (simp_all add: getCitedByArticles_getCountQuery_def getCitedByArticles_getSearchCondition_def count_params_def)
  from total_source(1) [OF a] obtain cr where
    "runQuery sv (getCitedByArticles_getCountQuery f) (count_params f) = Inr cr" "totalCount_of cr = Inr (total r1)"
    unfolding q by blast
  moreover from total_source(1) [OF b] obtain cr' where
    "runQuery sv (getCitedByArticles_getCountQuery f) (count_params f) = Inr cr'" "totalCount_of cr' = Inr (total r1')"
    unfolding q by blast
  ultimately show "total r1' = total r1" by simp
qed

lemma getArticleCitingOtherArticles_without_term:
  assumes "is_falsy (searchTerm f)"
  shows "(getArticleCitingOtherArticles_getSearchCondition f alias nameAlias = [] \<and>
    run_query g (count_params f) (getArticleCitingOtherArticles_getCountQuery f) =
      Inr [[(''totalCount'',
             CInteger (int (length (pattern_rows g (articleId f) getArticleCitingOtherArticles_pattern))))]] \<and>
    (\<exists>page.
       run_query g (page_params f) (getArticleCitingOtherArticles_getArticlesQuery f) = Inr page \<and>
       length page \<le> length (pattern_rows g (articleId f) getArticleCitingOtherArticles_pattern) \<and>
       (skip f = 0 \<longrightarrow>
        length (pattern_rows g (articleId f) getArticleCitingOtherArticles_pattern) \<le> limit f \<longrightarrow>
        (\<lambda>r. value_of r ''b'') ` set page =
        (\<lambda>r. value_of r ''b'') ` set (pattern_rows g (articleId f)
           (take 1 getArticleCitingOtherArticles_pattern)))) \<and>
    (getArticleCitingOtherArticles sv (f\<lparr>skip := s1, limit := l1\<rparr>) = Inr r2 \<longrightarrow>
     getArticleCitingOtherArticles sv (f\<lparr>skip := s2, limit := l2\<rparr>) = Inr r2' \<longrightarrow>
     total r2' = total r2))"
proof (intro conjI impI)
  let ?rows = "pattern_rows g (articleId f) getArticleCitingOtherArticles_pattern"
  have all: "filter (accepts (toLower g) (searchTerm f) getArticleCitingOtherArticles_fields) ?rows = ?rows"
    using assms by (simp add: accepts_falsy)
  show "getArticleCitingOtherArticles_getSearchCondition f alias nameAlias = []"
    using assms by (simp add: getArticleCitingOtherArticles_getSearchCondition_def)
  show "run_query g (count_params f) (getArticleCitingOtherArticles_getCountQuery f) =
      Inr [[(''totalCount'', CInteger (int (length ?rows)))]]"
    using getArticleCitingOtherArticles_count_result [of f g] assms by (simp add: count_plan_def all)
  let ?d = "distinct_rows g (articleId f) getArticleCitingOtherArticles_pattern (searchTerm f) getArticleCitingOtherArticles_fields
      getArticleCitingOtherArticles_columns"
  let ?sorted = "foldr (insert_by (compare_desc (Prop ''b'' ''citing_cases''))) ?d []"
  let ?page = "take (limit f) (drop (skip f) ?sorted)"
  have p: "run_query g (page_params f) (getArticleCitingOtherArticles_getArticlesQuery f) = Inr ?page"
    using getArticleCitingOtherArticles_page_result [of f g] assms by simp
  have d: "?d = remdups (map (project getArticleCitingOtherArticles_columns) ?rows)"
    by (simp add: distinct_rows_def all)
  have ld: "length ?sorted \<le> length ?rows"
    unfolding d using length_remdups_leq [of "map (project getArticleCitingOtherArticles_columns) ?rows"]
    by (simp add: length_sorted_by)
  have l: "length ?page \<le> length ?rows" using ld by simp
  have sub: "(\<lambda>r. value_of r ''b'') ` set ?sorted = (\<lambda>r. value_of r ''b'') ` set ?rows"
    unfolding d by (simp add: set_sorted_by image_image getArticleCitingOtherArticles_columns_def project_def value_of_def)
  have m: "(\<lambda>r. value_of r ''b'') ` set ?rows =
      (\<lambda>r. value_of r ''b'') ` set (pattern_rows g (articleId f) (take 1 getArticleCitingOtherArticles_pattern))"
    unfolding getArticleCitingOtherArticles_pattern_def by (simp add: named_rows_subject(1))
  have w: "(\<lambda>r. value_of r ''b'') ` set ?page =
        (\<lambda>r. value_of r ''b'') ` set (pattern_rows g (articleId f) (take 1 getArticleCitingOtherArticles_pattern))"
    if "skip f = 0" "length ?rows \<le> limit f"
  proof -
    have "?page = ?sorted" using that ld by simp
    then show ?thesis using sub m by simp
  qed
  show "\<exists>page.
       run_query g (page_params f) (getArticleCitingOtherArticles_getArticlesQuery f) = Inr page \<and>
       length page \<le> length (pattern_rows g (articleId f) getArticleCitingOtherArticles_pattern) \<and>
       (skip f = 0 \<longrightarrow>
        length (pattern_rows g (articleId f) getArticleCitingOtherArticles_pattern) \<le> limit f \<longrightarrow>
        (\<lambda>r. value_of r ''b'') ` set page =
        (\<lambda>r. value_of r ''b'') ` set (pattern_rows g (articleId f)
           (take 1 getArticleCitingOtherArticles_pattern)))"
  proof (intro exI [of _ ?page] conjI impI)
    show "run_query g (page_params f) (getArticleCitingOtherArticles_getArticlesQuery f) = Inr ?page" by (rule p)
    show "length ?page \<le> length ?rows" by (rule l)
    assume "skip f = 0" "length ?rows \<le> limit f"
    then show "(\<lambda>r. value_of r ''b'') ` set ?page =
        (\<lambda>r. value_of r ''b'') ` set (pattern_rows g (articleId f) (take 1 getArticleCitingOtherArticles_pattern))"
      by (rule w)
  qed
next
  assume a: "getArticleCitingOtherArticles sv (f\<lparr>skip := s1, limit := l1\<rparr>) = Inr r2"
    and b: "getArticleCitingOtherArticles sv (f\<lparr>skip := s2, limit := l2\<rparr>) = Inr r2'"
  have q: "getArticleCitingOtherArticles_getCountQuery (f\<lparr>skip := s, limit := l\<rparr>) = getArticleCitingOtherArticles_getCountQuery f"
      "count_params (f\<lparr>skip := s, limit := l\<rparr>) = count_params f" for s l
    by (simp_all add: getArticleCitingOtherArticles_getCountQuery_def getArticleCitingOtherArticles_getSearchCondition_def count_params_def)
  from total_source(2) [OF a] obtain cr where
    "runQuery sv (getArticleCitingOtherArticles_getCountQuery f) (count_params f) = Inr cr" "totalCount_of cr = Inr (total r2)"
    unfolding q by blast
  moreover from total_source(2) [OF b] obtain cr' where
    "runQuery sv (getArticleCitingOtherArticles_getCountQuery f) (count_params f) = Inr cr'" "totalCount_of cr' = Inr (total r2')"
    unfolding q by blast
  ultimately show "total r2' = total r2" by simp
qed

lemma getCasesCitingArticle_without_term:
  assumes "is_falsy (searchTerm f)"
  shows "(getCasesCitingArticle_getSearchCondition f alias nameAlias = [] \<and>
    run_query g (count_params f) (getCasesCitingArticle_getCountQuery f) =
      Inr [[(''totalCount'',
             CInteger (int (length (pattern_rows g (articleId f) getCasesCitingArticle_pattern))))]] \<and>
    (\<exists>page.
       run_query g (page_params f) (getCasesCitingArticle_getCasesQuery f) = Inr page \<and>
       length page \<le> length (pattern_rows g (articleId f) getCasesCitingArticle_pattern) \<and>
       (skip f = 0 \<longrightarrow>
        length (pattern_rows g (articleId f) getCasesCitingArticle_pattern) \<le> limit f \<longrightarrow>
        (\<lambda>r. value_of r ''c'') ` set page =
        (\<lambda>r. value_of r ''c'') ` set (pattern_rows g (articleId f)
           (take 1 getCasesCitingArticle_pattern)))) \<and>
    (getCasesCitingArticle sv (f\<lparr>skip := s1, limit := l1\<rparr>) = Inr r3 \<longrightarrow>
     getCasesCitingArticle sv (f\<lparr>skip := s2, limit := l2\<rparr>) = Inr r3' \<longrightarrow>
     total r3' = total r3))"
proof (intro conjI impI)
  let ?rows = "pattern_rows g (articleId f) getCasesCitingArticle_pattern"
  have all: "filter (accepts (toLower g) (searchTerm f) getCasesCitingArticle_fields) ?rows = ?rows"
    using assms by (simp add: accepts_falsy)
  show "getCasesCitingArticle_getSearchCondition f alias nameAlias = []"
    using assms by (simp add: getCasesCitingArticle_getSearchCondition_def)
  show "run_query g (count_params f) (getCasesCitingArticle_getCountQuery f) =
      Inr [[(''totalCount'', CInteger (int (length ?rows)))]]"
    using getCasesCitingArticle_count_result [of f g] assms by (simp add: count_plan_def all)
  let ?d = "distinct_rows g (articleId f) getCasesCitingArticle_pattern (searchTerm f) getCasesCitingArticle_fields
      getCasesCitingArticle_columns"
  let ?sorted = "foldr (insert_by (compare_desc (Prop ''c'' ''citing_cases''))) ?d []"
  let ?page = "take (limit f) (drop (skip f) ?sorted)"
  have p: "run_query g (page_params f) (getCasesCitingArticle_getCasesQuery f) = Inr ?page"
    using getCasesCitingArticle_page_result [of f g] assms by simp
  have d: "?d = remdups (map (project getCasesCitingArticle_columns) ?rows)"
    by (simp add: distinct_rows_def all)
  have ld: "length ?sorted \<le> length ?rows"
    unfolding d using length_remdups_leq [of "map (project getCasesCitingArticle_columns) ?rows"]
    by (simp add: length_sorted_by)
  have l: "length ?page \<le> length ?rows" using ld by simp
  have sub: "(\<lambda>r. value_of r ''c'') ` set ?sorted = (\<lambda>r. value_of r ''c'') ` set ?rows"
    unfolding d by (simp add: set_sorted_by image_image getCasesCitingArticle_columns_def project_def value_of_def)
  have m: "(\<lambda>r. value_of r ''c'') ` set ?rows =
      (\<lambda>r. value_of r ''c'') ` set (pattern_rows g (articleId f) (take 1 getCasesCitingArticle_pattern))"
    unfolding getCasesCitingArticle_pattern_def by (simp add: named_rows_subject(1))
  have w: "(\<lambda>r. value_of r ''c'') ` set ?page =
        (\<lambda>r. value_of r ''c'') ` set (pattern_rows g (articleId f) (take 1 getCasesCitingArticle_pattern))"
    if "skip f = 0" "length ?rows \<le> limit f"
  proof -
    have "?page = ?sorted" using that ld by simp
    then show ?thesis using sub m by simp
  qed
  show "\<exists>page.
       run_query g (page_params f) (getCasesCitingArticle_getCasesQuery f) = Inr page \<and>
       length page \<le> length (pattern_rows g (articleId f) getCasesCitingArticle_pattern) \<and>
       (skip f = 0 \<longrightarrow>
        length (pattern_rows g (articleId f) getCasesCitingArticle_pattern) \<le> limit f \<longrightarrow>
        (\<lambda>r. value_of r ''c'') ` set page =
        (\<lambda>r. value_of r ''c'') ` set (pattern_rows g (articleId f)
           (take 1 getCasesCitingArticle_pattern)))"
  proof (intro exI [of _ ?page] conjI impI)
    show "run_query g (page_params f) (getCasesCitingArticle_getCasesQuery f) = Inr ?page" by (rule p)
    show "length ?page \<le> length ?rows" by (rule l)
    assume "skip f = 0" "length ?rows \<le> limit f"
    then show "(\<lambda>r. value_of r ''c'') ` set ?page =
        (\<lambda>r. value_of r ''c'') ` set (pattern_rows g (articleId f) (take 1 getCasesCitingArticle_pattern))"
      by (rule w)
  qed
next
  assume a: "getCasesCitingArticle sv (f\<lparr>skip := s1, limit := l1\<rparr>) = Inr r3"
    and b: "getCasesCitingArticle sv (f\<lparr>skip := s2, limit := l2\<rparr>) = Inr r3'"
  have q: "getCasesCitingArticle_getCountQuery (f\<lparr>skip := s, limit := l\<rparr>) = getCasesCitingArticle_getCountQuery f"
      "count_params (f\<lparr>skip := s, limit := l\<rparr>) = count_params f" for s l
    by (simp_all add: getCasesCitingArticle_getCountQuery_def getCasesCitingArticle_getSearchCondition_def count_params_def)
  from total_source(3) [OF a] obtain cr where
    "runQuery sv (getCasesCitingArticle_getCountQuery f) (count_params f) = Inr cr" "totalCount_of cr = Inr (total r3)"
    unfolding q by blast
  moreover from total_source(3) [OF b] obtain cr' where
    "runQuery sv (getCasesCitingArticle_getCountQuery f) (count_params f) = Inr cr'" "totalCount_of cr' = Inr (total r3')"
    unfolding q by blast
  ultimately show "total r3' = total r3" by simp
qed

lemma getReferencesWithArticle_without_term:
  assumes "is_falsy (searchTerm f)"
  shows "(getReferencesWithArticle_getSearchCondition f alias = [] \<and>
    run_query g (count_params f) (getReferencesWithArticle_getCountQuery f) =
      Inr [[(''totalCount'',
             CInteger (int (length (pattern_rows g (articleId f) getReferencesWithArticle_pattern))))]] \<and>
    (\<exists>page.
       run_query g (page_params f) (getReferencesWithArticle_getReferencesQuery f) = Inr page \<and>
       length page \<le> length (pattern_rows g (articleId f) getReferencesWithArticle_pattern) \<and>
       (skip f = 0 \<longrightarrow>
        length (pattern_rows g (articleId f) getReferencesWithArticle_pattern) \<le> limit f \<longrightarrow>
        (\<lambda>r. value_of r ''r'') ` set page =
        (\<lambda>r. value_of r ''r'') ` set (pattern_rows g (articleId f)
           (take 1 getReferencesWithArticle_pattern)))) \<and>
    (getReferencesWithArticle sv (f\<lparr>skip := s1, limit := l1\<rparr>) = Inr r4 \<longrightarrow>
     getReferencesWithArticle sv (f\<lparr>skip := s2, limit := l2\<rparr>) = Inr r4' \<longrightarrow>
     total r4' = total r4))"
proof (intro conjI impI)
  let ?rows = "pattern_rows g (articleId f) getReferencesWithArticle_pattern"
  have all: "filter (accepts (toLower g) (searchTerm f) getReferencesWithArticle_fields) ?rows = ?rows"
    using assms by (simp add: accepts_falsy)
  show "getReferencesWithArticle_getSearchCondition f alias = []"
    using assms by (simp add: getReferencesWithArticle_getSearchCondition_def)
  show "run_query g (count_params f) (getReferencesWithArticle_getCountQuery f) =
      Inr [[(''totalCount'', CInteger (int (length ?rows)))]]"
    using getReferencesWithArticle_count_result [of f g] assms by (simp add: count_plan_def all)
  let ?d = "distinct_rows g (articleId f) getReferencesWithArticle_pattern (searchTerm f) getReferencesWithArticle_fields
      getReferencesWithArticle_columns"
  let ?sorted = "?d"
  let ?page = "take (limit f) (drop (skip f) ?sorted)"
  have p: "run_query g (page_params f) (getReferencesWithArticle_getReferencesQuery f) = Inr ?page"
    using getReferencesWithArticle_page_result [of f g] assms by simp
  have d: "?d = remdups (map (project getReferencesWithArticle_columns) ?rows)"
    by (simp add: distinct_rows_def all)
  have ld: "length ?sorted \<le> length ?rows"
    unfolding d using length_remdups_leq [of "map (project getReferencesWithArticle_columns) ?rows"]
    by (simp add: length_sorted_by)
  have l: "length ?page \<le> length ?rows" using ld by simp
  have sub: "(\<lambda>r. value_of r ''r'') ` set ?sorted = (\<lambda>r. value_of r ''r'') ` set ?rows"
    unfolding d by (simp add: set_sorted_by image_image getReferencesWithArticle_columns_def project_def value_of_def)
  have m: "(\<lambda>r. value_of r ''r'') ` set ?rows =
      (\<lambda>r. value_of r ''r'') ` set (pattern_rows g (articleId f) (take 1 getReferencesWithArticle_pattern))"
    by (simp add: getReferencesWithArticle_pattern_def)
  have w: "(\<lambda>r. value_of r ''r'') ` set ?page =
        (\<lambda>r. value_of r ''r'') ` set (pattern_rows g (articleId f) (take 1 getReferencesWithArticle_pattern))"
    if "skip f = 0" "length ?rows \<le> limit f"
  proof -
    have "?page = ?sorted" using that ld by simp
    then show ?thesis using sub m by simp
  qed
  show "\<exists>page.
       run_query g (page_params f) (getReferencesWithArticle_getReferencesQuery f) = Inr page \<and>
       length page \<le> length (pattern_rows g (articleId f) getReferencesWithArticle_pattern) \<and>
       (skip f = 0 \<longrightarrow>
        length (pattern_rows g (articleId f) getReferencesWithArticle_pattern) \<le> limit f \<longrightarrow>
        (\<lambda>r. value_of r ''r'') ` set page =
        (\<lambda>r. value_of r ''r'') ` set (pattern_rows g (articleId f)
           (take 1 getReferencesWithArticle_pattern)))"
  proof (intro exI [of _ ?page] conjI impI)
    show "run_query g (page_params f) (getReferencesWithArticle_getReferencesQuery f) = Inr ?page" by (rule p)
    show "length ?page \<le> length ?rows" by (rule l)
    assume "skip f = 0" "length ?rows \<le> limit f"
    then show "(\<lambda>r. value_of r ''r'') ` set ?page =
        (\<lambda>r. value_of r ''r'') ` set (pattern_rows g (articleId f) (take 1 getReferencesWithArticle_pattern))"
      by (rule w)
  qed
next
  assume a: "getReferencesWithArticle sv (f\<lparr>skip := s1, limit := l1\<rparr>) = Inr r4"
    and b: "getReferencesWithArticle sv (f\<lparr>skip := s2, limit := l2\<rparr>) = Inr r4'"
  have q: "getReferencesWithArticle_getCountQuery (f\<lparr>skip := s, limit := l\<rparr>) = getReferencesWithArticle_getCountQuery f"
      "count_params (f\<lparr>skip := s, limit := l\<rparr>) = count_params f" for s l
    by (simp_all add: getReferencesWithArticle_getCountQuery_def getReferencesWithArticle_getSearchCondition_def count_params_def)
  from total_source(4) [OF a] obtain cr where
    "runQuery sv (getReferencesWithArticle_getCountQuery f) (count_params f) = Inr cr" "totalCount_of cr = Inr (total r4)"
    unfolding q by blast
  moreover from total_source(4) [OF b] obtain cr' where
    "runQuery sv (getReferencesWithArticle_getCountQuery f) (count_params f) = Inr cr'" "totalCount_of cr' = Inr (total r4')"
    unfolding q by blast
  ultimately show "total r4' = total r4" by simp
qed

text \<open>
  Claim C8. When the search term is absent or empty, for each operation: the search
  condition is empty; the count query returns the number of all rows of the match
  pattern; the page query returns at most that many rows, and with \<open>skip = 0\<close> and a
  limit of at least the count its rows show exactly the subjects that the \<open>MATCH\<close> clause
  alone matches, named or not; and the returned total is the same for any two windows
  \<open>skip\<close>/\<open>limit\<close>.
\<close>

theorem C8_no_search_term:
  assumes "is_falsy (searchTerm f)"
  shows
  "(getCitedByArticles_getSearchCondition f alias nameAlias = [] \<and>
    run_query g (count_params f) (getCitedByArticles_getCountQuery f) =
      Inr [[(''totalCount'',
             CInteger (int (length (pattern_rows g (articleId f) getCitedByArticles_pattern))))]] \<and>
    (\<exists>page.
       run_query g (page_params f) (getCitedByArticles_getArticlesQuery f) = Inr page \<and>
       length page \<le> length (pattern_rows g (articleId f) getCitedByArticles_pattern) \<and>
       (skip f = 0 \<longrightarrow>
        length (pattern_rows g (articleId f) getCitedByArticles_pattern) \<le> limit f \<longrightarrow>
        (\<lambda>r. value_of r ''a'') ` set page =
        (\<lambda>r. value_of r ''a'') ` set (pattern_rows g (articleId f)
           (take 1 getCitedByArticles_pattern)))) \<and>
    (getCitedByArticles sv (f\<lparr>skip := s1, limit := l1\<rparr>) = Inr r1 \<longrightarrow>
     getCitedByArticles sv (f\<lparr>skip := s2, limit := l2\<rparr>) = Inr r1' \<longrightarrow>
     total r1' = total r1)) \<and>
   (getArticleCitingOtherArticles_getSearchCondition f alias nameAlias = [] \<and>
    run_query g (count_params f) (getArticleCitingOtherArticles_getCountQuery f) =
      Inr [[(''totalCount'',
             CInteger (int (length (pattern_rows g (articleId f) getArticleCitingOtherArticles_pattern))))]] \<and>
    (\<exists>page.
       run_query g (page_params f) (getArticleCitingOtherArticles_getArticlesQuery f) = Inr page \<and>
       length page \<le> length (pattern_rows g (articleId f) getArticleCitingOtherArticles_pattern) \<and>
       (skip f = 0 \<longrightarrow>
        length (pattern_rows g (articleId f) getArticleCitingOtherArticles_pattern) \<le> limit f \<longrightarrow>
        (\<lambda>r. value_of r ''b'') ` set page =
        (\<lambda>r. value_of r ''b'') ` set (pattern_rows g (articleId f)
           (take 1 getArticleCitingOtherArticles_pattern)))) \<and>
    (getArticleCitingOtherArticles sv (f\<lparr>skip := s1, limit := l1\<rparr>) = Inr r2 \<longrightarrow>
     getArticleCitingOtherArticles sv (f\<lparr>skip := s2, limit := l2\<rparr>) = Inr r2' \<longrightarrow>
     total r2' = total r2)) \<and>
   (getCasesCitingArticle_getSearchCondition f alias nameAlias = [] \<and>
    run_query g (count_params f) (getCasesCitingArticle_getCountQuery f) =
      Inr [[(''totalCount'',
             CInteger (int (length (pattern_rows g (articleId f) getCasesCitingArticle_pattern))))]] \<and>
    (\<exists>page.
       run_query g (page_params f) (getCasesCitingArticle_getCasesQuery f) = Inr page \<and>
       length page \<le> length (pattern_rows g (articleId f) getCasesCitingArticle_pattern) \<and>
       (skip f = 0 \<longrightarrow>
        length (pattern_rows g (articleId f) getCasesCitingArticle_pattern) \<le> limit f \<longrightarrow>
        (\<lambda>r. value_of r ''c'') ` set page =
        (\<lambda>r. value_of r ''c'') ` set (pattern_rows g (articleId f)
           (take 1 getCasesCitingArticle_pattern)))) \<and>
    (getCasesCitingArticle sv (f\<lparr>skip := s1, limit := l1\<rparr>) = Inr r3 \<longrightarrow>
     getCasesCitingArticle sv (f\<lparr>skip := s2, limit := l2\<rparr>) = Inr r3' \<longrightarrow>
     total r3' = total r3)) \<and>
   (getReferencesWithArticle_getSearchCondition f alias = [] \<and>
    run_query g (count_params f) (getReferencesWithArticle_getCountQuery f) =
      Inr [[(''totalCount'',
             CInteger (int (length (pattern_rows g (articleId f) getReferencesWithArticle_pattern))))]] \<and>
    (\<exists>page.
       run_query g (page_params f) (getReferencesWithArticle_getReferencesQuery f) = Inr page \<and>
       length page \<le> length (pattern_rows g (articleId f) getReferencesWithArticle_pattern) \<and>
       (skip f = 0 \<longrightarrow>
        length (pattern_rows g (articleId f) getReferencesWithArticle_pattern) \<le> limit f \<longrightarrow>
        (\<lambda>r. value_of r ''r'') ` set page =
        (\<lambda>r. value_of r ''r'') ` set (pattern_rows g (articleId f)
           (take 1 getReferencesWithArticle_pattern)))) \<and>
    (getReferencesWithArticle sv (f\<lparr>skip := s1, limit := l1\<rparr>) = Inr r4 \<longrightarrow>
     getReferencesWithArticle sv (f\<lparr>skip := s2, limit := l2\<rparr>) = Inr r4' \<longrightarrow>
     total r4' = total r4))"
  by (intro conjI getCitedByArticles_without_term [OF assms, THEN conjunct1]
      getCitedByArticles_without_term [OF assms, THEN conjunct2]
      getArticleCitingOtherArticles_without_term [OF assms, THEN conjunct1]
      getArticleCitingOtherArticles_without_term [OF assms, THEN conjunct2]
      getCasesCitingArticle_without_term [OF assms, THEN conjunct1]
      getCasesCitingArticle_without_term [OF assms, THEN conjunct2]
      getReferencesWithArticle_without_term [OF assms, THEN conjunct1]
      getReferencesWithArticle_without_term [OF assms, THEN conjunct2])

theorem C8_witness:
  "is_falsy (searchTerm \<lparr>articleId = ''5'', searchTerm = None, skip = 0, limit = 10\<rparr>) \<and>
   getCitedByArticles_getSearchCondition
     \<lparr>articleId = ''5'', searchTerm = None, skip = 0, limit = 10\<rparr> ''a'' (Prop ''n'' ''short'') =
     [] \<and>
   run_query scenario_graph
     (count_params \<lparr>articleId = ''5'', searchTerm = None, skip = 0, limit = 10\<rparr>)
     (getCitedByArticles_getCountQuery
        \<lparr>articleId = ''5'', searchTerm = None, skip = 0, limit = 10\<rparr>) =
     Inr [[(''totalCount'', CInteger 2)]] \<and>
   (\<exists>page.
      run_query scenario_graph
        (page_params \<lparr>articleId = ''5'', searchTerm = None, skip = 0, limit = 10\<rparr>)
        (getCitedByArticles_getArticlesQuery
           \<lparr>articleId = ''5'', searchTerm = None, skip = 0, limit = 10\<rparr>) = Inr page \<and>
      length page \<le> 2 \<and>
      (\<lambda>r. value_of r ''a'') ` set page =
      (\<lambda>r. value_of r ''a'') ` set (pattern_rows scenario_graph ''5''
         (take 1 getCitedByArticles_pattern)))"
proof -
  let ?f = "\<lparr>articleId = ''5'', searchTerm = None, skip = 0, limit = 10\<rparr>"
  have h: "is_falsy (searchTerm ?f)" by simp
  have e: "length (pattern_rows scenario_graph (articleId ?f) getCitedByArticles_pattern) = 2"
    by code_simp
  note all = C8_no_search_term [OF h, THEN conjunct1]
  from all [THEN conjunct2, THEN conjunct2, THEN conjunct1]
  obtain page where
    p: "run_query scenario_graph (page_params ?f) (getCitedByArticles_getArticlesQuery ?f) = Inr page"
      "length page \<le> length (pattern_rows scenario_graph (articleId ?f) getCitedByArticles_pattern)"
    and w: "skip ?f = 0 \<longrightarrow>
        length (pattern_rows scenario_graph (articleId ?f) getCitedByArticles_pattern) \<le> limit ?f \<longrightarrow>
        (\<lambda>r. value_of r ''a'') ` set page =
        (\<lambda>r. value_of r ''a'') ` set (pattern_rows scenario_graph (articleId ?f)
           (take 1 getCitedByArticles_pattern))"
    by blast
  from w e have "(\<lambda>r. value_of r ''a'') ` set page =
        (\<lambda>r. value_of r ''a'') ` set (pattern_rows scenario_graph ''5''
           (take 1 getCitedByArticles_pattern))" by simp
  with p e have 3: "\<exists>page.
      run_query scenario_graph (page_params ?f) (getCitedByArticles_getArticlesQuery ?f) = Inr page \<and>
      length page \<le> 2 \<and>
      (\<lambda>r. value_of r ''a'') ` set page =
      (\<lambda>r. value_of r ''a'') ` set (pattern_rows scenario_graph ''5''
         (take 1 getCitedByArticles_pattern))"
    by auto
  from all [THEN conjunct1] all [THEN conjunct2, THEN conjunct1] e h 3
  show ?thesis by simp
qed

text \<open>
  Claim C7 says that the items of \<open>getReferencesWithArticle\<close> are the property maps of the
  page rows, and that the total is the distinct count. The items are as claimed, but the
  count query returns \<open>count(r)\<close>, the number of matched rows, while the page query returns
  \<open>DISTINCT r\<close>. On a graph where reference 7 mentions article 5 twice the count is 2 and
  the page has one row, so the operation returns a total of 2 with the one reference.
\<close>

theorem C7_total_counts_duplicate_mentions:
  "graph_runQuery twice_mentioned_graph
     (getReferencesWithArticle_getCountQuery
        \<lparr>articleId = ''5'', searchTerm = None, skip = 0, limit = 10\<rparr>)
     (count_params \<lparr>articleId = ''5'', searchTerm = None, skip = 0, limit = 10\<rparr>) =
     Inr [[(''totalCount'', NInteger 2 0)]] \<and>
   graph_runQuery twice_mentioned_graph
     (getReferencesWithArticle_getReferencesQuery
        \<lparr>articleId = ''5'', searchTerm = None, skip = 0, limit = 10\<rparr>)
     (page_params \<lparr>articleId = ''5'', searchTerm = None, skip = 0, limit = 10\<rparr>) =
     Inr [[(''r'', NNode ''r7'' [(''text'', NString ''see Article 5'')])]] \<and>
   getReferencesWithArticle
     \<lparr>runQuery = graph_runQuery twice_mentioned_graph,
      search = (\<lambda>request. Inr []),
      settles_first = 0\<rparr>
     \<lparr>articleId = ''5'', searchTerm = None, skip = 0, limit = 10\<rparr> =
     Inr \<lparr>total = 2, references = [[(''text'', NString ''see Article 5'')]]\<rparr>"
  by code_simp

text \<open>
  Claim C1 says that the count equals the number of distinct rows of the page query.
  Both queries are built from the same pattern and predicate, but the count query
  returns \<open>count(a)\<close>, the number of matched rows, while the page query returns
  \<open>DISTINCT\<close> rows. On a graph where article 1 cites article 5 twice the count is 2 and
  the page has one row, so the operation returns a total of 2 for one item; likewise
  for a case that refers to the article twice.
\<close>

theorem C1_count_counts_duplicate_rows:
  "graph_runQuery twice_cited_graph
     (getCitedByArticles_getCountQuery
        \<lparr>articleId = ''5'', searchTerm = None, skip = 0, limit = 10\<rparr>)
     (count_params \<lparr>articleId = ''5'', searchTerm = None, skip = 0, limit = 10\<rparr>) =
     Inr [[(''totalCount'', NInteger 2 0)]] \<and>
   graph_runQuery twice_cited_graph
     (getCitedByArticles_getArticlesQuery
        \<lparr>articleId = ''5'', searchTerm = None, skip = 0, limit = 10\<rparr>)
     (page_params \<lparr>articleId = ''5'', searchTerm = None, skip = 0, limit = 10\<rparr>) =
     Inr [[(''a'', NNode ''n1'' [(''number'', NString ''1'')]), (''name'', NNull),
           (''elementId'', NString ''n1'')]] \<and>
   getCitedByArticles
     \<lparr>runQuery = graph_runQuery twice_cited_graph,
      search = (\<lambda>request. Inr [\<lparr>source = [(''number'', JStr ''1'')]\<rparr>]),
      settles_first = 0\<rparr>
     \<lparr>articleId = ''5'', searchTerm = None, skip = 0, limit = 10\<rparr> =
     Inr \<lparr>total = 2, articles = [[(''number'', JStr ''1'')]]\<rparr> \<and>
   graph_runQuery twice_cited_graph
     (getCasesCitingArticle_getCountQuery
        \<lparr>articleId = ''5'', searchTerm = None, skip = 0, limit = 10\<rparr>)
     (count_params \<lparr>articleId = ''5'', searchTerm = None, skip = 0, limit = 10\<rparr>) =
     Inr [[(''totalCount'', NInteger 2 0)]] \<and>
   graph_runQuery twice_cited_graph
     (getCasesCitingArticle_getCasesQuery
        \<lparr>articleId = ''5'', searchTerm = None, skip = 0, limit = 10\<rparr>)
     (page_params \<lparr>articleId = ''5'', searchTerm = None, skip = 0, limit = 10\<rparr>) =
     Inr [[(''c'', NNode ''c1'' [(''number'', NString ''C-1/20'')]), (''caseName'', NNull),
           (''elementId'', NString ''c1'')]]"
  by code_simp

end
